(* ===== verification/Torca_Prelude.thy ===== *)
theory Torca_Prelude
  imports
    Main
    "HOL-Library.AList"
    "HOL-Library.Char_ord"
    "HOL-Library.List_Lexorder"
    "HOL-Library.Product_Lexorder"
    "HOL-Library.Word"
begin

text \<open>
  The shared layer of the development: what the Rust sources use of their standard library.
  \<^item> \<open>Result<T, E>\<close> is the sum type with \<open>Ok\<close>, \<open>Err\<close> and the operator \<open>?\<close> (here
    \<open>and_then\<close>); a method on \<open>&mut self\<close> that returns a \<open>Result\<close> is a function from the state to
    the result and the new state, and \<open>seq\<close> is \<open>?\<close> for it: an early return keeps the changes made
    so far, as in Rust.
  \<^item> \<open>String\<close> is a list of bytes (the UTF-8 encoding), so \<open>len\<close> counts bytes, \<open>chars_count\<close> counts
    the scalar values and \<open>trim\<close> removes the Unicode white space characters.
  \<^item> \<open>i64\<close>, \<open>u64\<close> and \<open>u32\<close> are int or nat with the saturation written out.
  \<^item> \<open>HashMap\<close> is an association list with distinct keys.
  \<^item> A table with a primary key is a list of rows, written by \<open>upsert\<close>.
\<close>

named_theorems rust_std \<open>unfolding rules of the standard library functions\<close>
named_theorems table_simps \<open>lookup after write, for tables keyed by a column\<close>

section \<open>Results and state\<close>

abbreviation Ok :: "'a \<Rightarrow> 'e + 'a" where
  "Ok \<equiv> Inr"

abbreviation Err :: "'e \<Rightarrow> 'e + 'a" where
  "Err \<equiv> Inl"

definition and_then :: "'e + 'a \<Rightarrow> ('a \<Rightarrow> 'e + 'b) \<Rightarrow> 'e + 'b" where
  "and_then r f = (case r of Inl e \<Rightarrow> Inl e | Inr x \<Rightarrow> f x)"

definition ok_or :: "'a option \<Rightarrow> 'e \<Rightarrow> 'e + 'a" where
  "ok_or x e = (case x of None \<Rightarrow> Inl e | Some y \<Rightarrow> Inr y)"

fun is_ok :: "'e + 'a \<Rightarrow> bool" where
  "is_ok (Inl _) = False"
| "is_ok (Inr _) = True"

type_synonym ('s, 'e, 'a) action = "'s \<Rightarrow> ('e + 'a) \<times> 's"

definition seq :: "('s, 'e, 'a) action \<Rightarrow> ('a \<Rightarrow> ('s, 'e, 'b) action) \<Rightarrow> ('s, 'e, 'b) action" where
  "seq m k = (\<lambda>s. case m s of (Inl e, s') \<Rightarrow> (Inl e, s') | (Inr x, s') \<Rightarrow> k x s')"

definition return :: "'a \<Rightarrow> ('s, 'e, 'a) action" where
  "return x = (\<lambda>s. (Inr x, s))"

definition throw :: "'e \<Rightarrow> ('s, 'e, 'a) action" where
  "throw e = (\<lambda>s. (Inl e, s))"

definition lift :: "'e + 'a \<Rightarrow> ('s, 'e, 'a) action" where
  "lift r = (\<lambda>s. (r, s))"

definition ask :: "('s \<Rightarrow> 'a) \<Rightarrow> ('s, 'e, 'a) action" where
  "ask f = (\<lambda>s. (Inr (f s), s))"

definition change :: "('s \<Rightarrow> 's) \<Rightarrow> ('s, 'e, unit) action" where
  "change f = (\<lambda>s. (Inr (), f s))"

fun for_each :: "'a list \<Rightarrow> ('a \<Rightarrow> ('s, 'e, unit) action) \<Rightarrow> ('s, 'e, unit) action" where
  "for_each [] f = return ()"
| "for_each (x # xs) f = seq (f x) (\<lambda>_. for_each xs f)"

fun collect :: "('a \<Rightarrow> 'e + 'b) \<Rightarrow> 'a list \<Rightarrow> 'e + 'b list" where
  "collect f [] = Inr []"
| "collect f (x # xs) =
     (case f x of Inl e \<Rightarrow> Inl e
      | Inr y \<Rightarrow> (case collect f xs of Inl e \<Rightarrow> Inl e | Inr ys \<Rightarrow> Inr (y # ys)))"

section \<open>Integers\<close>

definition i64_min :: int where
  "i64_min = - (2 ^ 63)"

definition i64_max :: int where
  "i64_max = 2 ^ 63 - 1"

definition sat_i64 :: "int \<Rightarrow> int" where
  "sat_i64 x = (if x < i64_min then i64_min else if x > i64_max then i64_max else x)"

definition i64_add :: "int \<Rightarrow> int \<Rightarrow> int" where
  "i64_add x y = sat_i64 (x + y)"

definition i64_sub :: "int \<Rightarrow> int \<Rightarrow> int" where
  "i64_sub x y = sat_i64 (x - y)"

definition i64_mul :: "int \<Rightarrow> int \<Rightarrow> int" where
  "i64_mul x y = sat_i64 (x * y)"

definition tdiv :: "int \<Rightarrow> int \<Rightarrow> int" where
  "tdiv x y = sgn x * sgn y * (\<bar>x\<bar> div \<bar>y\<bar>)"

definition u32_max :: nat where
  "u32_max = 2 ^ 32 - 1"

definition u32_saturating_add :: "nat \<Rightarrow> nat \<Rightarrow> nat" where
  "u32_saturating_add x y = min u32_max (x + y)"

definition u64_max :: nat where
  "u64_max = 2 ^ 64 - 1"

definition u64_saturating_add :: "nat \<Rightarrow> nat \<Rightarrow> nat" where
  "u64_saturating_add x y = min u64_max (x + y)"

definition is_i64 :: "int \<Rightarrow> bool" where
  "is_i64 x \<longleftrightarrow> i64_min \<le> x \<and> x \<le> i64_max"

section \<open>Strings\<close>

definition byte_of :: "char \<Rightarrow> nat" where
  "byte_of c = of_char c"

definition ws1 :: "char \<Rightarrow> bool" where
  "ws1 c \<longleftrightarrow> (9 \<le> byte_of c \<and> byte_of c \<le> 13) \<or> byte_of c = 32"

definition ws2 :: "char \<Rightarrow> char \<Rightarrow> bool" where
  "ws2 c d \<longleftrightarrow> byte_of c = 0xC2 \<and> (byte_of d = 0x85 \<or> byte_of d = 0xA0)"

definition ws3 :: "char \<Rightarrow> char \<Rightarrow> char \<Rightarrow> bool" where
  "ws3 c d e \<longleftrightarrow>
     (byte_of c = 0xE1 \<and> byte_of d = 0x9A \<and> byte_of e = 0x80) \<or>
     (byte_of c = 0xE2 \<and> byte_of d = 0x80 \<and>
        ((0x80 \<le> byte_of e \<and> byte_of e \<le> 0x8A) \<or> byte_of e = 0xA8 \<or> byte_of e = 0xA9 \<or>
         byte_of e = 0xAF)) \<or>
     (byte_of c = 0xE2 \<and> byte_of d = 0x81 \<and> byte_of e = 0x9F) \<or>
     (byte_of c = 0xE3 \<and> byte_of d = 0x80 \<and> byte_of e = 0x80)"

fun trim_start :: "string \<Rightarrow> string" where
  "trim_start [] = []"
| "trim_start [c] = (if ws1 c then [] else [c])"
| "trim_start [c, d] =
     (if ws1 c then trim_start [d] else if ws2 c d then [] else [c, d])"
| "trim_start (c # d # e # r) =
     (if ws1 c then trim_start (d # e # r)
      else if ws2 c d then trim_start (e # r)
      else if ws3 c d e then trim_start r
      else c # d # e # r)"

fun trim_rev :: "string \<Rightarrow> string" where
  "trim_rev [] = []"
| "trim_rev [c] = (if ws1 c then [] else [c])"
| "trim_rev [c, d] =
     (if ws1 c then trim_rev [d] else if ws2 d c then [] else [c, d])"
| "trim_rev (c # d # e # r) =
     (if ws1 c then trim_rev (d # e # r)
      else if ws2 d c then trim_rev (e # r)
      else if ws3 e d c then trim_rev r
      else c # d # e # r)"

definition trim_end :: "string \<Rightarrow> string" where
  "trim_end s = rev (trim_rev (rev s))"

definition trim :: "string \<Rightarrow> string" where
  "trim s = trim_end (trim_start s)"

definition is_blank :: "string \<Rightarrow> bool" where
  "is_blank s \<longleftrightarrow> trim s = []"

definition is_continuation :: "char \<Rightarrow> bool" where
  "is_continuation c \<longleftrightarrow> 0x80 \<le> byte_of c \<and> byte_of c < 0xC0"

definition chars_count :: "string \<Rightarrow> nat" where
  "chars_count s = length (filter (\<lambda>c. \<not> is_continuation c) s)"

definition is_ascii_digit :: "char \<Rightarrow> bool" where
  "is_ascii_digit c \<longleftrightarrow> 48 \<le> byte_of c \<and> byte_of c \<le> 57"

definition is_ascii_whitespace :: "char \<Rightarrow> bool" where
  "is_ascii_whitespace c \<longleftrightarrow>
     byte_of c = 9 \<or> byte_of c = 10 \<or> byte_of c = 12 \<or> byte_of c = 13 \<or> byte_of c = 32"

definition ascii_upper :: "char \<Rightarrow> char" where
  "ascii_upper c = (if 97 \<le> byte_of c \<and> byte_of c \<le> 122 then char_of (byte_of c - 32) else c)"

definition to_ascii_uppercase :: "string \<Rightarrow> string" where
  "to_ascii_uppercase s = map ascii_upper s"

text \<open>Substring search, Rust's \<open>str::contains\<close>.\<close>

fun contains_text :: "string \<Rightarrow> string \<Rightarrow> bool" where
  "contains_text pattern [] \<longleftrightarrow> pattern = []"
| "contains_text pattern (c # s) \<longleftrightarrow> take (length pattern) (c # s) = pattern \<or> contains_text pattern s"

section \<open>Tables and lists\<close>

definition upsert :: "('a \<Rightarrow> 'k) \<Rightarrow> 'a \<Rightarrow> 'a list \<Rightarrow> 'a list" where
  "upsert key row rows =
     (if key row \<in> key ` set rows
      then map (\<lambda>r. if key r = key row then row else r) rows
      else rows @ [row])"

definition lookup :: "('a \<Rightarrow> 'k) \<Rightarrow> 'k \<Rightarrow> 'a list \<Rightarrow> 'a option" where
  "lookup key k rows = find (\<lambda>r. key r = k) rows"

definition delete_key :: "('a \<Rightarrow> 'k) \<Rightarrow> 'k \<Rightarrow> 'a list \<Rightarrow> 'a list" where
  "delete_key key k rows = filter (\<lambda>r. key r \<noteq> k) rows"

fun position :: "('a \<Rightarrow> bool) \<Rightarrow> 'a list \<Rightarrow> nat option" where
  "position P [] = None"
| "position P (x # xs) =
     (if P x then Some 0 else (case position P xs of None \<Rightarrow> None | Some i \<Rightarrow> Some (Suc i)))"

fun find_map :: "('a \<Rightarrow> 'b option) \<Rightarrow> 'a list \<Rightarrow> 'b option" where
  "find_map f [] = None"
| "find_map f (x # xs) = (case f x of None \<Rightarrow> find_map f xs | Some y \<Rightarrow> Some y)"

section \<open>Hash maps\<close>

definition hm_get :: "'k \<Rightarrow> ('k \<times> 'v) list \<Rightarrow> 'v option" where
  "hm_get k m = map_of m k"

definition hm_contains :: "'k \<Rightarrow> ('k \<times> 'v) list \<Rightarrow> bool" where
  "hm_contains k m \<longleftrightarrow> hm_get k m \<noteq> None"

definition hm_insert :: "'k \<Rightarrow> 'v \<Rightarrow> ('k \<times> 'v) list \<Rightarrow> ('k \<times> 'v) list" where
  "hm_insert k v m = AList.update k v m"

definition hm_remove :: "'k \<Rightarrow> ('k \<times> 'v) list \<Rightarrow> ('k \<times> 'v) list" where
  "hm_remove k m = filter (\<lambda>(k', v). k' \<noteq> k) m"

definition hm_modify :: "'k \<Rightarrow> ('v \<Rightarrow> 'v) \<Rightarrow> ('k \<times> 'v) list \<Rightarrow> ('k \<times> 'v) list" where
  "hm_modify k f m = map (\<lambda>(k', v). (k', if k' = k then f v else v)) m"

section \<open>Transition systems\<close>

inductive reachable :: "('s \<Rightarrow> bool) \<Rightarrow> ('s \<Rightarrow> 's \<Rightarrow> bool) \<Rightarrow> 's \<Rightarrow> bool"
  for init :: "'s \<Rightarrow> bool" and step :: "'s \<Rightarrow> 's \<Rightarrow> bool" where
  reach_init: "init s \<Longrightarrow> reachable init step s"
| reach_step: "reachable init step s \<Longrightarrow> step s s' \<Longrightarrow> reachable init step s'"

section \<open>Lemmas on results and state\<close>

lemma and_then_simps [simp]:
  "and_then (Inl e) f = Inl e"
  "and_then (Inr x) f = f x"
  by (simp_all add: and_then_def)

lemma and_then_ok_iff: "and_then r f = Inr y \<longleftrightarrow> (\<exists>x. r = Inr x \<and> f x = Inr y)"
  by (cases r) auto

lemma ok_or_simps [simp]:
  "ok_or None e = Inl e"
  "ok_or (Some x) e = Inr x"
  by (simp_all add: ok_or_def)

lemma is_ok_iff: "is_ok r \<longleftrightarrow> (\<exists>x. r = Inr x)"
  by (cases r) auto

lemma seq_ok: "m s = (Inr x, s') \<Longrightarrow> seq m k s = k x s'"
  by (simp add: seq_def)

lemma seq_err: "m s = (Inl e, s') \<Longrightarrow> seq m k s = (Inl e, s')"
  by (simp add: seq_def)

lemma seq_return [simp]: "seq (return x) k s = k x s"
  by (simp add: seq_def return_def)

lemma seq_throw [simp]: "seq (throw e) k s = (Inl e, s)"
  by (simp add: seq_def throw_def)

lemma seq_ask [simp]: "seq (ask f) k s = k (f s) s"
  by (simp add: seq_def ask_def)

lemma seq_change [simp]: "seq (change g) k s = k () (g s)"
  by (simp add: seq_def change_def)

lemma seq_lift_Ok [simp]: "seq (lift (Inr x)) k s = k x s"
  by (simp add: seq_def lift_def)

lemma seq_lift_Err [simp]: "seq (lift (Inl e)) k s = (Inl e, s)"
  by (simp add: seq_def lift_def)

lemma seq_assoc: "seq (seq m k) h = seq m (\<lambda>x. seq (k x) h)"
  by (rule ext) (simp add: seq_def split: prod.splits sum.splits)

lemma seq_okE:
  assumes "seq m k s = (Inr y, s2)"
  obtains x s1 where "m s = (Inr x, s1)" "k x s1 = (Inr y, s2)"
  using assms by (auto simp: seq_def split: prod.splits sum.splits)

lemma action_simps [simp]:
  "return x s = (Inr x, s)"
  "throw e s = (Inl e, s)"
  "ask f s = (Inr (f s), s)"
  "change g s = (Inr (), g s)"
  "lift r s = (r, s)"
  by (simp_all add: return_def throw_def ask_def change_def lift_def)

lemma collect_ok_iff: "collect f xs = Inr ys \<longleftrightarrow> list_all2 (\<lambda>x y. f x = Inr y) xs ys"
proof (induction xs arbitrary: ys)
  case Nil
  then show ?case by auto
next
  case (Cons x xs)
  show ?case
    by (cases ys; cases "f x"; cases "collect f xs") (auto simp: Cons.IH [symmetric])
qed

section \<open>Lemmas on integers\<close>

lemmas i64_defs = i64_min_def i64_max_def sat_i64_def i64_add_def i64_sub_def i64_mul_def

lemma sat_i64_range [simp]: "is_i64 (sat_i64 x)"
  by (simp add: is_i64_def i64_defs)

lemma sat_i64_id [simp]: "is_i64 x \<Longrightarrow> sat_i64 x = x"
  by (simp add: is_i64_def sat_i64_def)

lemma sat_i64_mono: "x \<le> y \<Longrightarrow> sat_i64 x \<le> sat_i64 y"
  by (simp add: i64_defs)

lemma u32_saturating_add_le [simp]: "u32_saturating_add x y \<le> u32_max"
  by (simp add: u32_saturating_add_def)

lemma u32_saturating_add_mono: "x \<le> u32_max \<Longrightarrow> x \<le> u32_saturating_add x y"
  by (simp add: u32_saturating_add_def)

section \<open>Lemmas on tables\<close>

lemma lookup_Nil [table_simps]: "lookup key k [] = None"
  by (simp add: lookup_def)

lemma lookup_Cons [table_simps]:
  "lookup key k (r # rows) = (if key r = k then Some r else lookup key k rows)"
  by (simp add: lookup_def)

lemma lookup_key: "lookup key k rows = Some r \<Longrightarrow> key r = k"
  by (induction rows) (auto simp: table_simps split: if_splits)

lemma lookup_in: "lookup key k rows = Some r \<Longrightarrow> r \<in> set rows"
  by (induction rows) (auto simp: table_simps split: if_splits)

lemma lookup_None_iff: "lookup key k rows = None \<longleftrightarrow> k \<notin> key ` set rows"
  by (induction rows) (auto simp: table_simps)

lemma lookup_append [table_simps]:
  "lookup key k (xs @ ys) = (case lookup key k xs of None \<Rightarrow> lookup key k ys | Some r \<Rightarrow> Some r)"
  by (induction xs) (auto simp: table_simps)

lemma lookup_map_replace:
  "lookup key k (map (\<lambda>r. if key r = key row then row else r) rows) =
     (if k = key row \<and> k \<in> key ` set rows then Some row else lookup key k rows)"
  by (induction rows) (auto simp: table_simps)

lemma lookup_upsert [table_simps]:
  "lookup key k (upsert key row rows) = (if k = key row then Some row else lookup key k rows)"
proof (cases "key row \<in> key ` set rows")
  case True
  then show ?thesis by (simp add: upsert_def lookup_map_replace)
next
  case False
  then have "lookup key (key row) rows = None" by (simp add: lookup_None_iff)
  with False show ?thesis by (auto simp: upsert_def table_simps split: option.splits)
qed

lemma lookup_delete_key [table_simps]:
  "lookup key k (delete_key key j rows) = (if k = j then None else lookup key k rows)"
  by (induction rows) (auto simp: delete_key_def table_simps)

lemma distinct_upsert [simp]:
  "distinct (map key rows) \<Longrightarrow> distinct (map key (upsert key row rows))"
proof -
  assume d: "distinct (map key rows)"
  have "map key (map (\<lambda>r. if key r = key row then row else r) rows) = map key rows"
    by simp
  with d show ?thesis unfolding upsert_def by (auto simp del: map_map)
qed

lemma distinct_delete_key [simp]:
  "distinct (map key rows) \<Longrightarrow> distinct (map key (delete_key key k rows))"
  by (simp add: delete_key_def distinct_map_filter)

lemma set_upsert_subset: "set (upsert key row rows) \<subseteq> insert row (set rows)"
  by (auto simp: upsert_def)

lemma lookup_Some_iff:
  "distinct (map key rows) \<Longrightarrow> lookup key k rows = Some r \<longleftrightarrow> r \<in> set rows \<and> key r = k"
  by (induction rows) (auto simp: table_simps rev_image_eqI)

lemma find_map_None_iff: "find_map f xs = None \<longleftrightarrow> (\<forall>x \<in> set xs. f x = None)"
  by (induction xs) (auto split: option.splits)

lemma position_Some:
  "position P xs = Some i \<Longrightarrow> i < length xs \<and> P (xs ! i) \<and> (\<forall>j<i. \<not> P (xs ! j))"
proof (induction xs arbitrary: i)
  case (Cons x xs)
  show ?case
  proof (cases "P x")
    case False
    with Cons.prems obtain i' where "position P xs = Some i'" "i = Suc i'"
      by (auto split: option.splits)
    with Cons.IH False show ?thesis
      by (auto simp: nth_Cons split: nat.splits)
  qed (use Cons.prems in auto)
qed simp

lemma position_None_iff: "position P xs = None \<longleftrightarrow> (\<forall>x \<in> set xs. \<not> P x)"
  by (induction xs) (auto split: option.splits)

section \<open>Lemmas on strings\<close>

text \<open>Whether a string starts (or, reversed, ends) with a white space character.\<close>

fun starts_ws :: "string \<Rightarrow> bool" where
  "starts_ws [] = False"
| "starts_ws [c] = ws1 c"
| "starts_ws [c, d] = (ws1 c \<or> ws2 c d)"
| "starts_ws (c # d # e # r) = (ws1 c \<or> ws2 c d \<or> ws3 c d e)"

lemma trim_start_not_ws: "\<not> starts_ws (trim_start s)"
  by (induction s rule: trim_start.induct) auto

lemma trim_start_id: "\<not> starts_ws s \<Longrightarrow> trim_start s = s"
  by (cases s rule: trim_start.cases) auto

lemma starts_ws_prefix: "starts_ws p \<Longrightarrow> starts_ws (p @ q)"
  by (cases p rule: starts_ws.cases; cases q rule: starts_ws.cases) auto

lemma trim_rev_suffix: "\<exists>p. s = p @ trim_rev s"
proof (induction s rule: trim_rev.induct)
  case (4 c d e r)
  then show ?case
    by (auto intro: exI [of _ "[]"]) (metis append_Cons)+
qed auto

lemma trim_rev_idem: "trim_rev (trim_rev s) = trim_rev s"
  by (induction s rule: trim_rev.induct) auto

lemma trim_idem [simp]: "trim (trim s) = trim s"
proof -
  obtain p where "rev (trim_start s) = p @ trim_rev (rev (trim_start s))"
    using trim_rev_suffix by blast
  then have "trim_start s = trim_end (trim_start s) @ rev p"
    unfolding trim_end_def by (metis rev_append rev_rev_ident)
  then have "\<not> starts_ws (trim_end (trim_start s))"
    using starts_ws_prefix [of "trim_end (trim_start s)" "rev p"] trim_start_not_ws [of s] by auto
  then show ?thesis
    by (simp add: trim_def trim_start_id) (simp add: trim_end_def trim_rev_idem)
qed

section \<open>Lemmas on hash maps\<close>

lemma hm_get_insert [simp]: "hm_get k (hm_insert j v m) = (if k = j then Some v else hm_get k m)"
  by (simp add: hm_get_def hm_insert_def update_conv')

lemma hm_get_remove [simp]: "hm_get k (hm_remove j m) = (if k = j then None else hm_get k m)"
  by (induction m) (auto simp: hm_get_def hm_remove_def)

lemma hm_get_modify [simp]:
  "hm_get k (hm_modify j f m) = (if k = j then map_option f (hm_get k m) else hm_get k m)"
  by (induction m) (auto simp: hm_get_def hm_modify_def)

lemma hm_keys_modify [simp]: "map fst (hm_modify j f m) = map fst m"
  by (simp add: hm_modify_def case_prod_beta comp_def)

lemma hm_length_modify [simp]: "length (hm_modify j f m) = length m"
  by (simp add: hm_modify_def)

lemma hm_set_modify:
  "(k, v) \<in> set (hm_modify j f m) \<longleftrightarrow> (\<exists>v0. (k, v0) \<in> set m \<and> v = (if k = j then f v0 else v0))"
  by (auto simp: hm_modify_def) force+

lemma hm_distinct_insert [simp]: "distinct (map fst m) \<Longrightarrow> distinct (map fst (hm_insert k v m))"
  by (simp add: hm_insert_def distinct_update)

lemma hm_distinct_remove [simp]: "distinct (map fst m) \<Longrightarrow> distinct (map fst (hm_remove k m))"
  by (simp add: hm_remove_def distinct_map_filter case_prod_beta)

lemma hm_length_remove [simp]: "length (hm_remove k m) \<le> length m"
  by (simp add: hm_remove_def)

lemma hm_get_None_iff: "hm_get k m = None \<longleftrightarrow> k \<notin> fst ` set m"
  by (simp add: hm_get_def map_of_eq_None_iff)

lemma hm_get_in: "hm_get k m = Some v \<Longrightarrow> (k, v) \<in> set m"
  by (simp add: hm_get_def map_of_SomeD)

lemma hm_get_iff: "distinct (map fst m) \<Longrightarrow> hm_get k m = Some v \<longleftrightarrow> (k, v) \<in> set m"
  by (simp add: hm_get_def map_of_eq_Some_iff)

lemma hm_remove_fresh: "hm_get k m = None \<Longrightarrow> hm_remove k m = m"
  by (induction m) (auto simp: hm_get_def hm_remove_def split: if_splits)

lemma hm_insert_fresh: "hm_get k m = None \<Longrightarrow> hm_insert k v m = m @ [(k, v)]"
  by (induction m) (auto simp: hm_get_def hm_insert_def split: if_splits)

lemma hm_length_insert: "length (hm_insert k v m) \<le> Suc (length m)"
  by (induction m) (auto simp: hm_insert_def)

lemma hm_set_insert: "set (hm_insert k v m) \<subseteq> insert (k, v) (set m)"
  by (induction m) (auto simp: hm_insert_def)

text \<open>Splitting off one entry of a map.\<close>

lemma hm_split:
  assumes "distinct (map fst m)" and "hm_get k m = Some v"
  obtains xs ys where "m = xs @ (k, v) # ys" and "hm_remove k m = xs @ ys"
proof -
  from assms(2) obtain xs ys where m: "m = xs @ (k, v) # ys"
    using hm_get_in [THEN split_list] by metis
  have "k \<notin> fst ` set xs" "k \<notin> fst ` set ys" using assms(1) by (auto simp: m)
  then have "hm_remove k xs = xs" "hm_remove k ys = ys"
    by (auto intro!: hm_remove_fresh simp: hm_get_None_iff)
  then have "hm_remove k m = xs @ ys" by (simp add: m hm_remove_def)
  with m that show thesis by blast
qed

lemma hm_set_remove: "set (hm_remove k m) \<subseteq> set m"
  by (auto simp: hm_remove_def)

lemma hm_remove_append:
  "hm_remove k (xs @ ys) = hm_remove k xs @ hm_remove k ys"
  "hm_remove k ((j, v) # ys) = (if j = k then hm_remove k ys else (j, v) # hm_remove k ys)"
  by (simp_all add: hm_remove_def)

lemma hm_set_keys_modify [simp]: "fst ` set (hm_modify k f m) = fst ` set m"
  by (metis hm_keys_modify list.set_map)

lemma hm_remove_modify: "hm_remove k (hm_modify j f m) = hm_modify j f (hm_remove k m)"
  by (induction m) (auto simp: hm_remove_def hm_modify_def)

lemma hm_remove_filter: "hm_remove k m = filter (\<lambda>x. \<not> (case x of (k', v) \<Rightarrow> k' = k)) m"
  by (auto simp: hm_remove_def intro: filter_cong)

lemma hm_filter_key:
  "distinct (map fst m) \<Longrightarrow> hm_get k m = Some v \<Longrightarrow> filter (\<lambda>x. case x of (k', v) \<Rightarrow> k' = k) m = [(k, v)]"
proof -
  assume a: "distinct (map fst m)" "hm_get k m = Some v"
  obtain xs ys where m: "m = xs @ (k, v) # ys" using hm_split [OF a] by blast
  have "k \<notin> fst ` set xs" "k \<notin> fst ` set ys" using a(1) by (auto simp: m)
  then have "filter (\<lambda>x. case x of (k', v) \<Rightarrow> k' = k) xs = []" "filter (\<lambda>x. case x of (k', v) \<Rightarrow> k' = k) ys = []"
    by (force simp: filter_empty_conv)+
  then show ?thesis by (simp add: m)
qed

section \<open>Keyed tables\<close>

text \<open>The contract of a table with a key column: a row is found under its key, and a write is read
  back under its key and leaves the other keys alone.\<close>

locale keyed_table =
  fixes get :: "'k \<Rightarrow> 's \<Rightarrow> 'v option"
    and put :: "'v \<Rightarrow> 's \<Rightarrow> 's"
    and key :: "'v \<Rightarrow> 'k"
  assumes get_key: "get k s = Some v \<Longrightarrow> key v = k"
    and get_put: "get k (put v s) = (if k = key v then Some v else get k s)"
begin

lemma get_put_same: "get (key v) (put v s) = Some v"
  by (simp add: get_put)

lemma get_put_other: "k \<noteq> key v \<Longrightarrow> get k (put v s) = get k s"
  by (simp add: get_put)

lemma get_put_put: "key v = key w \<Longrightarrow> get k (put v (put w s)) = get k (put v s)"
  by (simp add: get_put)

end

section \<open>Invariants of transition systems\<close>

locale invariant_system =
  fixes init :: "'s \<Rightarrow> bool" and step :: "'s \<Rightarrow> 's \<Rightarrow> bool" and inv_of :: "'s \<Rightarrow> bool"
  assumes init_inv: "init s \<Longrightarrow> inv_of s"
    and step_inv: "inv_of s \<Longrightarrow> step s s' \<Longrightarrow> inv_of s'"
begin

lemma reachable_inv: "reachable init step s \<Longrightarrow> inv_of s"
  by (induction rule: reachable.induct) (auto intro: init_inv step_inv)

end

end
