(* ===== verification/Domain_Model.thy ===== *)
theory Domain_Model
  imports Torca_Prelude
begin

text \<open>
  The vocabulary of the client: the enumerations of \<open>torchat-domain\<close> with their predicates, the
  records of \<open>torchat-runtime/src/models.rs\<close>, the error type of \<open>error.rs\<close> with its public problem
  projection, the text codecs of the stored states, and the message transition rules of
  \<open>message_rules.rs\<close>.
\<close>

section \<open>Enumerations of torchat-domain\<close>

datatype pairing_action = ActAccept | ActReject | ActComplete | ActExpire | ActArchive | ActCancel

datatype invite_state =
  Pending | Accepted | Rejected | Completed | Expired | Archived | Cancelled

definition is_pending :: "invite_state \<Rightarrow> bool" where
  "is_pending s \<longleftrightarrow> s = Pending"

definition is_accepted :: "invite_state \<Rightarrow> bool" where
  "is_accepted s \<longleftrightarrow> s = Accepted"

definition is_outstanding :: "invite_state \<Rightarrow> bool" where
  "is_outstanding s \<longleftrightarrow> is_pending s \<or> is_accepted s"

definition can_archive :: "invite_state \<Rightarrow> bool" where
  "can_archive s \<longleftrightarrow> s \<in> {Accepted, Rejected, Completed, Expired, Cancelled}"

definition is_archived :: "invite_state \<Rightarrow> bool" where
  "is_archived s \<longleftrightarrow> s = Archived"

definition is_terminal :: "invite_state \<Rightarrow> bool" where
  "is_terminal s \<longleftrightarrow> \<not> is_outstanding s"

datatype pairing_available_action = AvAccept | AvReject | AvArchive | AvCancel

datatype pairing_relationship_state =
  Candidate | AwaitingLocalApproval | AwaitingRemoteApproval | Finalizing | RelActive | RelTerminal

datatype pairing_send_kind = Offer | Rejection

datatype pairing_peer_outcome = OfferReceived | RejectionReceived | WelcomePrepared

datatype verification_state = Verified | Unverified

datatype peer_endpoint_status = EpMissing | EpPendingExchange | EpVerified | EpInvalid

datatype capability_status = CapMissing | CapPending | CapActive | CapRotating | CapRevoked | CapExpired

datatype peer_connection_status =
  PcOffline | PcConnecting | PcAuthenticating | PcConnected | PcBackoff

datatype contact_transport_policy = PeerOnly

datatype conversation_state = ConvPending | ConvVerifying | ConvActive | ConvOffline | ConvFailed

definition can_send :: "conversation_state \<Rightarrow> bool" where
  "can_send s \<longleftrightarrow> s \<in> {ConvActive, ConvOffline}"

fun conversation_as_str :: "conversation_state \<Rightarrow> string" where
  "conversation_as_str ConvPending = ''PENDING''"
| "conversation_as_str ConvVerifying = ''VERIFYING''"
| "conversation_as_str ConvActive = ''ACTIVE''"
| "conversation_as_str ConvOffline = ''OFFLINE''"
| "conversation_as_str ConvFailed = ''FAILED''"

definition conversation_try_from :: "string \<Rightarrow> string + conversation_state" where
  "conversation_try_from value =
     (let v = to_ascii_uppercase (trim value) in
      if v = ''PENDING'' then Ok ConvPending
      else if v = ''VERIFYING'' then Ok ConvVerifying
      else if v = ''ACTIVE'' then Ok ConvActive
      else if v = ''OFFLINE'' then Ok ConvOffline
      else if v = ''FAILED'' then Ok ConvFailed
      else Err (''unknown conversation state: '' @ v))"

datatype message_state = Queued | Sending | Sent | Delivered | ReadByPeer | Failed

definition message_is_delivered :: "message_state \<Rightarrow> bool" where
  "message_is_delivered s \<longleftrightarrow> s \<in> {Delivered, ReadByPeer}"

definition message_is_terminal :: "message_state \<Rightarrow> bool" where
  "message_is_terminal s \<longleftrightarrow> s \<in> {Delivered, ReadByPeer, Failed}"

fun message_as_str :: "message_state \<Rightarrow> string" where
  "message_as_str Queued = ''QUEUED''"
| "message_as_str Sending = ''SENDING''"
| "message_as_str Sent = ''SENT''"
| "message_as_str Delivered = ''DELIVERED''"
| "message_as_str ReadByPeer = ''READ''"
| "message_as_str Failed = ''FAILED''"

datatype message_transport_outcome =
  OutcomeDelivered | PeerPersisted | PeerDelivered | PeerUnavailable | PeerAuthenticationFailed
| PeerRejected | RetryableFailure | OutcomePermanentFailure

definition pairing_available_actions :: "invite_state \<Rightarrow> bool \<Rightarrow> pairing_available_action list" where
  "pairing_available_actions st received =
     (if st = Archived then []
      else if received \<and> st = Pending then [AvAccept, AvReject]
      else if \<not> received \<and> st \<in> {Pending, Accepted} then [AvCancel]
      else if can_archive st then [AvArchive]
      else [])"

section \<open>Errors\<close>

datatype runtime_error =
  InvalidCommand string | InvalidParams string | NotFound string | Conflict string
| Timeout string | Transport string | Storage string | Crypto string | Unavailable string

datatype runtime_error_code =
  CodeInvalidInput | CodeNotFound | CodeConflict | CodeTemporarilyUnavailable
| CodeTransportUnavailable | CodeStorageFailed | CodeCryptoFailed | CodeUnsupported | CodeInternal

datatype runtime_error_category =
  CatValidation | CatDomain | CatTransport | CatPersistence | CatSecurity | CatAvailability
| CatInternal

record runtime_problem =
  pr_code :: runtime_error_code
  pr_category :: runtime_error_category
  pr_retryable :: bool
  pr_operation_id :: "string option"
  pr_entity_id :: "string option"
  pr_diagnostic_context :: "string option"

fun technical_message :: "runtime_error \<Rightarrow> string" where
  "technical_message (InvalidCommand m) = m"
| "technical_message (InvalidParams m) = m"
| "technical_message (NotFound m) = m"
| "technical_message (Conflict m) = m"
| "technical_message (Timeout m) = m"
| "technical_message (Transport m) = m"
| "technical_message (Storage m) = m"
| "technical_message (Crypto m) = m"
| "technical_message (Unavailable m) = m"

fun classify_error :: "runtime_error \<Rightarrow> runtime_error_code \<times> runtime_error_category \<times> bool" where
  "classify_error (InvalidCommand _) = (CodeInvalidInput, CatValidation, False)"
| "classify_error (InvalidParams _) = (CodeInvalidInput, CatValidation, False)"
| "classify_error (NotFound _) = (CodeNotFound, CatDomain, False)"
| "classify_error (Conflict _) = (CodeConflict, CatDomain, False)"
| "classify_error (Timeout _) = (CodeTemporarilyUnavailable, CatAvailability, True)"
| "classify_error (Transport _) = (CodeTransportUnavailable, CatTransport, True)"
| "classify_error (Storage _) = (CodeStorageFailed, CatPersistence, False)"
| "classify_error (Crypto _) = (CodeCryptoFailed, CatSecurity, False)"
| "classify_error (Unavailable _) = (CodeTemporarilyUnavailable, CatAvailability, True)"

definition problem_from_error :: "runtime_error \<Rightarrow> runtime_problem" where
  "problem_from_error error =
     (case classify_error error of (code, category, retryable) \<Rightarrow>
      \<lparr> pr_code = code, pr_category = category, pr_retryable = retryable,
        pr_operation_id = None, pr_entity_id = None,
        pr_diagnostic_context = Some (technical_message error) \<rparr>)"

definition without_diagnostics :: "runtime_problem \<Rightarrow> runtime_problem" where
  "without_diagnostics p = p\<lparr> pr_diagnostic_context := None \<rparr>"

type_synonym 'a runtime_result = "runtime_error + 'a"

section \<open>Records of models.rs\<close>

record runtime_identity =
  id_installation_id :: string
  id_public_key :: string
  id_fingerprint :: string

record runtime_profile =
  prof_installation_id :: string
  prof_nickname :: string
  prof_public_key :: string
  prof_fingerprint :: string

definition profile_from_identity :: "runtime_identity \<Rightarrow> string \<Rightarrow> runtime_profile" where
  "profile_from_identity i nickname =
     \<lparr> prof_installation_id = id_installation_id i, prof_nickname = nickname,
       prof_public_key = id_public_key i, prof_fingerprint = id_fingerprint i \<rparr>"

record contact_record =
  ct_installation_id :: string
  ct_nickname :: string
  ct_public_key :: string
  ct_fingerprint :: string
  ct_local_alias :: "string option"
  ct_muted :: bool
  ct_blocked :: bool
  ct_verification :: verification_state
  ct_peer_endpoint_status :: peer_endpoint_status
  ct_peer_connection_status :: peer_connection_status
  ct_transport_policy :: contact_transport_policy
  ct_last_peer_connected_at :: "int option"
  ct_last_seen_at :: "int option"
  ct_dev :: "string option"

record conversation_summary =
  cv_id :: string
  cv_contact_installation_id :: string
  cv_status :: conversation_state
  cv_last_message_preview :: string
  cv_last_message_at :: int
  cv_unread_count :: "32 word"

record message_reply =
  rp_message_id :: string
  rp_body :: string
  rp_outgoing :: bool

record chat_message =
  m_id :: string
  m_conversation_id :: string
  m_outgoing :: bool
  m_body :: string
  m_reply_to :: "message_reply option"
  m_state :: message_state
  m_created_at :: int
  m_attempt_count :: nat
  m_last_attempt_at :: "int option"
  m_next_attempt_at :: int
  m_ack_deadline :: "int option"
  m_last_transport_error :: "string option"

record message_send_effect =
  mse_message_id :: string
  mse_conversation_id :: string
  mse_recipient_installation_id :: string
  mse_body :: string
  mse_reply_to :: "message_reply option"

record receipt_send_effect =
  rse_envelope_id :: string
  rse_message_id :: string
  rse_conversation_id :: string
  rse_recipient_installation_id :: string
  rse_received_at :: int

record invite_code =
  ic_code :: string
  ic_expires_at :: int

record pairing_item =
  pi_pairing_id :: string
  pi_pair_key :: "string option"
  pi_sender :: "contact_record option"
  pi_capability :: "string option"
  pi_expires_at :: int
  pi_state :: invite_state
  pi_received :: bool
  pi_available_actions :: "pairing_available_action list"
  pi_offer_invite_id :: "string option"
  pi_offer_payload :: "string option"

definition relationship_state :: "pairing_item \<Rightarrow> pairing_relationship_state" where
  "relationship_state item =
     (case pi_state item of
        Pending \<Rightarrow> if pi_received item then AwaitingLocalApproval else AwaitingRemoteApproval
      | Accepted \<Rightarrow> Finalizing
      | Completed \<Rightarrow> RelActive
      | Rejected \<Rightarrow> RelTerminal
      | Expired \<Rightarrow> RelTerminal
      | Archived \<Rightarrow> RelTerminal
      | Cancelled \<Rightarrow> RelTerminal)"

record pairing_preparation =
  pp_pairing_id :: string
  pp_recipient_installation_id :: string
  pp_capability :: string

record pairing_send_effect =
  pse_pairing_id :: string
  pse_recipient_installation_id :: string
  pse_kind :: pairing_send_kind
  pse_payload :: "string option"

record pairing_cancel_effect =
  pce_pairing_id :: string

record runtime_send_effect =
  se_message :: "message_send_effect option"
  se_receipt :: "receipt_send_effect option"
  se_pairing :: "pairing_send_effect option"

text \<open>The recipient of an effect; \<open>None\<close> is the panic on an effect without payload.\<close>

definition recipient_installation_id :: "runtime_send_effect \<Rightarrow> string option" where
  "recipient_installation_id e =
     (case se_message e of Some m \<Rightarrow> Some (mse_recipient_installation_id m)
      | None \<Rightarrow> (case se_receipt e of Some r \<Rightarrow> Some (rse_recipient_installation_id r)
      | None \<Rightarrow> (case se_pairing e of Some p \<Rightarrow> Some (pse_recipient_installation_id p)
      | None \<Rightarrow> None)))"

section \<open>Text codecs of the stored states\<close>

definition codec_verification :: "string \<Rightarrow> verification_state runtime_result" where
  "codec_verification value =
     (let v = to_ascii_uppercase (trim value) in
      if v = ''VERIFIED'' then Ok Verified
      else if v = ''UNVERIFIED'' then Ok Unverified
      else Err (Storage (''unknown verification state: '' @ v)))"

definition codec_conversation :: "string \<Rightarrow> conversation_state runtime_result" where
  "codec_conversation value =
     (case conversation_try_from value of Inl e \<Rightarrow> Err (Storage e) | Inr s \<Rightarrow> Ok s)"

definition codec_message :: "string \<Rightarrow> message_state runtime_result" where
  "codec_message value =
     (let v = to_ascii_uppercase (trim value) in
      if v = ''QUEUED'' then Ok Queued
      else if v = ''SENDING'' then Ok Sending
      else if v = ''SENT'' then Ok Sent
      else if v = ''DELIVERED'' then Ok Delivered
      else if v = ''READ'' then Ok ReadByPeer
      else if v = ''FAILED'' then Ok Failed
      else Err (Storage (''unknown message state: '' @ v)))"

definition codec_invite :: "string \<Rightarrow> invite_state runtime_result" where
  "codec_invite value =
     (let v = to_ascii_uppercase (trim value) in
      if v = ''PENDING'' then Ok Pending
      else if v = ''ACCEPTED'' then Ok Accepted
      else if v = ''REJECTED'' then Ok Rejected
      else if v = ''COMPLETED'' then Ok Completed
      else if v = ''EXPIRED'' then Ok Expired
      else if v = ''ARCHIVED'' then Ok Archived
      else if v = ''CANCELLED'' then Ok Cancelled
      else Err (Storage (''unknown invite state: '' @ v)))"

fun invite_state_sql :: "invite_state \<Rightarrow> string" where
  "invite_state_sql Pending = ''PENDING''"
| "invite_state_sql Accepted = ''ACCEPTED''"
| "invite_state_sql Rejected = ''REJECTED''"
| "invite_state_sql Completed = ''COMPLETED''"
| "invite_state_sql Expired = ''EXPIRED''"
| "invite_state_sql Archived = ''ARCHIVED''"
| "invite_state_sql Cancelled = ''CANCELLED''"

section \<open>Message transition rules\<close>

fun message_state_on_send_prepare :: "message_state \<Rightarrow> message_state option" where
  "message_state_on_send_prepare Queued = Some Sending"
| "message_state_on_send_prepare Sending = Some Sending"
| "message_state_on_send_prepare Sent = None"
| "message_state_on_send_prepare Delivered = None"
| "message_state_on_send_prepare ReadByPeer = None"
| "message_state_on_send_prepare Failed = None"

definition message_state_after_transport_outcome ::
  "message_state \<Rightarrow> message_transport_outcome \<Rightarrow> message_state option" where
  "message_state_after_transport_outcome current outcome =
     (if outcome = PeerPersisted then
        (case current of Sending \<Rightarrow> Some Sent | Sent \<Rightarrow> Some Sent | Delivered \<Rightarrow> Some Delivered
         | ReadByPeer \<Rightarrow> Some ReadByPeer | Queued \<Rightarrow> None | Failed \<Rightarrow> None)
      else if outcome \<in> {OutcomeDelivered, PeerDelivered} then
        (case current of Sending \<Rightarrow> Some Delivered | Sent \<Rightarrow> Some Delivered
         | Delivered \<Rightarrow> Some Delivered | ReadByPeer \<Rightarrow> Some ReadByPeer
         | Queued \<Rightarrow> None | Failed \<Rightarrow> None)
      else if outcome \<in> {PeerUnavailable, RetryableFailure} then
        (case current of Queued \<Rightarrow> Some Queued | Sending \<Rightarrow> Some Queued | Sent \<Rightarrow> Some Queued
         | Delivered \<Rightarrow> None | ReadByPeer \<Rightarrow> None | Failed \<Rightarrow> None)
      else
        (case current of Queued \<Rightarrow> Some Failed | Sending \<Rightarrow> Some Failed | Sent \<Rightarrow> Some Failed
         | Failed \<Rightarrow> Some Failed | Delivered \<Rightarrow> None | ReadByPeer \<Rightarrow> None))"

section \<open>Properties\<close>

text \<open>The stored texts of message, invite and conversation states decode to the state they were
  written for, and a text decodes to a message or invite state exactly when it is that state's text
  up to surrounding white space and letter case.\<close>

theorem stored_states_roundtrip:
  "codec_message (message_as_str m) = Ok m \<and>
   codec_invite (invite_state_sql i) = Ok i \<and>
   codec_conversation (conversation_as_str c) = Ok c \<and>
   (codec_message t = Ok m \<longleftrightarrow> to_ascii_uppercase (trim t) = message_as_str m) \<and>
   (codec_invite t = Ok i \<longleftrightarrow> to_ascii_uppercase (trim t) = invite_state_sql i)"
proof -
  have "codec_message (message_as_str m) = Ok m" by (induction m; code_simp)
  moreover have "codec_invite (invite_state_sql i) = Ok i" by (induction i; code_simp)
  moreover have "codec_conversation (conversation_as_str c) = Ok c" by (induction c; code_simp)
  moreover have "codec_message t = Ok m \<longleftrightarrow> to_ascii_uppercase (trim t) = message_as_str m"
    by (cases m) (auto simp: codec_message_def Let_def)
  moreover have "codec_invite t = Ok i \<longleftrightarrow> to_ascii_uppercase (trim t) = invite_state_sql i"
    by (cases i) (auto simp: codec_invite_def Let_def)
  ultimately show ?thesis by simp
qed

end
