(* ===== verification/Pairing_Rules.thy ===== *)
theory Pairing_Rules
  imports Domain_Model
begin

text \<open>
  The pairing rules of \<open>torchat-runtime/src/features/pairing/rules.rs\<close>: the invitation state
  machine, expiry, and the merge of a local pairing item with the copy a peer reports. The Rust
  traits \<open>RuntimePairingStateLike\<close>, \<open>RuntimePairingUuidLike\<close>, \<open>RuntimePairingExpiryLike\<close> and
  \<open>RuntimePairingTransitionLike\<close> are the accessor functions the definitions take; the locale
  \<open>pairing_record\<close> states their contract and is interpreted on pairing items.
\<close>

section \<open>Definitions\<close>

datatype runtime_pairing_transition_error = PairingNotFound | InvalidTransition

fun transition :: "invite_state \<Rightarrow> pairing_action \<Rightarrow> invite_state option" where
  "transition Pending ActAccept = Some Accepted"
| "transition Pending ActReject = Some Rejected"
| "transition Pending ActExpire = Some Expired"
| "transition Pending ActCancel = Some Cancelled"
| "transition Accepted ActComplete = Some Completed"
| "transition Accepted ActCancel = Some Cancelled"
| "transition Accepted ActArchive = Some Archived"
| "transition Rejected ActArchive = Some Archived"
| "transition Completed ActArchive = Some Archived"
| "transition Expired ActArchive = Some Archived"
| "transition Cancelled ActArchive = Some Archived"
| "transition _ _ = None"

fun pairing_target_state :: "pairing_action \<Rightarrow> invite_state" where
  "pairing_target_state ActAccept = Accepted"
| "pairing_target_state ActReject = Rejected"
| "pairing_target_state ActComplete = Completed"
| "pairing_target_state ActExpire = Expired"
| "pairing_target_state ActArchive = Archived"
| "pairing_target_state ActCancel = Cancelled"

definition pairing_state_after_action :: "invite_state \<Rightarrow> pairing_action \<Rightarrow> invite_state option" where
  "pairing_state_after_action st action = transition st action"

definition pairing_state_on_accept :: "invite_state \<Rightarrow> invite_state option" where
  "pairing_state_on_accept st = pairing_state_after_action st ActAccept"

definition pairing_state_on_reject :: "invite_state \<Rightarrow> invite_state option" where
  "pairing_state_on_reject st = pairing_state_after_action st ActReject"

definition pairing_state_on_archive :: "invite_state \<Rightarrow> invite_state option" where
  "pairing_state_on_archive st = pairing_state_after_action st ActArchive"

definition pairing_state_on_cancel :: "invite_state \<Rightarrow> invite_state option" where
  "pairing_state_on_cancel st = pairing_state_after_action st ActCancel"

definition pairing_can_archive :: "invite_state \<Rightarrow> bool" where
  "pairing_can_archive st = can_archive st"

definition pairing_is_active :: "invite_state \<Rightarrow> bool" where
  "pairing_is_active st \<longleftrightarrow> is_pending st \<or> is_accepted st"

definition pairing_has_outstanding_request :: "('t \<Rightarrow> invite_state) \<Rightarrow> 't list \<Rightarrow> bool" where
  "pairing_has_outstanding_request state_of items \<longleftrightarrow> list_ex (\<lambda>i. pairing_is_active (state_of i)) items"

definition pairing_items_contains_id :: "('t \<Rightarrow> 'u) \<Rightarrow> 't list \<Rightarrow> 'u \<Rightarrow> bool" where
  "pairing_items_contains_id id_of items pid \<longleftrightarrow> list_ex (\<lambda>i. id_of i = pid) items"

definition pairing_items_transition_after_action ::
  "('t \<Rightarrow> 'u) \<Rightarrow> ('t \<Rightarrow> invite_state) \<Rightarrow> 't list \<Rightarrow> 'u \<Rightarrow> pairing_action \<Rightarrow> invite_state option" where
  "pairing_items_transition_after_action id_of state_of items pid action =
     find_map (\<lambda>i. if id_of i = pid then pairing_state_after_action (state_of i) action else None) items"

definition pairing_items_can_archive ::
  "('t \<Rightarrow> 'u) \<Rightarrow> ('t \<Rightarrow> invite_state) \<Rightarrow> 't list \<Rightarrow> 'u \<Rightarrow> bool" where
  "pairing_items_can_archive id_of state_of items pid \<longleftrightarrow>
     list_ex (\<lambda>i. id_of i = pid \<and> pairing_can_archive (state_of i)) items"

definition expire_pairing_state :: "invite_state \<Rightarrow> int \<Rightarrow> int \<Rightarrow> invite_state" where
  "expire_pairing_state st deadline now_secs =
     (if is_pending st \<and> deadline < now_secs then Expired else st)"

fun expire_pairing_items ::
  "('t \<Rightarrow> invite_state) \<Rightarrow> ('t \<Rightarrow> int) \<Rightarrow> (invite_state \<Rightarrow> 't \<Rightarrow> 't) \<Rightarrow> 't list \<Rightarrow> int \<Rightarrow> bool \<times> 't list" where
  "expire_pairing_items state_of expiry_of set_state [] now_secs = (False, [])"
| "expire_pairing_items state_of expiry_of set_state (i # items) now_secs =
     (let next = expire_pairing_state (state_of i) (expiry_of i) now_secs;
          (changed, rest) = expire_pairing_items state_of expiry_of set_state items now_secs
      in if next \<noteq> state_of i then (True, set_state next i # rest) else (changed, i # rest))"

fun transition_pairing_record ::
  "('t \<Rightarrow> 'u) \<Rightarrow> ('t \<Rightarrow> invite_state) \<Rightarrow> (invite_state \<Rightarrow> 't \<Rightarrow> 't) \<Rightarrow> 't list \<Rightarrow> 'u \<Rightarrow> pairing_action \<Rightarrow>
   (runtime_pairing_transition_error + bool) \<times> 't list" where
  "transition_pairing_record id_of state_of set_state [] pid action = (Err PairingNotFound, [])"
| "transition_pairing_record id_of state_of set_state (i # items) pid action =
     (if id_of i = pid then
        if state_of i = pairing_target_state action then (Ok True, i # items)
        else case pairing_state_after_action (state_of i) action of
               None \<Rightarrow> (Err InvalidTransition, i # items)
             | Some st \<Rightarrow> (Ok True, set_state st i # items)
      else case transition_pairing_record id_of state_of set_state items pid action of
             (r, rest) \<Rightarrow> (r, i # rest))"

definition normalize_pairing_item :: "pairing_item \<Rightarrow> pairing_item" where
  "normalize_pairing_item item =
     item\<lparr> pi_available_actions := pairing_available_actions (pi_state item) (pi_received item) \<rparr>"

definition normalize_pairing_items :: "pairing_item list \<Rightarrow> pairing_item list" where
  "normalize_pairing_items items = map normalize_pairing_item items"

definition merge_invite_state :: "invite_state \<Rightarrow> invite_state \<Rightarrow> invite_state" where
  "merge_invite_state local remote =
     (if local = remote then local
      else if local \<in> {Archived, Completed} then local
      else if remote \<in> {Archived, Completed} then remote
      else if local \<in> {Rejected, Cancelled, Expired, Accepted} \<and> remote = Pending then local
      else if local = Pending then remote
      else local)"

record pairing_merge =
  pm_item :: pairing_item
  pm_inserted :: bool
  pm_changed :: bool

definition or_else :: "'a option \<Rightarrow> 'a option \<Rightarrow> 'a option" where
  "or_else x y = (if x = None then y else x)"

fun merge_pairing_item :: "pairing_item option \<Rightarrow> pairing_item \<Rightarrow> pairing_merge" where
  "merge_pairing_item None remote =
     \<lparr> pm_item = normalize_pairing_item remote, pm_inserted = True, pm_changed = True \<rparr>"
| "merge_pairing_item (Some local0) remote0 =
     (let local = normalize_pairing_item local0;
          remote = normalize_pairing_item remote0;
          item = normalize_pairing_item (local
            \<lparr> pi_sender := or_else (pi_sender local) (pi_sender remote),
              pi_capability := (if pi_capability local = None \<or> pi_capability local = Some []
                                then pi_capability remote else pi_capability local),
              pi_offer_invite_id := or_else (pi_offer_invite_id local) (pi_offer_invite_id remote),
              pi_offer_payload := or_else (pi_offer_payload local) (pi_offer_payload remote),
              pi_pair_key := or_else (pi_pair_key local) (pi_pair_key remote),
              pi_expires_at := max (pi_expires_at local) (pi_expires_at remote),
              pi_received := (pi_received local \<or> pi_received remote),
              pi_state := merge_invite_state (pi_state local) (pi_state remote) \<rparr>)
      in \<lparr> pm_item = item, pm_inserted = False, pm_changed = (item \<noteq> local) \<rparr>)"

section \<open>The state machine\<close>

text \<open>A measure every transition decreases: the lifecycle of an invitation is finite.\<close>

fun lifecycle_rank :: "invite_state \<Rightarrow> nat" where
  "lifecycle_rank Pending = 3"
| "lifecycle_rank Accepted = 2"
| "lifecycle_rank Rejected = 1"
| "lifecycle_rank Completed = 1"
| "lifecycle_rank Expired = 1"
| "lifecycle_rank Cancelled = 1"
| "lifecycle_rank Archived = 0"

text \<open>The actions applied one after another, each of them accepted.\<close>

fun run_actions :: "invite_state \<Rightarrow> pairing_action list \<Rightarrow> invite_state option" where
  "run_actions st [] = Some st"
| "run_actions st (a # as) =
     (case pairing_state_after_action st a of None \<Rightarrow> None | Some st' \<Rightarrow> run_actions st' as)"

lemma transition_target: "transition st a = Some st' \<Longrightarrow> st' = pairing_target_state a"
  by (cases st; cases a) auto

lemma transition_decreases: "transition st a = Some st' \<Longrightarrow> lifecycle_rank st' < lifecycle_rank st"
  by (cases st; cases a) auto

lemma transition_terminal:
  "is_terminal st \<Longrightarrow> transition st a = Some st' \<Longrightarrow> a = ActArchive \<and> st' = Archived"
  by (cases st; cases a) (auto simp: is_terminal_def is_outstanding_def is_pending_def is_accepted_def)

lemma run_actions_bound: "run_actions st as = Some st' \<Longrightarrow> length as + lifecycle_rank st' \<le> lifecycle_rank st"
proof (induction as arbitrary: st)
  case (Cons a as)
  then obtain st1 where s1: "transition st a = Some st1" and r: "run_actions st1 as = Some st'"
    by (auto simp: pairing_state_after_action_def split: option.splits)
  from Cons.IH [OF r] transition_decreases [OF s1] show ?case by simp
qed simp

lemma available_actions_cases:
  "AvAccept \<in> set (pairing_available_actions st r) \<longleftrightarrow> r \<and> st = Pending"
  "AvReject \<in> set (pairing_available_actions st r) \<longleftrightarrow> r \<and> st = Pending"
  "AvCancel \<in> set (pairing_available_actions st r) \<longleftrightarrow> \<not> r \<and> st \<in> {Pending, Accepted}"
  "AvArchive \<in> set (pairing_available_actions st r) \<longleftrightarrow> can_archive st \<and> (r \<or> st \<noteq> Accepted)"
  by (auto simp: pairing_available_actions_def can_archive_def)

section \<open>Merging states and items\<close>

lemma merge_invite_state_idem [simp]: "merge_invite_state st st = st"
  by (simp add: merge_invite_state_def)

lemma merge_invite_state_absorb [simp]:
  "merge_invite_state (merge_invite_state local remote) remote = merge_invite_state local remote"
  by (cases local; cases remote) (simp_all add: merge_invite_state_def)

lemma merge_invite_state_rank:
  "lifecycle_rank (merge_invite_state local remote) \<le> lifecycle_rank local"
  by (cases local; cases remote) (simp_all add: merge_invite_state_def)

lemma normalize_idem [simp]: "normalize_pairing_item (normalize_pairing_item i) = normalize_pairing_item i"
  by (simp add: normalize_pairing_item_def)

lemma normalize_simps [simp]:
  "pi_pairing_id (normalize_pairing_item i) = pi_pairing_id i"
  "pi_pair_key (normalize_pairing_item i) = pi_pair_key i"
  "pi_sender (normalize_pairing_item i) = pi_sender i"
  "pi_capability (normalize_pairing_item i) = pi_capability i"
  "pi_expires_at (normalize_pairing_item i) = pi_expires_at i"
  "pi_state (normalize_pairing_item i) = pi_state i"
  "pi_received (normalize_pairing_item i) = pi_received i"
  "pi_offer_invite_id (normalize_pairing_item i) = pi_offer_invite_id i"
  "pi_offer_payload (normalize_pairing_item i) = pi_offer_payload i"
  "pi_available_actions (normalize_pairing_item i) = pairing_available_actions (pi_state i) (pi_received i)"
  by (simp_all add: normalize_pairing_item_def)

lemma or_else_simps [simp]:
  "or_else None b = b"
  "or_else (Some a) b = Some a"
  "or_else b b = b"
  "or_else (or_else c b) b = or_else c b"
  by (auto simp: or_else_def)

definition normalized :: "pairing_item \<Rightarrow> bool" where
  "normalized i \<longleftrightarrow> pi_available_actions i = pairing_available_actions (pi_state i) (pi_received i)"

lemma normalized_normalize [simp]: "normalized (normalize_pairing_item i)"
  by (simp add: normalized_def)

lemma normalize_id: "normalized i \<Longrightarrow> normalize_pairing_item i = i"
  by (simp add: normalized_def normalize_pairing_item_def)

lemma merge_item_normalized [simp]: "normalized (pm_item (merge_pairing_item local remote))"
  by (cases local) (simp_all add: Let_def)

lemma merge_item_id:
  "pi_pairing_id (pm_item (merge_pairing_item local remote)) =
     (case local of None \<Rightarrow> pi_pairing_id remote | Some l \<Rightarrow> pi_pairing_id l)"
  by (cases local) (simp_all add: Let_def)

lemma merge_item_fields [simp]:
  "pi_state (pm_item (merge_pairing_item (Some l) r)) = merge_invite_state (pi_state l) (pi_state r)"
  "pi_expires_at (pm_item (merge_pairing_item (Some l) r)) = max (pi_expires_at l) (pi_expires_at r)"
  "pi_received (pm_item (merge_pairing_item (Some l) r)) = (pi_received l \<or> pi_received r)"
  "pi_sender (pm_item (merge_pairing_item (Some l) r)) = or_else (pi_sender l) (pi_sender r)"
  "pi_pair_key (pm_item (merge_pairing_item (Some l) r)) = or_else (pi_pair_key l) (pi_pair_key r)"
  "pi_offer_invite_id (pm_item (merge_pairing_item (Some l) r)) =
     or_else (pi_offer_invite_id l) (pi_offer_invite_id r)"
  "pi_offer_payload (pm_item (merge_pairing_item (Some l) r)) =
     or_else (pi_offer_payload l) (pi_offer_payload r)"
  "pi_capability (pm_item (merge_pairing_item (Some l) r)) =
     (if pi_capability l = None \<or> pi_capability l = Some [] then pi_capability r else pi_capability l)"
  "pi_pairing_id (pm_item (merge_pairing_item (Some l) r)) = pi_pairing_id l"
  by (simp_all add: Let_def)

lemma merge_item_flags [simp]:
  "pm_inserted (merge_pairing_item (Some l) r) = False"
  "pm_changed (merge_pairing_item (Some l) r) \<longleftrightarrow>
     pm_item (merge_pairing_item (Some l) r) \<noteq> normalize_pairing_item l"
  by (simp_all add: Let_def)

declare merge_pairing_item.simps(2) [simp del]

lemma pairing_item_eqI:
  assumes "pi_pairing_id a = pi_pairing_id b" "pi_pair_key a = pi_pair_key b"
    "pi_sender a = pi_sender b" "pi_capability a = pi_capability b"
    "pi_expires_at a = pi_expires_at b" "pi_state a = pi_state b" "pi_received a = pi_received b"
    "pi_available_actions a = pi_available_actions b"
    "pi_offer_invite_id a = pi_offer_invite_id b" "pi_offer_payload a = pi_offer_payload b"
  shows "a = (b :: pairing_item)"
  using assms by (cases a; cases b) simp

lemma merge_replay_item:
  fixes local :: "pairing_item option" and remote :: pairing_item
  defines "m \<equiv> pm_item (merge_pairing_item local remote)"
  shows "pm_item (merge_pairing_item (Some m) remote) = m"
proof -
  have n: "normalized m" "normalized (pm_item (merge_pairing_item (Some m) remote))"
    by (simp_all add: m_def)
  show ?thesis
  proof (cases local)
    case None
    then have m: "m = normalize_pairing_item remote" by (simp add: m_def)
    show ?thesis
      by (rule pairing_item_eqI) (use n in \<open>simp_all add: m normalized_def\<close>)
  next
    case (Some l)
    then have f: "pi_state m = merge_invite_state (pi_state l) (pi_state remote)"
        "pi_expires_at m = max (pi_expires_at l) (pi_expires_at remote)"
        "pi_received m = (pi_received l \<or> pi_received remote)"
        "pi_sender m = or_else (pi_sender l) (pi_sender remote)"
        "pi_pair_key m = or_else (pi_pair_key l) (pi_pair_key remote)"
        "pi_offer_invite_id m = or_else (pi_offer_invite_id l) (pi_offer_invite_id remote)"
        "pi_offer_payload m = or_else (pi_offer_payload l) (pi_offer_payload remote)"
        "pi_capability m = (if pi_capability l = None \<or> pi_capability l = Some []
            then pi_capability remote else pi_capability l)"
      by (simp_all add: m_def)
    show ?thesis
      by (rule pairing_item_eqI)
        (use n in \<open>auto simp: f normalized_def\<close>)
  qed
qed

lemma merge_replay:
  fixes local :: "pairing_item option" and remote :: pairing_item
  defines "m \<equiv> pm_item (merge_pairing_item local remote)"
  shows "merge_pairing_item (Some m) remote = \<lparr> pm_item = m, pm_inserted = False, pm_changed = False \<rparr>"
proof -
  have i: "pm_item (merge_pairing_item (Some m) remote) = m"
    unfolding m_def by (rule merge_replay_item)
  have "normalize_pairing_item m = m"
    by (rule normalize_id) (simp add: m_def)
  then have "\<not> pm_changed (merge_pairing_item (Some m) remote)"
    using i by simp
  moreover have "\<not> pm_inserted (merge_pairing_item (Some m) remote)"
    by simp
  ultimately show ?thesis
    using i by (cases "merge_pairing_item (Some m) remote") simp
qed

section \<open>The record interface\<close>

locale pairing_record =
  fixes id_of :: "'t \<Rightarrow> 'u"
    and state_of :: "'t \<Rightarrow> invite_state"
    and set_state :: "invite_state \<Rightarrow> 't \<Rightarrow> 't"
  assumes get_set: "state_of (set_state st x) = st"
    and id_set: "id_of (set_state st x) = id_of x"
begin

lemma transition_keeps_ids:
  "map id_of (snd (transition_pairing_record id_of state_of set_state items pid action)) = map id_of items"
  by (induction items) (auto simp: id_set split: option.splits prod.splits)

lemma transition_ok_state:
  "transition_pairing_record id_of state_of set_state items pid action = (Ok b, items') \<Longrightarrow>
   \<exists>i. lookup id_of pid items' = Some i \<and> state_of i = pairing_target_state action"
proof (induction items arbitrary: items')
  case (Cons i items)
  show ?case
  proof (cases "id_of i = pid")
    case True
    with Cons.prems show ?thesis
      by (auto simp: table_simps get_set id_set pairing_state_after_action_def
               split: if_splits option.splits dest: transition_target)
  next
    case False
    with Cons.prems obtain rest where
      "transition_pairing_record id_of state_of set_state items pid action = (Ok b, rest)"
      "items' = i # rest"
      by (auto split: prod.splits)
    with Cons.IH False show ?thesis by (auto simp: table_simps)
  qed
qed simp

lemma transition_err_unchanged:
  "transition_pairing_record id_of state_of set_state items pid action = (Err e, items') \<Longrightarrow> items' = items"
  by (induction items arbitrary: items') (auto split: if_splits option.splits prod.splits)

lemma transition_replay:
  "transition_pairing_record id_of state_of set_state items pid action = (Ok b, items') \<Longrightarrow>
   transition_pairing_record id_of state_of set_state items' pid action = (Ok True, items')"
proof (induction items arbitrary: items')
  case (Cons i items)
  show ?case
  proof (cases "id_of i = pid")
    case True
    with Cons.prems show ?thesis
      by (auto simp: get_set id_set pairing_state_after_action_def
               split: if_splits option.splits dest: transition_target)
  next
    case False
    with Cons.prems obtain rest where
      "transition_pairing_record id_of state_of set_state items pid action = (Ok b, rest)"
      "items' = i # rest"
      by (auto split: prod.splits)
    with Cons.IH False show ?thesis by auto
  qed
qed simp

end

definition set_pairing_state :: "invite_state \<Rightarrow> pairing_item \<Rightarrow> pairing_item" where
  "set_pairing_state st item = item\<lparr> pi_state := st \<rparr>"

interpretation item_record: pairing_record pi_pairing_id pi_state set_pairing_state
  by unfold_locales (simp_all add: set_pairing_state_def)

end
