(* ===== verification/Pairing_Process.thy ===== *)
theory Pairing_Process
  imports Pairing_Rules "HOL-Library.Multiset"
begin

text \<open>
  The pure pairing workflow of \<open>torchat-runtime/src/features/pairing/process.rs\<close>: validation of
  codes and profiles, accepting, rejecting, cancelling and completing an invitation, the effects
  still to be sent, the merge of a batch of remote items, expiry, and the repair of the outbox when
  a contact becomes known.
\<close>

section \<open>Definitions\<close>

definition normalize_pairing_code :: "string \<Rightarrow> string runtime_result" where
  "normalize_pairing_code code =
     (let normalized = filter (\<lambda>c. \<not> is_ascii_whitespace c) code in
      if length normalized \<noteq> 8 \<or> \<not> list_all is_ascii_digit normalized
      then Err (InvalidParams ''pairing code must contain exactly eight digits'')
      else Ok normalized)"

definition has_outstanding_request :: "pairing_item list \<Rightarrow> bool" where
  "has_outstanding_request items \<longleftrightarrow> list_ex (\<lambda>i. is_outstanding (pi_state i)) items"

definition require_profile_ready :: "runtime_profile option \<Rightarrow> unit runtime_result" where
  "require_profile_ready profile =
     and_then (ok_or profile (Unavailable ''runtime profile is not ready'')) (\<lambda>p.
       if chars_count (trim (prof_nickname p)) < 2
       then Err (Conflict ''set nickname before generating a pairing code'')
       else Ok ())"

definition transition_conflict :: runtime_error where
  "transition_conflict = Conflict ''pairing request cannot be transitioned from its current state''"

fun transition_invite_state :: "invite_state \<Rightarrow> pairing_action \<Rightarrow> invite_state runtime_result" where
  "transition_invite_state Pending ActAccept = Ok Accepted"
| "transition_invite_state Pending ActReject = Ok Rejected"
| "transition_invite_state Pending ActExpire = Ok Expired"
| "transition_invite_state Pending ActCancel = Ok Cancelled"
| "transition_invite_state Accepted ActComplete = Ok Completed"
| "transition_invite_state Accepted ActCancel = Ok Cancelled"
| "transition_invite_state Accepted ActArchive = Ok Archived"
| "transition_invite_state Rejected ActArchive = Ok Archived"
| "transition_invite_state Completed ActArchive = Ok Archived"
| "transition_invite_state Expired ActArchive = Ok Archived"
| "transition_invite_state Cancelled ActArchive = Ok Archived"
| "transition_invite_state _ _ = Err transition_conflict"

definition transition_item :: "pairing_item \<Rightarrow> pairing_action \<Rightarrow> pairing_item runtime_result" where
  "transition_item item action =
     and_then (transition_invite_state (pi_state item) action) (\<lambda>st.
       Ok (normalize_pairing_item (item\<lparr> pi_state := st \<rparr>)))"

definition send_effect ::
  "string \<Rightarrow> string \<Rightarrow> pairing_send_kind \<Rightarrow> string option \<Rightarrow> runtime_send_effect" where
  "send_effect pid recipient kind payload =
     \<lparr> se_message = None, se_receipt = None,
       se_pairing = Some \<lparr> pse_pairing_id = pid, pse_recipient_installation_id = recipient,
                           pse_kind = kind, pse_payload = payload \<rparr> \<rparr>"

text \<open>The loop of \<open>pending_send_effects\<close>: the effect of one item (none for a skipped item).\<close>

definition item_send_effect :: "int \<Rightarrow> pairing_item \<Rightarrow> runtime_send_effect option runtime_result" where
  "item_send_effect now_secs item =
     (case pi_sender item of
        None \<Rightarrow> if pi_state item \<in> {Accepted, Rejected}
                then Err (Conflict ''pairing sender does not exist'') else Ok None
      | Some sender \<Rightarrow>
          (case pi_state item of
             Accepted \<Rightarrow>
               if pi_expires_at item < now_secs then Ok None
               else if pi_offer_payload item = None
               then Err (Conflict ''accepted pairing offer payload does not exist'')
               else Ok (Some (send_effect (pi_pairing_id item) (ct_installation_id sender) Offer
                                (pi_offer_payload item)))
           | Rejected \<Rightarrow> Ok (Some (send_effect (pi_pairing_id item) (ct_installation_id sender)
                                    Rejection None))
           | _ \<Rightarrow> Ok None))"

definition effect_recipient :: "runtime_send_effect \<Rightarrow> string" where
  "effect_recipient e = (case recipient_installation_id e of None \<Rightarrow> [] | Some r \<Rightarrow> r)"

definition pending_send_effects :: "pairing_item list \<Rightarrow> int \<Rightarrow> runtime_send_effect list runtime_result" where
  "pending_send_effects items now_secs =
     and_then (collect (item_send_effect now_secs) items) (\<lambda>effects.
       Ok (sort_key effect_recipient (List.map_filter id effects)))"

fun remove_at :: "nat \<Rightarrow> 'a list \<Rightarrow> 'a list" where
  "remove_at n [] = []"
| "remove_at 0 (x # xs) = xs"
| "remove_at (Suc n) (x # xs) = x # remove_at n xs"

definition merge_remote_item :: "pairing_item list \<Rightarrow> pairing_item \<Rightarrow> pairing_merge \<times> pairing_item list" where
  "merge_remote_item local remote =
     (case position (\<lambda>i. pi_pairing_id i = pi_pairing_id remote) local of
        None \<Rightarrow> (let m = merge_pairing_item None remote in (m, local @ [pm_item m]))
      | Some index \<Rightarrow>
          (let m = merge_pairing_item (Some (local ! index)) remote
           in (m, remove_at index local @ [pm_item m])))"

fun merge_remote_items :: "pairing_item list \<Rightarrow> pairing_item list \<Rightarrow> pairing_merge list \<times> pairing_item list" where
  "merge_remote_items local [] = ([], local)"
| "merge_remote_items local (r # remote) =
     (let (m, local1) = merge_remote_item local r;
          (ms, local2) = merge_remote_items local1 remote
      in (m # ms, local2))"

definition prepare_accept ::
  "pairing_item \<Rightarrow> contact_record list \<Rightarrow> int \<Rightarrow> pairing_preparation runtime_result" where
  "prepare_accept item contacts now_secs =
     and_then (ok_or (pi_sender item) (Conflict ''pairing sender does not exist'')) (\<lambda>sender.
     let retrying = (pi_state item \<in> {Accepted, Completed}) in
     if \<not> retrying \<and>
        list_ex (\<lambda>c. ct_installation_id c = ct_installation_id sender \<and> \<not> ct_blocked c) contacts
     then Err (Conflict ''contact already exists; remove it before pairing again'')
     else and_then (ok_or (pi_capability item) (Conflict ''pairing capability does not exist'')) (\<lambda>cap.
     if \<not> retrying \<and> pi_expires_at item < now_secs
     then Err (Conflict ''pairing request is expired'')
     else if \<not> retrying \<and> \<not> is_pending (pi_state item)
     then Err (Conflict ''pairing request cannot be prepared from its current state'')
     else Ok \<lparr> pp_pairing_id = pi_pairing_id item,
               pp_recipient_installation_id = ct_installation_id sender, pp_capability = cap \<rparr>))"

definition commit_accept ::
  "pairing_item \<Rightarrow> string \<Rightarrow> string \<Rightarrow> int \<Rightarrow> (pairing_item \<times> runtime_send_effect) runtime_result" where
  "commit_accept item offer_invite_id offer_payload now_secs =
     (if trim offer_invite_id = [] then Err (InvalidParams ''offerInviteId must not be empty'')
      else if trim offer_payload = [] then Err (InvalidParams ''offerPayload must not be empty'')
      else and_then (ok_or (pi_sender item) (Conflict ''pairing sender does not exist'')) (\<lambda>sender.
      if pi_state item = Accepted then
        if pi_offer_invite_id item = Some offer_invite_id \<and> pi_offer_payload item = Some offer_payload
        then Ok (item, send_effect (pi_pairing_id item) (ct_installation_id sender) Offer
                         (pi_offer_payload item))
        else Err (Conflict ''accepted pairing has different offer artifacts'')
      else if pi_expires_at item < now_secs then Err (Conflict ''pairing request is expired'')
      else and_then (transition_invite_state (pi_state item) ActAccept) (\<lambda>st.
        let item' = normalize_pairing_item
              (item\<lparr> pi_state := st, pi_offer_invite_id := Some offer_invite_id,
                     pi_offer_payload := Some offer_payload \<rparr>)
        in Ok (item', send_effect (pi_pairing_id item') (ct_installation_id sender) Offer
                        (pi_offer_payload item')))))"

definition prepare_reject :: "pairing_item \<Rightarrow> int \<Rightarrow> (pairing_item \<times> string) runtime_result" where
  "prepare_reject item now_secs =
     and_then (ok_or (pi_sender item) (Conflict ''pairing sender does not exist'')) (\<lambda>sender.
     if pi_state item \<noteq> Rejected then
       if pi_expires_at item < now_secs then Err (Conflict ''pairing request is expired'')
       else and_then (transition_invite_state (pi_state item) ActReject) (\<lambda>st.
         Ok (normalize_pairing_item (item\<lparr> pi_state := st \<rparr>), ct_installation_id sender))
     else Ok (item, ct_installation_id sender))"

definition prepare_cancel :: "pairing_item \<Rightarrow> pairing_cancel_effect runtime_result" where
  "prepare_cancel item =
     (if pi_state item \<notin> {Pending, Accepted}
      then Err (Conflict ''pairing request cannot be cancelled from its current state'')
      else Ok \<lparr> pce_pairing_id = pi_pairing_id item \<rparr>)"

definition commit_cancel :: "pairing_item \<Rightarrow> pairing_item runtime_result" where
  "commit_cancel item =
     (if pi_state item = Cancelled then Ok item
      else if pi_state item \<notin> {Pending, Accepted}
      then Err (Conflict ''pairing request cannot be cancelled from its current state'')
      else Ok (normalize_pairing_item (item\<lparr> pi_state := Cancelled \<rparr>)))"

definition confirm_cancel :: "pairing_item \<Rightarrow> pairing_item option runtime_result" where
  "confirm_cancel item =
     (if pi_state item = Cancelled then Ok None
      else and_then (commit_cancel item) (\<lambda>i. Ok (Some i)))"

definition peer_outcome_conflict :: runtime_error where
  "peer_outcome_conflict = Conflict ''pairing peer outcome is invalid for the current state''"

fun next_state_for_peer_outcome :: "invite_state \<Rightarrow> pairing_peer_outcome \<Rightarrow> invite_state runtime_result" where
  "next_state_for_peer_outcome st OfferReceived =
     (if st \<in> {Pending, Accepted} then Ok Accepted
      else if st = Completed then Ok Completed else Err peer_outcome_conflict)"
| "next_state_for_peer_outcome st RejectionReceived =
     (if st \<in> {Pending, Accepted, Rejected} then Ok Rejected
      else if st = Completed then Ok Completed else Err peer_outcome_conflict)"
| "next_state_for_peer_outcome st WelcomePrepared =
     (if st \<in> {Accepted, Completed} then Ok Completed else Err peer_outcome_conflict)"

definition complete_welcome :: "pairing_item \<Rightarrow> string \<Rightarrow> pairing_item runtime_result" where
  "complete_welcome item peer_installation_id =
     and_then (ok_or (pi_capability item) (Conflict ''pairing capability does not exist'')) (\<lambda>cap.
     case pi_state item of
       Accepted \<Rightarrow> Ok (normalize_pairing_item (item\<lparr> pi_state := Completed \<rparr>))
     | Completed \<Rightarrow> Ok item
     | _ \<Rightarrow> Err (Conflict ''welcome cannot complete pairing from its current state''))"

definition visible_items :: "pairing_item list \<Rightarrow> pairing_item list" where
  "visible_items items =
     sort_key (\<lambda>i. (- pi_expires_at i, pi_pairing_id i))
       (filter (\<lambda>i. pi_state i \<noteq> Archived) items)"

definition expire_item :: "pairing_item \<Rightarrow> int \<Rightarrow> pairing_item option" where
  "expire_item item now_secs =
     (if pi_state item \<noteq> Pending \<or> pi_expires_at item \<ge> now_secs then None
      else Some (normalize_pairing_item (item\<lparr> pi_state := Expired \<rparr>)))"

fun expire_items :: "pairing_item list \<Rightarrow> int \<Rightarrow> pairing_item list \<times> pairing_item list" where
  "expire_items [] now_secs = ([], [])"
| "expire_items (i # items) now_secs =
     (let (changed, rest) = expire_items items now_secs in
      case expire_item i now_secs of
        None \<Rightarrow> (changed, i # rest)
      | Some e \<Rightarrow> (e # changed, e # rest))"

definition sender_is :: "(string \<Rightarrow> bool) \<Rightarrow> pairing_item \<Rightarrow> bool" where
  "sender_is P item \<longleftrightarrow> (case pi_sender item of None \<Rightarrow> False | Some c \<Rightarrow> P (ct_installation_id c))"

definition complete_for_existing_contact :: "pairing_item \<Rightarrow> string set \<Rightarrow> pairing_item option" where
  "complete_for_existing_contact item contact_ids =
     (if \<not> is_outstanding (pi_state item) \<or> \<not> sender_is (\<lambda>c. c \<in> contact_ids) item then None
      else Some (normalize_pairing_item (item\<lparr> pi_state := Completed \<rparr>)))"

definition reconcile_outbox_item ::
  "pairing_item \<Rightarrow> contact_record \<Rightarrow> string \<Rightarrow> bool \<Rightarrow> pairing_item option" where
  "reconcile_outbox_item item contact installation_id allow_single_unbound_repair =
     (if \<not> is_outstanding (pi_state item) then None
      else if \<not> sender_is (\<lambda>c. c = installation_id) item \<and> \<not> allow_single_unbound_repair then None
      else Some (normalize_pairing_item
                  (item\<lparr> pi_sender := Some contact, pi_state := Completed \<rparr>)))"

definition reconcile_outbox_items ::
  "pairing_item list \<Rightarrow> contact_record \<Rightarrow> string \<Rightarrow> pairing_item list" where
  "reconcile_outbox_items items contact installation_id =
     (let outstanding = filter (\<lambda>i. is_outstanding (pi_state i)) items;
          explicit_matches = length (filter (sender_is (\<lambda>c. c = installation_id)) outstanding);
          allow = (explicit_matches = 0 \<and> length outstanding = 1)
      in List.map_filter (\<lambda>i. reconcile_outbox_item i contact installation_id allow) outstanding)"

section \<open>Transitions\<close>

lemma transition_invite_state_eq:
  "transition_invite_state st action =
     (case transition st action of Some st' \<Rightarrow> Ok st' | None \<Rightarrow> Err transition_conflict)"
  by (cases st; cases action) simp_all

lemma transition_invite_state_accept:
  "transition_invite_state st ActAccept = Ok st' \<longleftrightarrow> st = Pending \<and> st' = Accepted"
  by (cases st) auto

section \<open>Effects\<close>

lemma send_effect_recipient [simp]:
  "recipient_installation_id (send_effect pid recipient kind payload) = Some recipient"
  "effect_recipient (send_effect pid recipient kind payload) = recipient"
  by (simp_all add: send_effect_def recipient_installation_id_def effect_recipient_def)

text \<open>The effects an item owes at a time, as a specification: offers of live acceptances and
  rejections.\<close>

definition owed_effects :: "int \<Rightarrow> pairing_item \<Rightarrow> runtime_send_effect list" where
  "owed_effects now_secs item =
     (case pi_sender item of None \<Rightarrow> []
      | Some sender \<Rightarrow>
          (if pi_state item = Accepted \<and> now_secs \<le> pi_expires_at item
           then [send_effect (pi_pairing_id item) (ct_installation_id sender) Offer (pi_offer_payload item)]
           else if pi_state item = Rejected
           then [send_effect (pi_pairing_id item) (ct_installation_id sender) Rejection None]
           else []))"

lemma item_send_effect_owed:
  "item_send_effect now_secs item = Ok e \<Longrightarrow>
   owed_effects now_secs item = (case e of None \<Rightarrow> [] | Some x \<Rightarrow> [x])"
  by (cases "pi_state item"; cases "pi_sender item")
    (auto simp: item_send_effect_def owed_effects_def split: if_splits)

lemma collect_owed:
  "list_all2 (\<lambda>i e. item_send_effect now_secs i = Ok e) items es \<Longrightarrow>
   List.map_filter id es = concat (map (owed_effects now_secs) items)"
  by (induction rule: list_all2_induct)
    (auto simp: List.map_filter_def item_send_effect_owed split: option.splits)

lemma item_send_effect_fails_iff:
  "(\<exists>e. item_send_effect now_secs item = Err e) \<longleftrightarrow>
     (pi_state item \<in> {Accepted, Rejected} \<and> pi_sender item = None) \<or>
     (pi_state item = Accepted \<and> now_secs \<le> pi_expires_at item \<and> pi_offer_payload item = None)"
  by (cases "pi_state item"; cases "pi_sender item") (auto simp: item_send_effect_def)

lemma collect_err: "(\<exists>e. collect f xs = Err e) \<longleftrightarrow> (\<exists>x \<in> set xs. \<exists>e. f x = Err e)"
  by (induction xs) (auto split: sum.splits)

section \<open>Batches\<close>

lemma position_lookup:
  "position (\<lambda>i. key i = k) rows = Some n \<Longrightarrow> lookup key k rows = Some (rows ! n)"
  by (induction rows arbitrary: n) (auto simp: table_simps split: if_splits option.splits)

lemma position_lookup_None:
  "position (\<lambda>i. key i = k) rows = None \<Longrightarrow> lookup key k rows = None"
  by (induction rows) (auto simp: table_simps split: if_splits option.splits)

lemma remove_at_position:
  "position (\<lambda>i. key i = k) rows = Some n \<Longrightarrow> distinct (map key rows) \<Longrightarrow>
   remove_at n rows = delete_key key k rows"
proof (induction rows arbitrary: n)
  case (Cons r rows)
  show ?case
  proof (cases "key r = k")
    case True
    moreover have "delete_key key k rows = rows"
      using Cons.prems(2) True by (auto simp: delete_key_def filter_id_conv) (metis image_eqI)
    ultimately show ?thesis using Cons.prems by (simp add: delete_key_def)
  next
    case False
    with Cons.prems obtain n' where "position (\<lambda>i. key i = k) rows = Some n'" "n = Suc n'"
      by (auto split: option.splits)
    with False Cons show ?thesis by (simp add: delete_key_def)
  qed
qed simp

lemma merge_remote_item_eq:
  assumes "distinct (map pi_pairing_id local)"
  shows "merge_remote_item local r =
     (let m = merge_pairing_item (lookup pi_pairing_id (pi_pairing_id r) local) r
      in (m, delete_key pi_pairing_id (pi_pairing_id r) local @ [pm_item m]))"
proof (cases "position (\<lambda>i. pi_pairing_id i = pi_pairing_id r) local")
  case None
  then have "lookup pi_pairing_id (pi_pairing_id r) local = None"
    by (rule position_lookup_None)
  moreover have "delete_key pi_pairing_id (pi_pairing_id r) local = local"
    using None by (auto simp: position_None_iff delete_key_def filter_id_conv)
  ultimately show ?thesis using None by (simp add: merge_remote_item_def)
next
  case (Some n)
  then show ?thesis
    using remove_at_position [OF Some assms] position_lookup [OF Some]
    by (simp add: merge_remote_item_def)
qed

lemma merge_key:
  "pi_pairing_id (pm_item (merge_pairing_item (lookup pi_pairing_id (pi_pairing_id r) local) r)) =
   pi_pairing_id r"
  by (simp add: merge_item_id split: option.splits) (metis lookup_key)

lemma merge_remote_item_lookup:
  assumes "distinct (map pi_pairing_id local)" and "merge_remote_item local r = (m, local')"
  shows "m = merge_pairing_item (lookup pi_pairing_id (pi_pairing_id r) local) r"
    and "distinct (map pi_pairing_id local')"
    and "lookup pi_pairing_id k local' =
           (if k = pi_pairing_id r then Some (pm_item m) else lookup pi_pairing_id k local)"
proof -
  from assms show m: "m = merge_pairing_item (lookup pi_pairing_id (pi_pairing_id r) local) r"
    by (simp add: merge_remote_item_eq Let_def)
  have id: "pi_pairing_id (pm_item m) = pi_pairing_id r" by (simp add: m merge_key)
  have l: "local' = delete_key pi_pairing_id (pi_pairing_id r) local @ [pm_item m]"
    using assms m by (simp add: merge_remote_item_eq Let_def)
  have "pi_pairing_id r \<notin> pi_pairing_id ` set (delete_key pi_pairing_id (pi_pairing_id r) local)"
    by (auto simp: delete_key_def)
  with assms(1) show "distinct (map pi_pairing_id local')"
    by (simp add: l id)
  show "lookup pi_pairing_id k local' =
      (if k = pi_pairing_id r then Some (pm_item m) else lookup pi_pairing_id k local)"
    by (auto simp: l table_simps id split: option.splits)
qed

lemma merge_remote_items_lookup:
  assumes "distinct (map pi_pairing_id local)" and "distinct (map pi_pairing_id remote)"
    and "merge_remote_items local remote = (ms, local')"
  shows "distinct (map pi_pairing_id local') \<and>
    ms = map (\<lambda>r. merge_pairing_item (lookup pi_pairing_id (pi_pairing_id r) local) r) remote \<and>
    (\<forall>k. lookup pi_pairing_id k local' =
       (case lookup pi_pairing_id k remote of None \<Rightarrow> lookup pi_pairing_id k local
        | Some r \<Rightarrow> Some (pm_item (merge_pairing_item (lookup pi_pairing_id k local) r))))"
  using assms
proof (induction remote arbitrary: local ms)
  case Nil
  then show ?case by (simp add: table_simps)
next
  case (Cons r remote)
  obtain m local1 where m: "merge_remote_item local r = (m, local1)" by fastforce
  obtain ms1 where ms1: "merge_remote_items local1 remote = (ms1, local')" and ms: "ms = m # ms1"
    using Cons.prems(3) m by (auto simp: Let_def split: prod.splits)
  note one = merge_remote_item_lookup [OF Cons.prems(1) m]
  have fresh: "pi_pairing_id r \<notin> pi_pairing_id ` set remote"
    and d: "distinct (map pi_pairing_id remote)"
    using Cons.prems(2) by auto
  then have rn: "lookup pi_pairing_id (pi_pairing_id r) remote = None"
    by (simp add: lookup_None_iff)
  have ne: "pi_pairing_id x \<noteq> pi_pairing_id r" if "x \<in> set remote" for x
    using fresh that by (metis image_eqI)
  from Cons.IH [OF one(2) d ms1] show ?case
    by (auto simp: ms one(1,3) table_simps rn dest: ne split: option.splits)
qed

lemma merge_remote_items_replay:
  assumes "distinct (map pi_pairing_id local)" and "distinct (map pi_pairing_id remote)"
    and "merge_remote_items local remote = (ms, local')"
    and "merge_remote_items local' remote = (ms2, local'')"
  shows "list_all (\<lambda>m. \<not> pm_inserted m \<and> \<not> pm_changed m) ms2"
    and "lookup pi_pairing_id k local'' = lookup pi_pairing_id k local'"
proof -
  note a = merge_remote_items_lookup [OF assms(1-3)]
  note b = merge_remote_items_lookup [OF _ assms(2,4)]
  have r: "lookup pi_pairing_id (pi_pairing_id r) local' =
      Some (pm_item (merge_pairing_item (lookup pi_pairing_id (pi_pairing_id r) local) r))"
    if "r \<in> set remote" for r
  proof -
    have "lookup pi_pairing_id (pi_pairing_id r) remote = Some r"
      using that assms(2) by (simp add: lookup_Some_iff)
    with a show ?thesis by simp
  qed
  show "list_all (\<lambda>m. \<not> pm_inserted m \<and> \<not> pm_changed m) ms2"
    using a b r by (simp add: list_all_iff merge_replay del: merge_item_flags)
  show "lookup pi_pairing_id k local'' = lookup pi_pairing_id k local'"
  proof (cases "lookup pi_pairing_id k remote")
    case None
    then show ?thesis using a b by simp
  next
    case (Some x)
    then have x: "x \<in> set remote" "pi_pairing_id x = k"
      using lookup_in lookup_key by fastforce+
    have "lookup pi_pairing_id k local'' =
        Some (pm_item (merge_pairing_item (lookup pi_pairing_id k local') x))"
      using a b Some by simp
    also have "\<dots> = lookup pi_pairing_id k local'"
      using r [OF x(1)] by (simp add: x(2) merge_replay)
    finally show ?thesis .
  qed
qed

section \<open>Expiry and visibility\<close>

lemma expire_items_eq:
  "expire_items items now_secs =
     (List.map_filter (\<lambda>i. expire_item i now_secs) items,
      map (\<lambda>i. case expire_item i now_secs of None \<Rightarrow> i | Some e \<Rightarrow> e) items)"
  by (induction items) (auto simp: List.map_filter_def split: option.splits)

lemma expire_item_state:
  "pi_state (case expire_item i now_secs of None \<Rightarrow> i | Some e \<Rightarrow> e) =
     expire_pairing_state (pi_state i) (pi_expires_at i) now_secs"
  by (auto simp: expire_item_def expire_pairing_state_def is_pending_def split: option.splits)

lemma expire_item_other: "expire_item i now_secs = Some e \<Longrightarrow> expire_item e now' = None"
  by (auto simp: expire_item_def split: if_splits)

section \<open>Accepting\<close>

lemma commit_accept_ok_iff:
  "commit_accept item invite payload now_secs = Ok (item', eff) \<longleftrightarrow>
     trim invite \<noteq> [] \<and> trim payload \<noteq> [] \<and>
     (\<exists>sender. pi_sender item = Some sender \<and>
       eff = send_effect (pi_pairing_id item) (ct_installation_id sender) Offer (Some payload)) \<and>
     (if pi_state item = Accepted
      then pi_offer_invite_id item = Some invite \<and> pi_offer_payload item = Some payload \<and> item' = item
      else pi_state item = Pending \<and> now_secs \<le> pi_expires_at item \<and>
           item' = normalize_pairing_item (item\<lparr> pi_state := Accepted, pi_offer_invite_id := Some invite,
                                                 pi_offer_payload := Some payload \<rparr>))"
  by (cases "pi_sender item"; cases "pi_state item")
    (auto simp: commit_accept_def and_then_ok_iff Let_def)

section \<open>Properties\<close>

text \<open>Sample data for the instances below.\<close>

definition sample_contact :: "string \<Rightarrow> contact_record" where
  "sample_contact iid =
     \<lparr> ct_installation_id = iid, ct_nickname = ''peer'', ct_public_key = ''pk'',
       ct_fingerprint = ''fp'', ct_local_alias = None, ct_muted = False, ct_blocked = False,
       ct_verification = Unverified, ct_peer_endpoint_status = EpMissing,
       ct_peer_connection_status = PcOffline, ct_transport_policy = PeerOnly,
       ct_last_peer_connected_at = None, ct_last_seen_at = None, ct_dev = None \<rparr>"

definition sample_item :: "string \<Rightarrow> string \<Rightarrow> invite_state \<Rightarrow> bool \<Rightarrow> pairing_item" where
  "sample_item pid iid st received =
     \<lparr> pi_pairing_id = pid, pi_pair_key = None, pi_sender = Some (sample_contact iid),
       pi_capability = Some ''cap'', pi_expires_at = 100, pi_state = st, pi_received = received,
       pi_available_actions = [], pi_offer_invite_id = None, pi_offer_payload = None \<rparr>"

fun action_of :: "pairing_available_action \<Rightarrow> pairing_action" where
  "action_of AvAccept = ActAccept"
| "action_of AvReject = ActReject"
| "action_of AvArchive = ActArchive"
| "action_of AvCancel = ActCancel"



text \<open>C30: The command workflow and the rules module implement the same state machine: they accept
  the same actions with the same successor, and every action the projection offers for an item is
  accepted.\<close>

theorem pairing_machines_agree:
  "transition_invite_state st action =
     (case pairing_state_after_action st action of Some st' \<Rightarrow> Ok st' | None \<Rightarrow> Err transition_conflict)
   \<and> list_all (\<lambda>av. is_ok (transition_invite_state st (action_of av))) (pairing_available_actions st received)"
proof
  show "transition_invite_state st action =
     (case pairing_state_after_action st action of Some st' \<Rightarrow> Ok st' | None \<Rightarrow> Err transition_conflict)"
    by (simp add: transition_invite_state_eq pairing_state_after_action_def)
  show "list_all (\<lambda>av. is_ok (transition_invite_state st (action_of av))) (pairing_available_actions st received)"
    by (cases st; cases received) (simp_all add: pairing_available_actions_def can_archive_def)
qed

text \<open>Merging a batch of remote items is idempotent: replaying the same batch inserts nothing,
  changes nothing, and leaves every row as it was.\<close>

theorem merge_batch_idempotent:
  assumes "distinct (map pi_pairing_id local)" and "distinct (map pi_pairing_id remote)"
  shows "case merge_remote_items local remote of (ms, local1) \<Rightarrow>
         case merge_remote_items local1 remote of (ms2, local2) \<Rightarrow>
           list_all (\<lambda>m. \<not> pm_inserted m \<and> \<not> pm_changed m) ms2 \<and>
           (\<forall>k. lookup pi_pairing_id k local2 = lookup pi_pairing_id k local1)"
proof -
  obtain ms local1 where a: "merge_remote_items local remote = (ms, local1)" by fastforce
  obtain ms2 local2 where b: "merge_remote_items local1 remote = (ms2, local2)" by fastforce
  show ?thesis
    using merge_remote_items_replay [OF assms a b] a b by simp
qed

text \<open>Merging one item never loses local knowledge: the lifecycle does not move backwards, the
  deadline does not shrink, and the bound sender, pair key and offer artifacts stay as they are.\<close>

theorem merge_item_keeps_local:
  assumes "pm_item (merge_pairing_item (Some l) r) = m"
  shows "lifecycle_rank (pi_state m) \<le> lifecycle_rank (pi_state l) \<and>
         pi_expires_at l \<le> pi_expires_at m \<and>
         pi_pairing_id m = pi_pairing_id l \<and>
         (pi_sender l \<noteq> None \<longrightarrow> pi_sender m = pi_sender l) \<and>
         (pi_pair_key l \<noteq> None \<longrightarrow> pi_pair_key m = pi_pair_key l) \<and>
         (pi_offer_invite_id l \<noteq> None \<longrightarrow> pi_offer_invite_id m = pi_offer_invite_id l) \<and>
         (pi_offer_payload l \<noteq> None \<longrightarrow> pi_offer_payload m = pi_offer_payload l) \<and>
         pi_available_actions m = pairing_available_actions (pi_state m) (pi_received m)"
proof -
  have "normalized m" using assms by auto
  then show ?thesis
    using assms by (auto simp: merge_invite_state_rank or_else_def normalized_def)
qed

text \<open>Accepting is idempotent under retry: once an acceptance succeeded, repeating it with the
  same offer, at any later time, returns the same item and the same offer effect, and an attempt with
  a different offer is refused.\<close>

theorem commit_accept_replay:
  assumes "commit_accept item invite payload now_secs = Ok (item', eff)"
  shows "commit_accept item' invite payload later = Ok (item', eff) \<and>
         pi_state item' = Accepted \<and> pi_pairing_id item' = pi_pairing_id item \<and>
         (trim invite2 \<noteq> [] \<and> trim payload2 \<noteq> [] \<and> (invite2 \<noteq> invite \<or> payload2 \<noteq> payload) \<longrightarrow>
           commit_accept item' invite2 payload2 later =
             Err (Conflict ''accepted pairing has different offer artifacts''))"
proof -
  from assms obtain sender where s: "pi_sender item = Some sender"
    and e: "eff = send_effect (pi_pairing_id item) (ct_installation_id sender) Offer (Some payload)"
    and t: "trim invite \<noteq> []" "trim payload \<noteq> []"
    by (auto simp: commit_accept_ok_iff)
  from assms have i: "pi_sender item' = Some sender" "pi_state item' = Accepted"
      "pi_pairing_id item' = pi_pairing_id item" "pi_offer_invite_id item' = Some invite"
      "pi_offer_payload item' = Some payload"
    using s by (auto simp: commit_accept_ok_iff split: if_splits)
  then have "commit_accept item' invite payload later = Ok (item', eff)"
    using t e by (simp add: commit_accept_ok_iff)
  then show ?thesis using i by (auto simp: commit_accept_def)
qed

text \<open>The effects still to be sent are exactly the offers of live acceptances and the
  rejections, ordered by recipient; the call fails exactly when an accepted or rejected item has no
  sender, or a live acceptance has lost its offer.\<close>

theorem pending_send_effects_exact:
  "(case pending_send_effects items now_secs of
      Inr es \<Rightarrow> mset es = mset (concat (map (owed_effects now_secs) items)) \<and>
                sorted (map effect_recipient es) \<and>
                list_all (\<lambda>e. recipient_installation_id e \<noteq> None) es
    | Inl e \<Rightarrow> list_ex (\<lambda>i. (pi_state i \<in> {Accepted, Rejected} \<and> pi_sender i = None) \<or>
        (pi_state i = Accepted \<and> now_secs \<le> pi_expires_at i \<and> pi_offer_payload i = None)) items)"
proof (cases "collect (item_send_effect now_secs) items")
  case (Inl e)
  then show ?thesis
    using collect_err [of "item_send_effect now_secs" items]
    by (auto simp: pending_send_effects_def list_ex_iff item_send_effect_fails_iff)
next
  case (Inr es)
  then have "list_all2 (\<lambda>i e. item_send_effect now_secs i = Ok e) items es"
    by (simp add: collect_ok_iff)
  note c = collect_owed [OF this]
  have "recipient_installation_id e \<noteq> None" if "e \<in> set (owed_effects now_secs i)" for e i
    using that by (auto simp: owed_effects_def split: option.splits if_splits)
  then show ?thesis
    using Inr by (auto simp: pending_send_effects_def c list_all_iff)
qed

text \<open>Expiry touches exactly the pending items past their deadline, reports exactly those, and a
  second pass changes nothing more.\<close>

theorem expire_items_exact:
  "case expire_items items now_secs of (changed, items') \<Rightarrow>
     map pi_state items' = map (\<lambda>i. expire_pairing_state (pi_state i) (pi_expires_at i) now_secs) items \<and>
     map pi_pairing_id items' = map pi_pairing_id items \<and>
     changed = filter (\<lambda>i. pi_state i = Expired) (map snd (filter (\<lambda>(i, i'). pi_state i = Pending) (zip items items'))) \<and>
     expire_items items' now_secs = ([], items')"
proof -
  let ?f = "\<lambda>i. case expire_item i now_secs of None \<Rightarrow> i | Some e \<Rightarrow> e"
  have f: "expire_item (?f i) now_secs = None" for i
    by (auto split: option.splits dest: expire_item_other)
  have "map pi_state (map ?f items) = map (\<lambda>i. expire_pairing_state (pi_state i) (pi_expires_at i) now_secs) items"
    by (simp add: expire_item_state)
  moreover have "map pi_pairing_id (map ?f items) = map pi_pairing_id items"
    by (auto simp: expire_item_def split: option.splits)
  moreover have "List.map_filter (\<lambda>i. expire_item i now_secs) items =
      filter (\<lambda>i. pi_state i = Expired) (map snd (filter (\<lambda>(i, i'). pi_state i = Pending) (zip items (map ?f items))))"
    by (induction items) (auto simp: List.map_filter_def expire_item_def)
  moreover have "expire_items (map ?f items) now_secs = ([], map ?f items)"
    by (simp add: expire_items_eq List.map_filter_def f comp_def)
  ultimately show ?thesis by (simp add: expire_items_eq)
qed

text \<open>The visible list is the list without its archived items, latest deadline first and then by
  pairing id.\<close>

theorem visible_items_exact:
  "mset (visible_items items) = filter_mset (\<lambda>i. pi_state i \<noteq> Archived) (mset items) \<and>
   sorted_wrt (\<lambda>a b. pi_expires_at b < pi_expires_at a \<or>
     (pi_expires_at a = pi_expires_at b \<and> pi_pairing_id a \<le> pi_pairing_id b)) (visible_items items)"
proof -
  have "sorted (map (\<lambda>i. (- pi_expires_at i, pi_pairing_id i)) (visible_items items))"
    by (simp add: visible_items_def)
  then have "sorted_wrt (\<lambda>a b. (- pi_expires_at a, pi_pairing_id a) \<le> (- pi_expires_at b, pi_pairing_id b))
      (visible_items items)"
    by (simp add: sorted_map)
  then have "sorted_wrt (\<lambda>a b. pi_expires_at b < pi_expires_at a \<or>
     (pi_expires_at a = pi_expires_at b \<and> pi_pairing_id a \<le> pi_pairing_id b)) (visible_items items)"
    by (rule sorted_wrt_mono_rel [rotated]) (auto simp: less_eq_prod_def)
  then show ?thesis by (simp add: visible_items_def)
qed

text \<open>C40: The outbox repair rebinds a request of another peer: when exactly one request is
  outstanding and it is bound to a different installation, reconciling a new contact completes it and
  overwrites its recipient.\<close>

theorem reconcile_rebinds_foreign_request:
  assumes "filter (\<lambda>i. is_outstanding (pi_state i)) items = [item]"
    and "pi_sender item = Some other" and "ct_installation_id other \<noteq> installation_id"
  shows "\<exists>item'. reconcile_outbox_items items contact installation_id = [item'] \<and>
    pi_pairing_id item' = pi_pairing_id item \<and> pi_state item' = Completed \<and>
    pi_sender item' = Some contact"
proof -
  have "item \<in> set (filter (\<lambda>i. is_outstanding (pi_state i)) items)"
    using assms(1) by simp
  then have "is_outstanding (pi_state item)" by simp
  then show ?thesis
    using assms by (simp add: reconcile_outbox_items_def Let_def sender_is_def
        reconcile_outbox_item_def List.map_filter_def)
qed

theorem reconcile_rebinds_foreign_request_witness:
  "\<exists>item'. reconcile_outbox_items [sample_item ''a'' ''bob'' Pending False] (sample_contact ''carol'') ''carol'' = [item'] \<and>
    pi_pairing_id item' = ''a'' \<and> pi_state item' = Completed \<and> pi_sender item' = Some (sample_contact ''carol'')"
  using reconcile_rebinds_foreign_request
    [of "[sample_item ''a'' ''bob'' Pending False]" "sample_item ''a'' ''bob'' Pending False"
        "sample_contact ''bob''" "''carol''" "sample_contact ''carol''"]
  by (simp add: sample_item_def sample_contact_def is_outstanding_def is_pending_def)

end
