(* ===== verification/Rendezvous_Relay.thy ===== *)
theory Rendezvous_Relay
  imports Torca_Prelude "HOL-Library.Multiset"
begin

text \<open>
  The rendezvous relay of \<open>services/torchat-relay/src/main.rs\<close> with the wire frames of
  \<open>torchat-relay-protocol\<close>: the actor state (connections, pairing slots, bridges, metrics), one
  definition per client frame, connection and disconnection, and the expiry tick.

  The digest \<open>hash\<close> (SHA-256 of the \<open>sha2\<close> crate) is a parameter. What the handlers read of the
  outside is the record \<open>relay_env\<close>: the successive readings of the clock, the random tokens and the
  random pairing codes. A handler returns, panics (an \<open>unwrap\<close> or an index of a missing
  connection), or runs forever (the search for an unused code).
\<close>

section \<open>Wire frames\<close>

type_synonym uuid = "128 word"
type_synonym digest = string
type_synonym bytes = string

definition MAX_PAIRING_BLOB_BYTES :: nat where
  "MAX_PAIRING_BLOB_BYTES = 48 * 1024"

datatype client_frame =
  CreatePairingSlot uuid digest nat
| ResolvePairingCode uuid string
| BeginPairing uuid uuid string digest bytes
| AcceptPairing uuid string bytes
| RejectPairing uuid string
| ClientPairingCommitted uuid string
| ClientPairingFinalized uuid string
| CancelPairing uuid string
| CancelPairingSlot string string
| Ping

datatype server_frame =
  PairingSlotCreated uuid string string string int
| PairingSlotResolved uuid string digest int
| PairingRequested uuid string string digest bytes int
| PairingStarted uuid uuid string int
| PairingAccepted uuid bytes
| PairingRejected uuid
| PairingCommitted uuid
| PairingFinalized uuid
| PairingCancelled uuid
| RelayError "uuid option" string
| Pong

section \<open>Actor state\<close>

definition SLOT_TTL :: nat where "SLOT_TTL = 120"
definition BRIDGE_TTL :: nat where "BRIDGE_TTL = 180"
definition MAX_CONNECTIONS :: nat where "MAX_CONNECTIONS = 2000"
definition MAX_SLOTS :: nat where "MAX_SLOTS = 1000"
definition MAX_SLOTS_PER_CONNECTION :: nat where "MAX_SLOTS_PER_CONNECTION = 2"
definition MAX_PAIRINGS_PER_CONNECTION :: nat where "MAX_PAIRINGS_PER_CONNECTION = 2"
definition MAX_CODE_ATTEMPTS :: nat where "MAX_CODE_ATTEMPTS = 5"
definition PAIRING_CODE_DIGITS :: nat where "PAIRING_CODE_DIGITS = 8"
definition OUTBOUND_CAPACITY :: nat where "OUTBOUND_CAPACITY = 32"

lemmas relay_limits = SLOT_TTL_def BRIDGE_TTL_def MAX_CONNECTIONS_def MAX_SLOTS_def
  MAX_SLOTS_PER_CONNECTION_def MAX_PAIRINGS_PER_CONNECTION_def MAX_CODE_ATTEMPTS_def
  PAIRING_CODE_DIGITS_def OUTBOUND_CAPACITY_def MAX_PAIRING_BLOB_BYTES_def

text \<open>The bounded channel to the writer task is the list of queued frames and whether the writer
  still receives.\<close>

record connection =
  c_outbound :: "server_frame list"
  c_open :: bool
  c_slots :: nat
  c_pairings :: nat
  c_attempts :: "int list"

record slot =
  s_owner :: uuid
  s_handle :: string
  s_capability_hash :: digest
  s_code_hash :: digest
  s_rendezvous_public_key :: digest
  s_expires_at :: int

record bridge =
  b_owner :: uuid
  b_joiner :: uuid
  b_owner_token_hash :: digest
  b_joiner_token_hash :: digest
  b_slot_hash :: digest
  b_expires_at :: int

record metrics =
  active_connections :: nat
  active_pairing_slots :: nat
  active_pairing_bridges :: nat
  rejected_frames :: nat
  expired_slots :: nat

record relay =
  connections :: "(uuid \<times> connection) list"
  slots :: "(digest \<times> slot) list"
  bridges :: "(uuid \<times> bridge) list"
  relay_metrics :: metrics

record relay_env =
  env_clock :: "nat \<Rightarrow> int"
  env_tokens :: "nat \<Rightarrow> string"
  env_codes :: "nat \<Rightarrow> string"

datatype 'a outcome = Returned 'a | Panicked | Diverged

datatype command =
  Connected uuid
| Disconnected uuid
| Frame uuid client_frame

section \<open>Helpers\<close>

definition relay_normalize_pairing_code :: "string \<Rightarrow> string option" where
  "relay_normalize_pairing_code value =
     (let normalized = filter (\<lambda>c. \<not> is_ascii_whitespace c) value in
      if length normalized = PAIRING_CODE_DIGITS \<and> list_all is_ascii_digit normalized
      then Some normalized else None)"

definition format_pairing_code :: "string \<Rightarrow> string" where
  "format_pairing_code code = take 4 code @ '' '' @ drop 4 code"

definition try_send :: "server_frame \<Rightarrow> connection \<Rightarrow> connection" where
  "try_send frame c =
     (if c_open c \<and> length (c_outbound c) < OUTBOUND_CAPACITY
      then c\<lparr> c_outbound := c_outbound c @ [frame] \<rparr> else c)"

definition send :: "relay \<Rightarrow> uuid \<Rightarrow> server_frame \<Rightarrow> relay" where
  "send st cid frame = st\<lparr> connections := hm_modify cid (try_send frame) (connections st) \<rparr>"

definition reject :: "relay \<Rightarrow> uuid \<Rightarrow> uuid option \<Rightarrow> string \<Rightarrow> relay" where
  "reject st cid request_id code =
     send (st\<lparr> relay_metrics := (relay_metrics st)\<lparr> rejected_frames := rejected_frames (relay_metrics st) + 1 \<rparr> \<rparr>)
       cid (RelayError request_id code)"

definition sync_metrics :: "relay \<Rightarrow> relay" where
  "sync_metrics st =
     st\<lparr> relay_metrics := (relay_metrics st)
           \<lparr> active_connections := length (connections st),
             active_pairing_slots := length (slots st),
             active_pairing_bridges := length (bridges st) \<rparr> \<rparr>"

definition authorize :: "(string \<Rightarrow> digest) \<Rightarrow> bridge option \<Rightarrow> uuid \<Rightarrow> string \<Rightarrow> bool \<Rightarrow> bool" where
  "authorize hash bridge cid token owner \<longleftrightarrow>
     (case bridge of None \<Rightarrow> False
      | Some b \<Rightarrow> (owner \<and> b_owner b = cid \<and> b_owner_token_hash b = hash token) \<or>
                  (\<not> owner \<and> b_joiner b = cid \<and> b_joiner_token_hash b = hash token))"

definition authorize_either :: "(string \<Rightarrow> digest) \<Rightarrow> bridge option \<Rightarrow> uuid \<Rightarrow> string \<Rightarrow> bool" where
  "authorize_either hash bridge cid token \<longleftrightarrow>
     authorize hash bridge cid token True \<or> authorize hash bridge cid token False"

definition release_pairing :: "connection \<Rightarrow> connection" where
  "release_pairing c = c\<lparr> c_pairings := c_pairings c - 1 \<rparr>"

definition release_slot :: "connection \<Rightarrow> connection" where
  "release_slot c = c\<lparr> c_slots := c_slots c - 1 \<rparr>"

definition finish_pairing :: "uuid \<Rightarrow> server_frame \<Rightarrow> relay \<Rightarrow> relay" where
  "finish_pairing pid frame st =
     (case hm_get pid (bridges st) of
        None \<Rightarrow> st
      | Some b \<Rightarrow>
          let st1 = st\<lparr> bridges := hm_remove pid (bridges st),
                        connections := hm_modify (b_joiner b) release_pairing
                                         (hm_modify (b_owner b) release_pairing (connections st)) \<rparr>;
              st2 = send (send st1 (b_owner b) frame) (b_joiner b) frame
          in (case hm_get (b_slot_hash b) (slots st2) of
                None \<Rightarrow> st2
              | Some s \<Rightarrow> st2\<lparr> slots := hm_remove (b_slot_hash b) (slots st2),
                               connections := hm_modify (s_owner s) release_slot (connections st2) \<rparr>))"

section \<open>Frame handlers\<close>

text \<open>The search for a code no slot uses.\<close>

partial_function (option) find_code ::
  "(string \<Rightarrow> digest) \<Rightarrow> (digest \<times> slot) list \<Rightarrow> (nat \<Rightarrow> string) \<Rightarrow> nat \<Rightarrow> string option" where
  "find_code hash slts codes n =
     (if \<not> list_ex (\<lambda>(k, s). s_code_hash s = hash (codes n)) slts then Some (codes n)
      else find_code hash slts codes (Suc n))"

definition on_create_pairing_slot ::
  "(string \<Rightarrow> digest) \<Rightarrow> relay_env \<Rightarrow> uuid \<Rightarrow> uuid \<Rightarrow> digest \<Rightarrow> nat \<Rightarrow> relay \<Rightarrow> relay outcome" where
  "on_create_pairing_slot hash env cid request_id rendezvous_public_key requested_ttl_seconds st =
     (case hm_get cid (connections st) of
        None \<Rightarrow> Panicked
      | Some c \<Rightarrow>
          if c_slots c \<ge> MAX_SLOTS_PER_CONNECTION \<or> length (slots st) \<ge> MAX_SLOTS
          then Returned (reject st cid (Some request_id) ''capacity'')
          else
            let ttl = int (max 10 (min requested_ttl_seconds SLOT_TTL)) in
            case find_code hash (slots st) (env_codes env) 0 of
              None \<Rightarrow> Diverged
            | Some code \<Rightarrow>
                let display_code = format_pairing_code code;
                    handle = env_tokens env 0;
                    capability = env_tokens env 1;
                    st1 = st\<lparr> slots := hm_insert (hash handle)
                                \<lparr> s_owner = cid, s_handle = handle,
                                  s_capability_hash = hash capability, s_code_hash = hash code,
                                  s_rendezvous_public_key = rendezvous_public_key,
                                  s_expires_at = env_clock env 0 + ttl \<rparr> (slots st),
                              connections := hm_modify cid (\<lambda>c. c\<lparr> c_slots := c_slots c + 1 \<rparr>)
                                               (connections st) \<rparr>
                in Returned (send st1 cid (PairingSlotCreated request_id handle display_code
                               capability (env_clock env 1 + ttl))))"

definition on_resolve_pairing_code ::
  "(string \<Rightarrow> digest) \<Rightarrow> relay_env \<Rightarrow> uuid \<Rightarrow> uuid \<Rightarrow> string \<Rightarrow> relay \<Rightarrow> relay outcome" where
  "on_resolve_pairing_code hash env cid request_id display_code st =
     (let now = env_clock env 0 in
      case hm_get cid (connections st) of
        None \<Rightarrow> Panicked
      | Some c \<Rightarrow>
          let recent = filter (\<lambda>t. t + 60 > now) (c_attempts c);
              st1 = st\<lparr> connections := hm_modify cid (\<lambda>c. c\<lparr> c_attempts := recent \<rparr>) (connections st) \<rparr>
          in if length recent \<ge> MAX_CODE_ATTEMPTS
             then Returned (reject st1 cid (Some request_id) ''rate_limited'')
             else
               let st2 = st\<lparr> connections := hm_modify cid (\<lambda>c. c\<lparr> c_attempts := recent @ [now] \<rparr>)
                                              (connections st) \<rparr>
               in case relay_normalize_pairing_code display_code of
                    None \<Rightarrow> Returned (reject st2 cid (Some request_id) ''invalid_code'')
                  | Some code \<Rightarrow>
                      (case find (\<lambda>s. s_code_hash s = hash code \<and> s_expires_at s > now)
                              (map snd (slots st2)) of
                         None \<Rightarrow> Returned (reject st2 cid (Some request_id) ''invalid_code'')
                       | Some s \<Rightarrow> Returned (send st2 cid
                           (PairingSlotResolved request_id (s_handle s) (s_rendezvous_public_key s)
                             (s_expires_at s)))))"

definition on_begin_pairing ::
  "(string \<Rightarrow> digest) \<Rightarrow> relay_env \<Rightarrow> uuid \<Rightarrow> uuid \<Rightarrow> uuid \<Rightarrow> string \<Rightarrow> digest \<Rightarrow> bytes \<Rightarrow> relay \<Rightarrow> relay outcome" where
  "on_begin_pairing hash env cid request_id pid slot_handle joiner_key encrypted_offer st =
     (if length encrypted_offer > MAX_PAIRING_BLOB_BYTES
      then Returned (reject st cid (Some request_id) ''blob_too_large'')
      else
        let slot_hash = hash slot_handle in
        case hm_get slot_hash (slots st) of
          None \<Rightarrow> Returned (reject st cid (Some request_id) ''invalid_slot'')
        | Some s \<Rightarrow>
            if s_expires_at s \<le> env_clock env 0 \<or> s_owner s = cid
            then Returned (reject st cid (Some request_id) ''invalid_slot'')
            else if hm_contains pid (bridges st)
            then Returned (reject st cid (Some request_id) ''duplicate_pairing'')
            else
              (case hm_get cid (connections st) of
                 None \<Rightarrow> Panicked
               | Some joiner \<Rightarrow>
                   if c_pairings joiner \<ge> MAX_PAIRINGS_PER_CONNECTION
                   then Returned (reject st cid (Some request_id) ''capacity'')
                   else
                     (case hm_get (s_owner s) (connections st) of
                        None \<Rightarrow> Panicked
                      | Some owner \<Rightarrow>
                          if c_pairings owner \<ge> MAX_PAIRINGS_PER_CONNECTION
                          then Returned (reject st cid (Some request_id) ''capacity'')
                          else
                            let owner_token = env_tokens env 0;
                                joiner_token = env_tokens env 1;
                                deadline = (\<lambda>i. env_clock env i + int BRIDGE_TTL);
                                conns1 = hm_modify (s_owner s) release_slot (connections st);
                                conns2 = hm_modify cid (\<lambda>c. c\<lparr> c_pairings := c_pairings c + 1 \<rparr>) conns1;
                                conns3 = hm_modify (s_owner s) (\<lambda>c. c\<lparr> c_pairings := c_pairings c + 1 \<rparr>) conns2;
                                st1 = st\<lparr> slots := hm_remove slot_hash (slots st),
                                          bridges := hm_insert pid
                                            \<lparr> b_owner = s_owner s, b_joiner = cid,
                                              b_owner_token_hash = hash owner_token,
                                              b_joiner_token_hash = hash joiner_token,
                                              b_slot_hash = slot_hash,
                                              b_expires_at = deadline 1 \<rparr> (bridges st),
                                          connections := conns3 \<rparr>;
                                st2 = send st1 (s_owner s)
                                        (PairingRequested pid (s_handle s) owner_token joiner_key
                                          encrypted_offer (deadline 2))
                            in Returned (send st2 cid
                                 (PairingStarted request_id pid joiner_token (deadline 3))))))"

definition on_accept_pairing ::
  "(string \<Rightarrow> digest) \<Rightarrow> uuid \<Rightarrow> uuid \<Rightarrow> string \<Rightarrow> bytes \<Rightarrow> relay \<Rightarrow> relay" where
  "on_accept_pairing hash cid pid side_token encrypted_response st =
     (case hm_get pid (bridges st) of
        None \<Rightarrow> st
      | Some b \<Rightarrow>
          if b_owner b = cid \<and> b_owner_token_hash b = hash side_token \<and>
             length encrypted_response \<le> MAX_PAIRING_BLOB_BYTES
          then send st (b_joiner b) (PairingAccepted pid encrypted_response)
          else st)"

definition on_reject_pairing :: "(string \<Rightarrow> digest) \<Rightarrow> uuid \<Rightarrow> uuid \<Rightarrow> string \<Rightarrow> relay \<Rightarrow> relay" where
  "on_reject_pairing hash cid pid side_token st =
     (if authorize_either hash (hm_get pid (bridges st)) cid side_token
      then finish_pairing pid (PairingRejected pid) st else st)"

definition on_pairing_committed :: "(string \<Rightarrow> digest) \<Rightarrow> uuid \<Rightarrow> uuid \<Rightarrow> string \<Rightarrow> relay \<Rightarrow> relay" where
  "on_pairing_committed hash cid pid side_token st =
     (if authorize hash (hm_get pid (bridges st)) cid side_token False
      then finish_pairing pid (PairingFinalized pid) st else st)"

definition on_pairing_finalized :: "(string \<Rightarrow> digest) \<Rightarrow> uuid \<Rightarrow> uuid \<Rightarrow> string \<Rightarrow> relay \<Rightarrow> relay" where
  "on_pairing_finalized hash cid pid side_token st =
     (if authorize hash (hm_get pid (bridges st)) cid side_token True
      then finish_pairing pid (PairingFinalized pid) st else st)"

definition on_cancel_pairing :: "(string \<Rightarrow> digest) \<Rightarrow> uuid \<Rightarrow> uuid \<Rightarrow> string \<Rightarrow> relay \<Rightarrow> relay" where
  "on_cancel_pairing hash cid pid side_token st =
     (if authorize_either hash (hm_get pid (bridges st)) cid side_token
      then finish_pairing pid (PairingCancelled pid) st else st)"

definition on_cancel_pairing_slot :: "(string \<Rightarrow> digest) \<Rightarrow> uuid \<Rightarrow> string \<Rightarrow> string \<Rightarrow> relay \<Rightarrow> relay" where
  "on_cancel_pairing_slot hash cid slot_handle slot_capability st =
     (case hm_get (hash slot_handle) (slots st) of
        None \<Rightarrow> st
      | Some s \<Rightarrow>
          if s_owner s = cid \<and> s_capability_hash s = hash slot_capability
          then st\<lparr> slots := hm_remove (hash slot_handle) (slots st),
                   connections := hm_modify cid release_slot (connections st) \<rparr>
          else st)"

fun dispatch_frame ::
  "(string \<Rightarrow> digest) \<Rightarrow> relay_env \<Rightarrow> uuid \<Rightarrow> client_frame \<Rightarrow> relay \<Rightarrow> relay outcome" where
  "dispatch_frame hash env cid Ping st = Returned (send st cid Pong)"
| "dispatch_frame hash env cid (CreatePairingSlot rid key ttl) st =
     on_create_pairing_slot hash env cid rid key ttl st"
| "dispatch_frame hash env cid (ResolvePairingCode rid code) st =
     on_resolve_pairing_code hash env cid rid code st"
| "dispatch_frame hash env cid (BeginPairing rid pid handle key offer) st =
     on_begin_pairing hash env cid rid pid handle key offer st"
| "dispatch_frame hash env cid (AcceptPairing pid token response) st =
     Returned (on_accept_pairing hash cid pid token response st)"
| "dispatch_frame hash env cid (RejectPairing pid token) st =
     Returned (on_reject_pairing hash cid pid token st)"
| "dispatch_frame hash env cid (ClientPairingCommitted pid token) st =
     Returned (on_pairing_committed hash cid pid token st)"
| "dispatch_frame hash env cid (ClientPairingFinalized pid token) st =
     Returned (on_pairing_finalized hash cid pid token st)"
| "dispatch_frame hash env cid (CancelPairing pid token) st =
     Returned (on_cancel_pairing hash cid pid token st)"
| "dispatch_frame hash env cid (CancelPairingSlot handle cap) st =
     Returned (on_cancel_pairing_slot hash cid handle cap st)"

definition process_frame ::
  "(string \<Rightarrow> digest) \<Rightarrow> relay_env \<Rightarrow> uuid \<Rightarrow> client_frame \<Rightarrow> relay \<Rightarrow> relay outcome" where
  "process_frame hash env cid frame st =
     (if \<not> hm_contains cid (connections st) then Returned st else dispatch_frame hash env cid frame st)"

section \<open>Connections and expiry\<close>

text \<open>Removing the bridges with the given ids, one after another.\<close>

fun drain_bridges :: "uuid list \<Rightarrow> (uuid \<times> bridge) list \<Rightarrow> bridge list \<times> (uuid \<times> bridge) list" where
  "drain_bridges [] bs = ([], bs)"
| "drain_bridges (i # is) bs =
     (let (rest, bs') = drain_bridges is (hm_remove i bs) in
      case hm_get i bs of None \<Rightarrow> (rest, bs') | Some b \<Rightarrow> (b # rest, bs'))"

fun release_pairings :: "bridge list \<Rightarrow> (uuid \<times> connection) list \<Rightarrow> (uuid \<times> connection) list" where
  "release_pairings [] conns = conns"
| "release_pairings (b # bs) conns =
     release_pairings bs (hm_modify (b_joiner b) release_pairing (hm_modify (b_owner b) release_pairing conns))"

definition on_connected :: "uuid \<Rightarrow> relay \<Rightarrow> relay" where
  "on_connected cid st =
     (if length (connections st) < MAX_CONNECTIONS
      then st\<lparr> connections := hm_insert cid
                 \<lparr> c_outbound = [], c_open = True, c_slots = 0, c_pairings = 0, c_attempts = [] \<rparr>
                 (connections st) \<rparr>
      else st)"

definition on_disconnected :: "uuid \<Rightarrow> relay \<Rightarrow> relay" where
  "on_disconnected cid st =
     (let conns1 = hm_remove cid (connections st);
          slots1 = filter (\<lambda>(k, s). s_owner s \<noteq> cid) (slots st);
          removed_ids = map fst (filter (\<lambda>(p, b). b_owner b = cid \<or> b_joiner b = cid) (bridges st));
          (removed, bridges1) = drain_bridges removed_ids (bridges st)
      in st\<lparr> connections := release_pairings removed conns1, slots := slots1, bridges := bridges1 \<rparr>)"

definition expire_state :: "int \<Rightarrow> relay \<Rightarrow> relay" where
  "expire_state now st =
     (let expired = length (filter (\<lambda>(k, s). s_expires_at s \<le> now) (slots st));
          slots1 = filter (\<lambda>(k, s). s_expires_at s > now) (slots st);
          expired_ids = map fst (filter (\<lambda>(p, b). b_expires_at b \<le> now) (bridges st));
          (removed, bridges1) = drain_bridges expired_ids (bridges st);
          m = relay_metrics st
      in st\<lparr> connections := release_pairings removed (connections st), slots := slots1,
             bridges := bridges1,
             relay_metrics := (if expired > 0 then m\<lparr> expired_slots := expired_slots m + expired \<rparr> else m) \<rparr>)"

fun map_outcome :: "('a \<Rightarrow> 'b) \<Rightarrow> 'a outcome \<Rightarrow> 'b outcome" where
  "map_outcome f (Returned x) = Returned (f x)"
| "map_outcome f Panicked = Panicked"
| "map_outcome f Diverged = Diverged"

fun handle_command :: "(string \<Rightarrow> digest) \<Rightarrow> relay_env \<Rightarrow> command \<Rightarrow> relay \<Rightarrow> relay outcome" where
  "handle_command hash env (Connected cid) st = Returned (sync_metrics (on_connected cid st))"
| "handle_command hash env (Disconnected cid) st = Returned (sync_metrics (on_disconnected cid st))"
| "handle_command hash env (Frame cid frame) st =
     map_outcome sync_metrics (process_frame hash env cid frame st)"

definition tick :: "int \<Rightarrow> relay \<Rightarrow> relay" where
  "tick now st = sync_metrics (expire_state now st)"

definition relay_start :: relay where
  "relay_start = \<lparr> connections = [], slots = [], bridges = [],
     relay_metrics = \<lparr> active_connections = 0, active_pairing_slots = 0,
       active_pairing_bridges = 0, rejected_frames = 0, expired_slots = 0 \<rparr> \<rparr>"

text \<open>The writer task of a connection takes the oldest queued frame, or stops and drops the channel.\<close>

definition writer_takes :: "uuid \<Rightarrow> relay \<Rightarrow> relay" where
  "writer_takes cid st =
     st\<lparr> connections := hm_modify cid (\<lambda>c. c\<lparr> c_outbound := tl (c_outbound c) \<rparr>) (connections st) \<rparr>"

definition writer_stops :: "uuid \<Rightarrow> relay \<Rightarrow> relay" where
  "writer_stops cid st =
     st\<lparr> connections := hm_modify cid (\<lambda>c. c\<lparr> c_outbound := [], c_open := False \<rparr>) (connections st) \<rparr>"

text \<open>The steps of the relay. A connection task announces itself once, with a fresh id.\<close>

inductive relay_step :: "(string \<Rightarrow> digest) \<Rightarrow> relay \<Rightarrow> relay \<Rightarrow> bool" for hash :: "string \<Rightarrow> digest" where
  step_connect: "\<not> hm_contains cid (connections st) \<Longrightarrow>
     handle_command hash env (Connected cid) st = Returned st' \<Longrightarrow> relay_step hash st st'"
| step_disconnect: "handle_command hash env (Disconnected cid) st = Returned st' \<Longrightarrow> relay_step hash st st'"
| step_frame: "handle_command hash env (Frame cid frame) st = Returned st' \<Longrightarrow> relay_step hash st st'"
| step_tick: "relay_step hash st (tick now st)"
| step_writer_takes: "relay_step hash st (writer_takes cid st)"
| step_writer_stops: "relay_step hash st (writer_stops cid st)"

definition relay_reachable :: "(string \<Rightarrow> digest) \<Rightarrow> relay \<Rightarrow> bool" where
  "relay_reachable hash = reachable (\<lambda>st. st = relay_start) (relay_step hash)"

section \<open>The invariant\<close>

definition involves :: "uuid \<Rightarrow> bridge \<Rightarrow> bool" where
  "involves cid b \<longleftrightarrow> b_owner b = cid \<or> b_joiner b = cid"

definition involved :: "uuid \<Rightarrow> (uuid \<times> bridge) list \<Rightarrow> nat" where
  "involved cid bs = length (filter (\<lambda>(p, b). involves cid b) bs)"

definition owned :: "uuid \<Rightarrow> (digest \<times> slot) list \<Rightarrow> nat" where
  "owned cid ss = length (filter (\<lambda>(k, s). s_owner s = cid) ss)"

definition conn_ok :: "(digest \<times> slot) list \<Rightarrow> (uuid \<times> bridge) list \<Rightarrow> uuid \<Rightarrow> connection \<Rightarrow> bool" where
  "conn_ok ss bs cid c \<longleftrightarrow>
     c_pairings c = involved cid bs \<and> c_pairings c \<le> MAX_PAIRINGS_PER_CONNECTION \<and>
     owned cid ss \<le> c_slots c \<and> c_slots c \<le> MAX_SLOTS_PER_CONNECTION \<and>
     length (c_attempts c) \<le> MAX_CODE_ATTEMPTS \<and> length (c_outbound c) \<le> OUTBOUND_CAPACITY"

definition keys_ok :: "uuid set \<Rightarrow> (digest \<times> slot) list \<Rightarrow> (uuid \<times> bridge) list \<Rightarrow> bool" where
  "keys_ok ids ss bs \<longleftrightarrow>
     list_all (\<lambda>(k, s). s_owner s \<in> ids) ss \<and>
     list_all (\<lambda>(p, b). b_owner b \<in> ids \<and> b_joiner b \<in> ids \<and> b_owner b \<noteq> b_joiner b) bs"

definition relay_inv :: "relay \<Rightarrow> bool" where
  "relay_inv st \<longleftrightarrow>
     distinct (map fst (connections st)) \<and> distinct (map fst (slots st)) \<and>
     distinct (map fst (bridges st)) \<and>
     distinct (map (\<lambda>(k, s). s_code_hash s) (slots st)) \<and>
     length (connections st) \<le> MAX_CONNECTIONS \<and> length (slots st) \<le> MAX_SLOTS \<and>
     keys_ok (fst ` set (connections st)) (slots st) (bridges st) \<and>
     list_all (\<lambda>(cid, c). conn_ok (slots st) (bridges st) cid c) (connections st)"

lemma relay_invI:
  assumes "distinct (map fst (connections st))" "distinct (map fst (slots st))"
    "distinct (map fst (bridges st))" "distinct (map (\<lambda>(k, s). s_code_hash s) (slots st))"
    "length (connections st) \<le> MAX_CONNECTIONS" "length (slots st) \<le> MAX_SLOTS"
    "keys_ok (fst ` set (connections st)) (slots st) (bridges st)"
    "\<And>cid c. (cid, c) \<in> set (connections st) \<Longrightarrow> conn_ok (slots st) (bridges st) cid c"
  shows "relay_inv st"
  using assms by (auto simp: relay_inv_def list_all_iff)

lemma relay_invD:
  assumes "relay_inv st"
  shows "distinct (map fst (connections st))" "distinct (map fst (slots st))"
    "distinct (map fst (bridges st))" "distinct (map (\<lambda>(k, s). s_code_hash s) (slots st))"
    "length (connections st) \<le> MAX_CONNECTIONS" "length (slots st) \<le> MAX_SLOTS"
    "keys_ok (fst ` set (connections st)) (slots st) (bridges st)"
    "\<And>cid c. (cid, c) \<in> set (connections st) \<Longrightarrow> conn_ok (slots st) (bridges st) cid c"
  using assms by (auto simp: relay_inv_def list_all_iff)

lemma keys_okD:
  assumes "keys_ok ids ss bs"
  shows "(k, s) \<in> set ss \<Longrightarrow> s_owner s \<in> ids"
    and "(p, b) \<in> set bs \<Longrightarrow> b_owner b \<in> ids \<and> b_joiner b \<in> ids \<and> b_owner b \<noteq> b_joiner b"
  using assms by (auto simp: keys_ok_def list_all_iff)

lemma keys_ok_subset:
  "keys_ok ids ss bs \<Longrightarrow> set ss' \<subseteq> set ss \<Longrightarrow> set bs' \<subseteq> set bs \<Longrightarrow> keys_ok ids ss' bs'"
  by (auto simp: keys_ok_def list_all_iff)

lemma relay_start_inv: "relay_inv relay_start"
  by (simp add: relay_inv_def relay_start_def keys_ok_def)

section \<open>Counting\<close>

lemma involved_simps [simp]:
  "involved cid [] = 0"
  "involved cid ((p, b) # bs) = (if involves cid b then 1 else 0) + involved cid bs"
  "involved cid (xs @ ys) = involved cid xs + involved cid ys"
  by (simp_all add: involved_def)

lemma owned_simps [simp]:
  "owned cid [] = 0"
  "owned cid ((k, s) # ss) = (if s_owner s = cid then 1 else 0) + owned cid ss"
  "owned cid (xs @ ys') = owned cid xs + owned cid ys'"
  by (simp_all add: owned_def)

lemma involved_split:
  "involved cid bs = involved cid (filter P bs) + involved cid (filter (\<lambda>x. \<not> P x) bs)"
  by (induction bs) auto

lemma owned_filter: "owned cid (filter P ss) \<le> owned cid ss"
  by (induction ss) auto

lemma involved_absent:
  "keys_ok ids ss bs \<Longrightarrow> cid \<notin> ids \<Longrightarrow> involved cid bs = 0 \<and> owned cid ss = 0"
  by (auto simp: involved_def owned_def involves_def keys_ok_def list_all_iff filter_empty_conv)

section \<open>Changes that keep the invariant\<close>

text \<open>An update of one connection that touches neither its counters nor the tables.\<close>

lemma inv_modify:
  assumes "relay_inv st"
    and "\<And>c. (cid, c) \<in> set (connections st) \<Longrightarrow> conn_ok (slots st) (bridges st) cid c \<Longrightarrow>
           conn_ok (slots st) (bridges st) cid (f c)"
  shows "relay_inv (st\<lparr> connections := hm_modify cid f (connections st) \<rparr>)"
proof (rule relay_invI)
  note d = relay_invD [OF assms(1)]
  show "keys_ok (fst ` set (connections (st\<lparr>connections := hm_modify cid f (connections st)\<rparr>)))
     (slots (st\<lparr>connections := hm_modify cid f (connections st)\<rparr>))
     (bridges (st\<lparr>connections := hm_modify cid f (connections st)\<rparr>))"
    using d(7) by simp
  show "conn_ok (slots (st\<lparr>connections := hm_modify cid f (connections st)\<rparr>))
     (bridges (st\<lparr>connections := hm_modify cid f (connections st)\<rparr>)) i c"
    if "(i, c) \<in> set (connections (st\<lparr>connections := hm_modify cid f (connections st)\<rparr>))" for i c
    using that d(8) assms(2) by (auto simp: hm_set_modify split: if_splits)
qed (use relay_invD [OF assms(1)] in simp_all)

lemma conn_ok_try_send: "conn_ok ss bs cid c \<Longrightarrow> conn_ok ss bs cid (try_send frame c)"
  by (simp add: conn_ok_def try_send_def)

lemma inv_send: "relay_inv st \<Longrightarrow> relay_inv (send st cid frame)"
  unfolding send_def by (rule inv_modify) (simp_all add: conn_ok_try_send)

lemma inv_metrics: "relay_inv (st\<lparr> relay_metrics := m \<rparr>) \<longleftrightarrow> relay_inv st"
  by (simp add: relay_inv_def)

lemma inv_reject: "relay_inv st \<Longrightarrow> relay_inv (reject st cid rid code)"
  unfolding reject_def by (rule inv_send) (simp add: inv_metrics)

lemma inv_sync: "relay_inv (sync_metrics st) \<longleftrightarrow> relay_inv st"
  by (simp add: sync_metrics_def inv_metrics)

lemma inv_writer_takes: "relay_inv st \<Longrightarrow> relay_inv (writer_takes cid st)"
  unfolding writer_takes_def by (rule inv_modify) (auto simp: conn_ok_def)

lemma inv_writer_stops: "relay_inv st \<Longrightarrow> relay_inv (writer_stops cid st)"
  unfolding writer_stops_def by (rule inv_modify) (auto simp: conn_ok_def)

text \<open>Dropping one slot and giving its owner the capacity back.\<close>

lemma inv_drop_slot:
  assumes "relay_inv st" and "hm_get k (slots st) = Some s"
  shows "relay_inv (st\<lparr> slots := hm_remove k (slots st),
                        connections := hm_modify (s_owner s) release_slot (connections st) \<rparr>)"
    (is "relay_inv ?st")
proof -
  note d = relay_invD [OF assms(1)]
  obtain xs ys where sp: "slots st = xs @ (k, s) # ys" "hm_remove k (slots st) = xs @ ys"
    using hm_split [OF d(2) assms(2)] by blast
  show ?thesis
  proof (rule relay_invI)
    show "keys_ok (fst ` set (connections ?st)) (slots ?st) (bridges ?st)"
      using keys_ok_subset [OF d(7) hm_set_remove subset_refl] by simp
    show "conn_ok (slots ?st) (bridges ?st) i c" if m: "(i, c) \<in> set (connections ?st)" for i c
    proof -
      obtain c0 where c0: "(i, c0) \<in> set (connections st)"
        and c: "c = (if i = s_owner s then release_slot c0 else c0)"
        using m by (auto simp: hm_set_modify)
      have "owned i (slots st) = (if s_owner s = i then 1 else 0) + owned i (hm_remove k (slots st))"
        by (subst sp(2), subst sp(1)) simp
      with d(8) [OF c0] show ?thesis
        by (auto simp: c conn_ok_def release_slot_def split: if_splits)
    qed
    show "distinct (map fst (slots ?st))" using d(2) by simp
    show "distinct (map (\<lambda>(k, s). s_code_hash s) (slots ?st))"
      using d(4) by (simp add: sp(2)) (simp add: sp(1))
    show "length (slots ?st) \<le> MAX_SLOTS" using d(6) le_trans [OF hm_length_remove] by simp
  qed (use d in simp_all)
qed


text \<open>Removing bridges and giving both sides the capacity back.\<close>

lemma drain_bridges_eq:
  assumes "distinct (map fst bs)"
  shows "drain_bridges (map fst (filter P bs)) bs = (map snd (filter P bs), filter (\<lambda>x. \<not> P x) bs)"
proof -
  have "drain_bridges (map fst (filter P ys)) (filter (\<lambda>x. \<not> P x) xs @ ys) =
      (map snd (filter P ys), filter (\<lambda>x. \<not> P x) (xs @ ys))"
    if "distinct (map fst (xs @ ys))" for xs ys :: "(uuid \<times> bridge) list"
    using that
  proof (induction ys arbitrary: xs)
    case (Cons y ys)
    obtain p b where y: "y = (p, b)" by fastforce
    let ?xs = "filter (\<lambda>x. \<not> P x) xs"
    have d: "distinct (map fst ((xs @ [y]) @ ys))" using Cons.prems by simp
    have fx: "p \<notin> fst ` set ?xs" "p \<notin> fst ` set ys" using Cons.prems by (auto simp: y)
    have rem: "hm_remove p (?xs @ y # ys) = ?xs @ ys"
      using fx hm_remove_fresh [of p ?xs] hm_remove_fresh [of p ys]
      by (simp add: hm_get_None_iff hm_remove_append y)
    have "map_of ?xs p = None" using fx(1) by (simp only: map_of_eq_None_iff not_False_eq_True)
    then have get: "hm_get p (?xs @ y # ys) = Some b"
      by (simp add: hm_get_def y map_add_def)
    show ?case
    proof (cases "P y")
      case True
      with Cons.IH [OF d] rem get show ?thesis by (simp add: y)
    next
      case False
      with Cons.IH [OF d] show ?thesis by simp
    qed
  qed simp
  from this [of "[]" bs] assms show ?thesis by simp
qed

lemma release_pairings_eq:
  assumes "list_all (\<lambda>b. b_owner b \<noteq> b_joiner b) bs"
  shows "release_pairings bs conns =
    map (\<lambda>(cid, c). (cid, c\<lparr> c_pairings := c_pairings c - length (filter (involves cid) bs) \<rparr>)) conns"
  using assms
proof (induction bs arbitrary: conns)
  case Nil
  then show ?case by (simp add: case_prod_beta)
next
  case (Cons b bs)
  then show ?case
    by (auto simp: hm_modify_def release_pairing_def involves_def comp_def)
qed

lemma involved_map: "length (filter (involves cid) (map snd bs)) = involved cid bs"
  by (induction bs) (auto simp: involved_def case_prod_beta)

lemma inv_drop_bridges:
  assumes "relay_inv st"
  shows "relay_inv (st\<lparr> bridges := filter (\<lambda>x. \<not> P x) (bridges st),
     connections := release_pairings (map snd (filter P (bridges st))) (connections st) \<rparr>)"
    (is "relay_inv ?st")
proof -
  note d = relay_invD [OF assms]
  have l: "list_all (\<lambda>b. b_owner b \<noteq> b_joiner b) (map snd (filter P (bridges st)))"
    using keys_okD(2) [OF d(7)] by (auto simp: list_all_iff)
  have rel: "release_pairings (map snd (filter P (bridges st))) (connections st) =
      map (\<lambda>(i, c). (i, c\<lparr> c_pairings := c_pairings c - involved i (filter P (bridges st)) \<rparr>)) (connections st)"
    using release_pairings_eq [OF l] by (simp only: involved_map)
  have keys: "map fst (connections ?st) = map fst (connections st)"
    by (simp add: rel case_prod_beta comp_def)
  show ?thesis
  proof (rule relay_invI)
    have "fst ` set (connections ?st) = fst ` set (connections st)"
      by (metis keys list.set_map)
    then show "keys_ok (fst ` set (connections ?st)) (slots ?st) (bridges ?st)"
      using keys_ok_subset [OF d(7) subset_refl, of "bridges ?st"] by auto
    show "conn_ok (slots ?st) (bridges ?st) i c" if m: "(i, c) \<in> set (connections ?st)" for i c
    proof -
      obtain c0 where c0: "(i, c0) \<in> set (connections st)"
        and c: "c = c0\<lparr> c_pairings := c_pairings c0 - involved i (filter P (bridges st)) \<rparr>"
        using m by (auto simp: rel)
      with d(8) [OF c0] involved_split [of i "bridges st" P] show ?thesis
        by (simp add: conn_ok_def)
    qed
    show "distinct (map fst (connections ?st))" using d(1) keys by simp
    show "distinct (map fst (bridges ?st))" using d(3) by (simp add: distinct_map_filter)
    show "length (connections ?st) \<le> MAX_CONNECTIONS" using d(5) by (simp add: rel)
  qed (use d in simp_all)
qed

lemma inv_filter_slots:
  assumes "relay_inv st"
  shows "relay_inv (st\<lparr> slots := filter P (slots st) \<rparr>)"
proof (rule relay_invI)
  note d = relay_invD [OF assms]
  show "keys_ok (fst ` set (connections (st\<lparr>slots := filter P (slots st)\<rparr>)))
     (slots (st\<lparr>slots := filter P (slots st)\<rparr>)) (bridges (st\<lparr>slots := filter P (slots st)\<rparr>))"
    using keys_ok_subset [OF d(7), of "filter P (slots st)" "bridges st"] by auto
  show "conn_ok (slots (st\<lparr>slots := filter P (slots st)\<rparr>)) (bridges (st\<lparr>slots := filter P (slots st)\<rparr>)) i c"
    if "(i, c) \<in> set (connections (st\<lparr>slots := filter P (slots st)\<rparr>))" for i c
    using d(8) that owned_filter [of i P "slots st"] by (fastforce simp: conn_ok_def)
  show "length (slots (st\<lparr>slots := filter P (slots st)\<rparr>)) \<le> MAX_SLOTS"
    using d(6) le_trans [OF length_filter_le] by simp
qed (use relay_invD [OF assms] in \<open>simp_all add: distinct_map_filter\<close>)

lemma inv_remove_connection:
  assumes "relay_inv st" and "owned cid (slots st) = 0" and "involved cid (bridges st) = 0"
  shows "relay_inv (st\<lparr> connections := hm_remove cid (connections st) \<rparr>)"
proof (rule relay_invI)
  note d = relay_invD [OF assms(1)]
  have k: "fst ` set (hm_remove cid (connections st)) = fst ` set (connections st) - {cid}"
    by (force simp: hm_remove_def)
  have "s_owner s \<noteq> cid" if "(k, s) \<in> set (slots st)" for k s
    using assms(2) that by (auto simp: owned_def filter_empty_conv)
  moreover have "\<not> involves cid b" if "(p, b) \<in> set (bridges st)" for p b
    using assms(3) that by (auto simp: involved_def filter_empty_conv)
  ultimately show "keys_ok (fst ` set (connections (st\<lparr>connections := hm_remove cid (connections st)\<rparr>)))
     (slots (st\<lparr>connections := hm_remove cid (connections st)\<rparr>))
     (bridges (st\<lparr>connections := hm_remove cid (connections st)\<rparr>))"
    using keys_okD [OF d(7)] k by (fastforce simp: keys_ok_def list_all_iff involves_def)
  show "length (connections (st\<lparr>connections := hm_remove cid (connections st)\<rparr>)) \<le> MAX_CONNECTIONS"
    using d(5) le_trans [OF hm_length_remove] by simp
  show "conn_ok (slots (st\<lparr>connections := hm_remove cid (connections st)\<rparr>))
     (bridges (st\<lparr>connections := hm_remove cid (connections st)\<rparr>)) i c"
    if "(i, c) \<in> set (connections (st\<lparr>connections := hm_remove cid (connections st)\<rparr>))" for i c
    using d(8) that hm_set_remove by fastforce
qed (use relay_invD [OF assms(1)] in simp_all)

section \<open>Every operation keeps the invariant\<close>

lemma hm_remove_release: "hm_remove k (release_pairings bs m) = release_pairings bs (hm_remove k m)"
  by (induction bs arbitrary: m) (simp_all add: hm_remove_modify)

lemma inv_connected:
  assumes "relay_inv st" and "\<not> hm_contains cid (connections st)"
  shows "relay_inv (on_connected cid st)"
proof -
  note d = relay_invD [OF assms(1)]
  let ?c = "\<lparr> c_outbound = [], c_open = True, c_slots = 0, c_pairings = 0, c_attempts = [] \<rparr>"
  have n: "hm_get cid (connections st) = None" using assms(2) by (simp add: hm_contains_def)
  then have a: "cid \<notin> fst ` set (connections st)" by (simp add: hm_get_None_iff)
  from involved_absent [OF d(7) a] have z: "involved cid (bridges st) = 0" "owned cid (slots st) = 0"
    by simp_all
  have "relay_inv (st\<lparr> connections := hm_insert cid ?c (connections st) \<rparr>)"
    if "length (connections st) < MAX_CONNECTIONS"
    by (rule relay_invI)
      (use d that a z in \<open>auto simp: hm_insert_fresh [OF n] conn_ok_def keys_ok_def list_all_iff\<close>)
  then show ?thesis using assms(1) by (simp add: on_connected_def)
qed

lemma inv_disconnected:
  assumes "relay_inv st"
  shows "relay_inv (on_disconnected cid st)"
proof -
  note d = relay_invD [OF assms]
  let ?P = "\<lambda>(p :: uuid, b). b_owner b = cid \<or> b_joiner b = cid"
  let ?st1 = "st\<lparr> bridges := filter (\<lambda>x. \<not> ?P x) (bridges st),
     connections := release_pairings (map snd (filter ?P (bridges st))) (connections st) \<rparr>"
  let ?st2 = "?st1\<lparr> slots := filter (\<lambda>(k, s). s_owner s \<noteq> cid) (slots ?st1) \<rparr>"
  have "relay_inv ?st2" using inv_filter_slots [OF inv_drop_bridges [OF assms]] by simp
  moreover have "owned cid (slots ?st2) = 0" "involved cid (bridges ?st2) = 0"
    by (auto simp: owned_def involved_def involves_def filter_empty_conv)
  ultimately have "relay_inv (?st2\<lparr> connections := hm_remove cid (connections ?st2) \<rparr>)"
    by (rule inv_remove_connection)
  moreover have "on_disconnected cid st = ?st2\<lparr> connections := hm_remove cid (connections ?st2) \<rparr>"
    by (simp add: on_disconnected_def Let_def drain_bridges_eq [OF d(3)] hm_remove_release)
  ultimately show ?thesis by simp
qed

lemma inv_expire:
  assumes "relay_inv st"
  shows "relay_inv (expire_state now st)"
proof -
  note d = relay_invD [OF assms]
  let ?P = "\<lambda>(p :: uuid, b). b_expires_at b \<le> now"
  let ?st1 = "st\<lparr> bridges := filter (\<lambda>x. \<not> ?P x) (bridges st),
     connections := release_pairings (map snd (filter ?P (bridges st))) (connections st) \<rparr>"
  have "relay_inv (?st1\<lparr> slots := filter (\<lambda>(k, s). s_expires_at s > now) (slots ?st1) \<rparr>)"
    by (rule inv_filter_slots [OF inv_drop_bridges [OF assms]])
  then show ?thesis
    by (simp add: expire_state_def Let_def drain_bridges_eq [OF d(3)] relay_inv_def)
qed

lemma inv_finish:
  assumes "relay_inv st"
  shows "relay_inv (finish_pairing pid frame st)"
proof (cases "hm_get pid (bridges st)")
  case None
  then show ?thesis using assms by (simp add: finish_pairing_def)
next
  case (Some b)
  note d = relay_invD [OF assms]
  let ?st1 = "st\<lparr> bridges := hm_remove pid (bridges st),
     connections := hm_modify (b_joiner b) release_pairing (hm_modify (b_owner b) release_pairing (connections st)) \<rparr>"
  let ?st2 = "send (send ?st1 (b_owner b) frame) (b_joiner b) frame"
  have "relay_inv ?st1"
    using inv_drop_bridges [OF assms, of "\<lambda>(p, b). p = pid"]
    by (simp add: hm_filter_key [OF d(3) Some] hm_remove_filter)
  then have i: "relay_inv ?st2" by (intro inv_send)
  show ?thesis
  proof (cases "hm_get (b_slot_hash b) (slots ?st2)")
    case None
    then show ?thesis using Some i by (simp add: finish_pairing_def Let_def)
  next
    case s: (Some s)
    then show ?thesis
      using Some inv_drop_slot [OF i s] by (simp add: finish_pairing_def Let_def)
  qed
qed

lemma inv_cancel_slot: "relay_inv st \<Longrightarrow> relay_inv (on_cancel_pairing_slot hash cid handle cap st)"
  using inv_drop_slot [of st "hash handle"]
  by (auto simp: on_cancel_pairing_slot_def split: option.splits)

lemma owned_insert: "owned i (hm_insert k s ss) \<le> owned i ss + (if s_owner s = i then 1 else 0)"
  by (induction ss) (auto simp: hm_insert_def split: if_splits)

lemma code_hash_insert_subset:
  "set (map (\<lambda>(k, s). s_code_hash s) (hm_insert k s ss)) \<subseteq>
     insert (s_code_hash s) (set (map (\<lambda>(k, s). s_code_hash s) ss))"
  by (induction ss) (auto simp: hm_insert_def)

lemma code_hash_insert_distinct:
  assumes "distinct (map (\<lambda>(k, s). s_code_hash s) ss)"
    and "s_code_hash s \<notin> set (map (\<lambda>(k, s). s_code_hash s) ss)"
  shows "distinct (map (\<lambda>(k, s). s_code_hash s) (hm_insert k s ss))"
  using assms
proof (induction ss)
  case (Cons x ss)
  obtain j t where x: "x = (j, t)" by fastforce
  show ?case
  proof (cases "j = k")
    case True
    then show ?thesis using Cons.prems by (simp add: hm_insert_def x)
  next
    case False
    have "s_code_hash t \<notin> set (map (\<lambda>(k, s). s_code_hash s) (hm_insert k s ss))"
      using Cons.prems by (intro contra_subsetD [OF code_hash_insert_subset]) (auto simp: x)
    with False Cons show ?thesis by (simp add: hm_insert_def x)
  qed
qed (simp add: hm_insert_def)

lemma inv_add_slot:
  assumes "relay_inv st" and "hm_get cid (connections st) = Some c0"
    and "c_slots c0 < MAX_SLOTS_PER_CONNECTION" and "length (slots st) < MAX_SLOTS"
    and "s_owner s = cid" and "s_code_hash s \<notin> set (map (\<lambda>(k, s). s_code_hash s) (slots st))"
  shows "relay_inv (st\<lparr> slots := hm_insert k s (slots st),
           connections := hm_modify cid (\<lambda>c. c\<lparr> c_slots := c_slots c + 1 \<rparr>) (connections st) \<rparr>)"
    (is "relay_inv ?st")
proof -
  note d = relay_invD [OF assms(1)]
  have mem: "(cid, c0) \<in> set (connections st)" using assms(2) by (rule hm_get_in)
  then have uniq: "c = c0" if "(cid, c) \<in> set (connections st)" for c
    using that d(1) by (metis eq_key_imp_eq_value)
  show ?thesis
  proof (rule relay_invI)
    have c: "cid \<in> fst ` set (connections st)" using mem by force
    have "s_owner s' \<in> fst ` set (connections st)" if "(k', s') \<in> set (hm_insert k s (slots st))" for k' s'
    proof -
      have "(k', s') = (k, s) \<or> (k', s') \<in> set (slots st)" using that hm_set_insert by fast
      with keys_okD(1) [OF d(7)] c assms(5) show ?thesis by blast
    qed
    with d(7) show "keys_ok (fst ` set (connections ?st)) (slots ?st) (bridges ?st)"
      by (auto simp: keys_ok_def list_all_iff)
    show "conn_ok (slots ?st) (bridges ?st) i c" if m: "(i, c) \<in> set (connections ?st)" for i c
    proof -
      obtain c1 where c1: "(i, c1) \<in> set (connections st)"
        and c: "c = (if i = cid then c1\<lparr> c_slots := c_slots c1 + 1 \<rparr> else c1)"
        using m by (auto simp: hm_set_modify)
      have "i = cid \<Longrightarrow> c1 = c0" using uniq c1 by blast
      then show ?thesis
        using d(8) [OF c1] owned_insert [of i k s "slots st"] assms(3,5)
        by (auto simp: c conn_ok_def)
    qed
    show "length (slots ?st) \<le> MAX_SLOTS" using hm_length_insert [of k s "slots st"] assms(4) by simp
    show "distinct (map (\<lambda>(k, s). s_code_hash s) (slots ?st))"
      using code_hash_insert_distinct [OF d(4) assms(6)] by simp
  qed (use d in simp_all)
qed

lemma inv_add_bridge:
  assumes "relay_inv st" and "hm_get pid (bridges st) = None" and "b_owner b \<noteq> b_joiner b"
    and "hm_get (b_owner b) (connections st) = Some co" "c_pairings co < MAX_PAIRINGS_PER_CONNECTION"
    and "hm_get (b_joiner b) (connections st) = Some cj" "c_pairings cj < MAX_PAIRINGS_PER_CONNECTION"
  shows "relay_inv (st\<lparr> bridges := hm_insert pid b (bridges st),
           connections := hm_modify (b_owner b) (\<lambda>c. c\<lparr> c_pairings := c_pairings c + 1 \<rparr>)
             (hm_modify (b_joiner b) (\<lambda>c. c\<lparr> c_pairings := c_pairings c + 1 \<rparr>) (connections st)) \<rparr>)"
    (is "relay_inv ?st")
proof -
  note d = relay_invD [OF assms(1)]
  note ins = hm_insert_fresh [OF assms(2)]
  note mem = hm_get_in [OF assms(4)] hm_get_in [OF assms(6)]
  have uniq: "x = y" if "(i, x) \<in> set (connections st)" "(i, y) \<in> set (connections st)" for i x y
    using that d(1) by (metis eq_key_imp_eq_value)
  show ?thesis
  proof (rule relay_invI)
    have "b_owner b \<in> fst ` set (connections st)" "b_joiner b \<in> fst ` set (connections st)"
      using mem by force+
    then show "keys_ok (fst ` set (connections ?st)) (slots ?st) (bridges ?st)"
      using d(7) assms(3) by (simp add: keys_ok_def ins)
    show "conn_ok (slots ?st) (bridges ?st) i c" if m: "(i, c) \<in> set (connections ?st)" for i c
    proof -
      obtain c1 where c1: "(i, c1) \<in> set (connections st)"
        and c: "c = (if involves i b then c1\<lparr> c_pairings := c_pairings c1 + 1 \<rparr> else c1)"
        using m assms(3) by (auto simp: hm_set_modify involves_def split: if_splits)
      have "involves i b \<Longrightarrow> c1 = co \<or> c1 = cj" using uniq c1 mem by (auto simp: involves_def)
      then show ?thesis
        using d(8) [OF c1] assms(5,7) by (auto simp: c conn_ok_def ins)
    qed
    show "distinct (map fst (bridges ?st))" using d(3) by simp
  qed (use d in simp_all)
qed

lemma find_code_fresh:
  assumes "find_code hash slts codes n = Some code"
  shows "hash code \<notin> set (map (\<lambda>(k, s). s_code_hash s) slts)"
proof (rule find_code.raw_induct [OF _ assms])
  fix f hash slts codes n code
  assume ih: "\<And>h ss cs m y. f h ss cs m = Some y \<Longrightarrow> h y \<notin> set (map (\<lambda>(k, s). s_code_hash s) ss)"
    and eq: "(if \<not> list_ex (\<lambda>(k, s). s_code_hash s = hash (codes n)) slts then Some (codes n)
          else f hash slts codes (Suc n)) = Some code"
  show "hash code \<notin> set (map (\<lambda>(k, s). s_code_hash s) slts)"
  proof (cases "list_ex (\<lambda>(k, s). s_code_hash s = hash (codes n)) slts")
    case True
    with eq have "f hash slts codes (Suc n) = Some code" by simp
    then show ?thesis by (rule ih)
  next
    case False
    then show ?thesis using eq by (auto simp: list_ex_iff)
  qed
qed

text \<open>The search ends at the first unused candidate.\<close>

lemma find_code_ends:
  assumes "hash (codes m) \<notin> set (map (\<lambda>(k, s). s_code_hash s) slts)" and "n \<le> m"
  shows "\<exists>code. find_code hash slts codes n = Some code"
  using assms(2)
proof (induction "m - n" arbitrary: n)
  case 0
  then have "n = m" by simp
  with assms(1) have "\<not> list_ex (\<lambda>(k, s). s_code_hash s = hash (codes n)) slts"
    by (force simp: list_ex_iff)
  then show ?case by (subst find_code.simps) simp
next
  case (Suc d)
  show ?case
  proof (cases "list_ex (\<lambda>(k, s). s_code_hash s = hash (codes n)) slts")
    case True
    have "d = m - Suc n" "Suc n \<le> m" using Suc.hyps(2) by simp_all
    from Suc.hyps(1) [OF this] True show ?thesis by (subst find_code.simps) simp
  next
    case False
    then show ?thesis by (subst find_code.simps) simp
  qed
qed

text \<open>Handlers never panic in a state that satisfies the invariant, and keep it.\<close>

definition keeps_inv :: "relay outcome \<Rightarrow> bool" where
  "keeps_inv r \<longleftrightarrow> (case r of Returned st \<Rightarrow> relay_inv st | Panicked \<Rightarrow> False | Diverged \<Rightarrow> True)"

lemma keeps_create:
  assumes "relay_inv st" and "hm_contains cid (connections st)"
  shows "keeps_inv (on_create_pairing_slot hash env cid rid key ttl st)"
proof -
  from assms(2) obtain c where c: "hm_get cid (connections st) = Some c" by (auto simp: hm_contains_def)
  show ?thesis
  proof (cases "c_slots c \<ge> MAX_SLOTS_PER_CONNECTION \<or> length (slots st) \<ge> MAX_SLOTS")
    case True
    then show ?thesis using c assms(1) by (simp add: on_create_pairing_slot_def keeps_inv_def inv_reject)
  next
    case False
    show ?thesis
    proof (cases "find_code hash (slots st) (env_codes env) 0")
      case None
      then show ?thesis using c False by (simp add: on_create_pairing_slot_def keeps_inv_def Let_def)
    next
      case (Some code)
      let ?s = "\<lparr> s_owner = cid, s_handle = env_tokens env 0,
         s_capability_hash = hash (env_tokens env 1), s_code_hash = hash code,
         s_rendezvous_public_key = key,
         s_expires_at = env_clock env 0 + int (max 10 (min ttl SLOT_TTL)) \<rparr>"
      have "relay_inv (st\<lparr> slots := hm_insert (hash (env_tokens env 0)) ?s (slots st),
           connections := hm_modify cid (\<lambda>c. c\<lparr> c_slots := c_slots c + 1 \<rparr>) (connections st) \<rparr>)"
        by (rule inv_add_slot [OF assms(1) c])
          (use False find_code_fresh [OF Some] in simp_all)
      then show ?thesis
        using c Some False by (simp add: on_create_pairing_slot_def keeps_inv_def Let_def inv_send)
    qed
  qed
qed

lemma keeps_resolve:
  assumes "relay_inv st" and "hm_contains cid (connections st)"
  shows "keeps_inv (on_resolve_pairing_code hash env cid rid code st)"
proof -
  from assms(2) obtain c where c: "hm_get cid (connections st) = Some c" by (auto simp: hm_contains_def)
  let ?now = "env_clock env 0"
  let ?recent = "filter (\<lambda>t. t + 60 > ?now) (c_attempts c)"
  have upd: "relay_inv (st\<lparr> connections := hm_modify cid (\<lambda>c. c\<lparr> c_attempts := xs \<rparr>) (connections st) \<rparr>)"
    if "length xs \<le> MAX_CODE_ATTEMPTS" for xs
    using that by (intro inv_modify [OF assms(1)]) (simp add: conn_ok_def)
  have "length (c_attempts c) \<le> MAX_CODE_ATTEMPTS"
    using relay_invD(8) [OF assms(1) hm_get_in [OF c]] by (simp add: conn_ok_def)
  then have r: "length ?recent \<le> MAX_CODE_ATTEMPTS"
    using le_trans [OF length_filter_le] by blast
  show ?thesis
    using c upd [OF r] upd [of "?recent @ [?now]"] r
    by (auto simp: on_resolve_pairing_code_def keeps_inv_def Let_def inv_reject inv_send
        split: option.splits)
qed

lemma keeps_begin:
  assumes "relay_inv st" and "hm_contains cid (connections st)"
  shows "keeps_inv (on_begin_pairing hash env cid rid pid handle key offer st)"
proof (cases "hm_get (hash handle) (slots st)")
  case None
  then show ?thesis
    using assms(1) by (simp add: on_begin_pairing_def keeps_inv_def Let_def inv_reject)
next
  case (Some s)
  note d = relay_invD [OF assms(1)]
  from assms(2) obtain cj where cj: "hm_get cid (connections st) = Some cj" by (auto simp: hm_contains_def)
  have "s_owner s \<in> fst ` set (connections st)" by (rule keys_okD(1) [OF d(7) hm_get_in [OF Some]])
  then obtain co where co: "hm_get (s_owner s) (connections st) = Some co"
    by (metis hm_get_None_iff option.exhaust)
  show ?thesis
  proof (cases "length offer > MAX_PAIRING_BLOB_BYTES \<or> s_expires_at s \<le> env_clock env 0 \<or> s_owner s = cid \<or>
      hm_contains pid (bridges st) \<or> c_pairings cj \<ge> MAX_PAIRINGS_PER_CONNECTION \<or>
      c_pairings co \<ge> MAX_PAIRINGS_PER_CONNECTION")
    case True
    then show ?thesis
      using Some cj co assms(1)
      by (auto simp: on_begin_pairing_def keeps_inv_def Let_def inv_reject)
  next
    case False
    let ?st1 = "st\<lparr> slots := hm_remove (hash handle) (slots st),
       connections := hm_modify (s_owner s) release_slot (connections st) \<rparr>"
    let ?b = "\<lparr> b_owner = s_owner s, b_joiner = cid, b_owner_token_hash = hash (env_tokens env 0),
       b_joiner_token_hash = hash (env_tokens env 1), b_slot_hash = hash handle,
       b_expires_at = env_clock env 1 + int BRIDGE_TTL \<rparr>"
    have i1: "relay_inv ?st1" by (rule inv_drop_slot [OF assms(1) Some])
    have "relay_inv (?st1\<lparr> bridges := hm_insert pid ?b (bridges ?st1),
           connections := hm_modify (b_owner ?b) (\<lambda>c. c\<lparr> c_pairings := c_pairings c + 1 \<rparr>)
             (hm_modify (b_joiner ?b) (\<lambda>c. c\<lparr> c_pairings := c_pairings c + 1 \<rparr>) (connections ?st1)) \<rparr>)"
      by (rule inv_add_bridge [OF i1, where co = "release_slot co" and cj = cj])
        (use False cj co in \<open>auto simp: hm_contains_def release_slot_def\<close>)
    then show ?thesis
      using Some cj co False
      by (simp add: on_begin_pairing_def keeps_inv_def Let_def)
        (intro inv_send; simp)
  qed
qed

lemma keeps_frame: "relay_inv st \<Longrightarrow> keeps_inv (process_frame hash env cid frame st)"
  using keeps_create keeps_resolve keeps_begin
  by (cases frame)
    (auto simp: process_frame_def keeps_inv_def inv_send inv_finish inv_cancel_slot
      on_accept_pairing_def on_reject_pairing_def on_pairing_committed_def on_pairing_finalized_def
      on_cancel_pairing_def split: option.splits)

lemma keeps_command:
  assumes "relay_inv st" and "\<And>cid. cmd = Connected cid \<Longrightarrow> \<not> hm_contains cid (connections st)"
  shows "keeps_inv (handle_command hash env cmd st)"
proof (cases cmd)
  case (Connected cid)
  then show ?thesis using assms inv_connected [of st cid] by (simp add: keeps_inv_def inv_sync)
next
  case (Disconnected cid)
  then show ?thesis using assms(1) by (simp add: keeps_inv_def inv_sync inv_disconnected)
next
  case (Frame cid frame)
  then show ?thesis
    using keeps_frame [OF assms(1), of hash env cid frame]
    by (cases "process_frame hash env cid frame st") (auto simp: keeps_inv_def inv_sync)
qed

lemma relay_step_inv:
  assumes "relay_inv st" and "relay_step hash st st'"
  shows "relay_inv st'"
  using assms(2)
proof (cases rule: relay_step.cases)
  case (step_connect cid env)
  with keeps_command [OF assms(1), of "Connected cid" hash env] show ?thesis
    by (simp add: keeps_inv_def)
next
  case (step_disconnect env cid)
  with keeps_command [OF assms(1), of "Disconnected cid" hash env] show ?thesis
    by (simp add: keeps_inv_def)
next
  case (step_frame env cid frame)
  with keeps_command [OF assms(1), of "Frame cid frame" hash env] show ?thesis
    by (simp add: keeps_inv_def)
next
  case (step_tick now)
  then show ?thesis using assms(1) by (simp add: tick_def inv_sync inv_expire)
qed (use assms(1) in \<open>simp_all add: inv_writer_takes inv_writer_stops\<close>)

interpretation relay_system: invariant_system "\<lambda>st. st = relay_start" "relay_step hash" relay_inv for hash
  by unfold_locales (auto simp: relay_start_inv intro: relay_step_inv)

lemma relay_reachable_inv: "relay_reachable hash st \<Longrightarrow> relay_inv st"
  unfolding relay_reachable_def by (rule relay_system.reachable_inv)

section \<open>The number of bridges\<close>

lemma sum_involved:
  assumes "distinct ids"
    and "list_all (\<lambda>(p, b). b_owner b \<in> set ids \<and> b_joiner b \<in> set ids \<and> b_owner b \<noteq> b_joiner b) bs"
  shows "sum_list (map (\<lambda>i. involved i bs) ids) = 2 * length bs"
  using assms(2)
proof (induction bs)
  case Nil
  then show ?case by simp
next
  case (Cons x bs)
  obtain p b where x: "x = (p, b)" by fastforce
  have s: "sum_list (map (\<lambda>i. if involves i b then 1 else 0 :: nat) ids) = 2"
  proof -
    have "sum_list (map (\<lambda>i. if involves i b then 1 else 0 :: nat) ids) =
        (\<Sum>i\<in>set ids. if involves i b then 1 else 0)"
      using assms(1) by (simp add: sum_list_distinct_conv_sum_set)
    also have "\<dots> = card {i \<in> set ids. involves i b}"
      by (simp add: sum.If_cases Collect_conj_eq Int_commute)
    also have "{i \<in> set ids. involves i b} = {b_owner b, b_joiner b}"
      using Cons.prems by (auto simp: x involves_def)
    finally show ?thesis using Cons.prems by (simp add: x)
  qed
  have "sum_list (map (\<lambda>i. involved i (x # bs)) ids) =
      sum_list (map (\<lambda>i. if involves i b then 1 else 0 :: nat) ids) + sum_list (map (\<lambda>i. involved i bs) ids)"
    by (simp add: x sum_list_addf)
  with s Cons show ?case by simp
qed

lemma bridges_bound:
  assumes "relay_inv st"
  shows "length (bridges st) \<le> length (connections st)"
proof -
  note d = relay_invD [OF assms]
  have "2 * length (bridges st) = sum_list (map (\<lambda>i. involved i (bridges st)) (map fst (connections st)))"
    using d(1,7) by (subst sum_involved) (auto simp: keys_ok_def list_all_iff)
  also have "\<dots> \<le> sum_list (map (\<lambda>_. 2) (map fst (connections st)))"
    using d(8) by (intro sum_list_mono) (fastforce simp: conn_ok_def MAX_PAIRINGS_PER_CONNECTION_def)
  also have "\<dots> = 2 * length (connections st)"
    by (simp add: comp_def sum_list_triv)
  finally show ?thesis by simp
qed

section \<open>The code search\<close>

lemma find_code_returns:
  assumes "inj_on (\<lambda>i. hash (codes i)) {..<MAX_SLOTS}" and "length slts < MAX_SLOTS"
  shows "\<exists>code. find_code hash slts codes 0 = Some code"
proof -
  let ?used = "set (map (\<lambda>(k, s). s_code_hash s) slts)"
  have "card ?used \<le> length slts" by (metis card_length length_map)
  also have "\<dots> < card ((\<lambda>i. hash (codes i)) ` {..<MAX_SLOTS})"
    using assms by (simp add: card_image)
  finally have "\<not> (\<lambda>i. hash (codes i)) ` {..<MAX_SLOTS} \<subseteq> ?used"
    using card_mono [of ?used "(\<lambda>i. hash (codes i)) ` {..<MAX_SLOTS}"] by auto
  then obtain m where "hash (codes m) \<notin> ?used" by blast
  then show ?thesis by (rule find_code_ends) simp
qed

lemma create_not_diverged:
  assumes "inj_on (\<lambda>i. hash (env_codes env i)) {..<MAX_SLOTS}"
  shows "on_create_pairing_slot hash env cid rid key ttl st \<noteq> Diverged"
  using find_code_returns [where hash = hash and codes = "env_codes env" and slts = "slots st", OF assms]
  by (auto simp: on_create_pairing_slot_def Let_def split: option.splits)

lemma process_not_diverged:
  assumes "inj_on (\<lambda>i. hash (env_codes env i)) {..<MAX_SLOTS}"
  shows "process_frame hash env cid frame st \<noteq> Diverged"
proof (cases frame)
  case (CreatePairingSlot rid key ttl)
  then show ?thesis using create_not_diverged [OF assms] by (simp add: process_frame_def)
qed (auto simp: process_frame_def on_resolve_pairing_code_def on_begin_pairing_def Let_def
       split: option.splits)

section \<open>Authority over bridges\<close>

lemma bridges_send [simp]: "bridges (send st cid frame) = bridges st" "slots (send st cid frame) = slots st"
  by (simp_all add: send_def)

lemma bridges_reject [simp]: "bridges (reject st cid rid code) = bridges st"
  by (simp add: reject_def)

lemma bridges_finish: "bridges (finish_pairing pid frame st) = hm_remove pid (bridges st)"
proof (cases "hm_get pid (bridges st)")
  case None
  then show ?thesis by (simp add: finish_pairing_def hm_remove_fresh)
qed (simp add: finish_pairing_def Let_def split: option.splits)

lemma bridges_create:
  "on_create_pairing_slot hash env cid rid key ttl st = Returned st' \<Longrightarrow> bridges st' = bridges st"
  by (auto simp: on_create_pairing_slot_def Let_def split: option.splits if_splits)

lemma bridges_resolve:
  "on_resolve_pairing_code hash env cid rid code st = Returned st' \<Longrightarrow> bridges st' = bridges st"
  by (auto simp: on_resolve_pairing_code_def Let_def split: option.splits if_splits)

lemma bridges_begin:
  "on_begin_pairing hash env cid rid pid handle key offer st = Returned st' \<Longrightarrow>
   hm_get q (bridges st) = Some b \<Longrightarrow> hm_get q (bridges st') = Some b"
  by (auto simp: on_begin_pairing_def Let_def hm_contains_def split: option.splits if_splits)

lemma bridges_accept: "bridges (on_accept_pairing hash cid pid token response st) = bridges st"
  by (auto simp: on_accept_pairing_def split: option.splits)

lemma bridges_cancel_slot: "bridges (on_cancel_pairing_slot hash cid handle cap st) = bridges st"
  by (auto simp: on_cancel_pairing_slot_def split: option.splits)

section \<open>Pairing codes\<close>

lemma digit_not_whitespace: "is_ascii_digit c \<Longrightarrow> \<not> is_ascii_whitespace c"
  by (auto simp: is_ascii_digit_def is_ascii_whitespace_def)

lemma normalize_format:
  assumes "length code = PAIRING_CODE_DIGITS" and "list_all is_ascii_digit code"
  shows "relay_normalize_pairing_code (format_pairing_code code) = Some code"
proof -
  have "is_ascii_whitespace (CHR '' '')" by (simp add: is_ascii_whitespace_def byte_of_def)
  moreover have "filter (\<lambda>c. \<not> is_ascii_whitespace c) (take 4 code) = take 4 code"
    "filter (\<lambda>c. \<not> is_ascii_whitespace c) (drop 4 code) = drop 4 code"
    using assms(2) by (auto simp: filter_id_conv list_all_iff dest: in_set_takeD in_set_dropD digit_not_whitespace)
  ultimately show ?thesis
    using assms by (simp add: relay_normalize_pairing_code_def format_pairing_code_def)
qed

lemma find_unique_code:
  assumes "h \<notin> set (map (\<lambda>(k, s). s_code_hash s) ss)" and "s_code_hash s = h"
    and "s_expires_at s > now"
  shows "find (\<lambda>s. s_code_hash s = h \<and> s_expires_at s > now) (map snd (hm_insert k s ss)) = Some s"
  using assms
proof (induction ss)
  case Nil
  then show ?case by (simp add: hm_insert_def)
next
  case (Cons x ss)
  then show ?case by (cases x) (auto simp: hm_insert_def)
qed

section \<open>Properties\<close>

text \<open>C14: In every reachable state of the relay the capacity limits hold, there are at most as many
  bridges as connections, every slot owner and bridge side is connected, the pairing counter of a
  connection is the number of its bridges, its slot counter is at least the number of its slots, and
  no two slots share a code.\<close>

theorem relay_reachable_safe:
  assumes "relay_reachable hash st"
  shows "relay_inv st \<and> length (bridges st) \<le> length (connections st)"
  using relay_reachable_inv [OF assms] bridges_bound by blast

text \<open>C24: No client frame makes a reachable relay panic, and if the random codes do not repeat for
  a thousand draws the search for a code ends: every frame is handled.\<close>

theorem relay_handles_every_frame:
  assumes "relay_reachable hash st" and "inj_on (\<lambda>i. hash (env_codes env i)) {..<MAX_SLOTS}"
  shows "\<exists>st'. handle_command hash env (Frame cid frame) st = Returned st' \<and> relay_inv st'"
proof -
  have k: "keeps_inv (process_frame hash env cid frame st)"
    by (rule keeps_frame [OF relay_reachable_inv [OF assms(1)]])
  have "process_frame hash env cid frame st \<noteq> Diverged" by (rule process_not_diverged [OF assms(2)])
  with k obtain st1 where "process_frame hash env cid frame st = Returned st1" "relay_inv st1"
    by (cases "process_frame hash env cid frame st") (auto simp: keeps_inv_def)
  then show ?thesis by (simp add: inv_sync)
qed

text \<open>A frame removes a bridge only if it is a rejection, commit, finalization or cancellation
  sent by one of the two sides of that bridge with that side's token.\<close>

theorem bridge_removed_by_side:
  assumes "process_frame hash env cid frame st = Returned st'"
    and "hm_get pid (bridges st) = Some b" and "hm_get pid (bridges st') \<noteq> Some b"
  shows "\<exists>token. frame \<in> {RejectPairing pid token, ClientPairingCommitted pid token,
                          ClientPairingFinalized pid token, CancelPairing pid token} \<and>
    (b_owner b = cid \<and> b_owner_token_hash b = hash token \<or>
     b_joiner b = cid \<and> b_joiner_token_hash b = hash token)"
proof -
  have "hm_contains cid (connections st)"
    using assms by (auto simp: process_frame_def split: if_splits)
  then have "dispatch_frame hash env cid frame st = Returned st'"
    using assms(1) by (simp add: process_frame_def)
  then show ?thesis
    using assms(2,3)
    by (cases frame)
      (auto simp: bridges_finish bridges_accept bridges_cancel_slot on_reject_pairing_def
        on_pairing_committed_def on_pairing_finalized_def on_cancel_pairing_def
        authorize_either_def authorize_def dest: bridges_create bridges_resolve bridges_begin
        split: if_splits)
qed


lemma release_keeps_slots:
  "hm_get k m = Some c \<Longrightarrow> \<exists>c'. hm_get k (release_pairings bs m) = Some c' \<and> c_slots c' = c_slots c"
proof (induction bs arbitrary: m c)
  case (Cons b bs)
  let ?m = "hm_modify (b_joiner b) release_pairing (hm_modify (b_owner b) release_pairing m)"
  have "\<exists>c1. hm_get k ?m = Some c1 \<and> c_slots c1 = c_slots c"
    using Cons.prems
    by (cases "k = b_joiner b"; cases "k = b_owner b") (simp_all add: release_pairing_def)
  then obtain c1 where "hm_get k ?m = Some c1" "c_slots c1 = c_slots c" by blast
  with Cons.IH [of ?m c1] show ?case by simp
qed simp

lemma expire_keeps_slots:
  assumes "hm_get cid (connections st) = Some c"
  shows "\<exists>c'. hm_get cid (connections (expire_state now st)) = Some c' \<and> c_slots c' = c_slots c"
proof -
  obtain removed bs where r: "drain_bridges (map fst (filter (\<lambda>(p, b). b_expires_at b \<le> now) (bridges st)))
      (bridges st) = (removed, bs)" by fastforce
  show ?thesis
    using release_keeps_slots [OF assms, of removed] by (simp add: expire_state_def Let_def r)
qed

lemma create_effect:
  assumes "hm_get cid (connections st) = Some c" and "c_slots c < MAX_SLOTS_PER_CONNECTION"
    and "length (slots st) < MAX_SLOTS" and "find_code hash (slots st) (env_codes env) 0 = Some code"
  shows "\<exists>st' c'. handle_command hash env (Frame cid (CreatePairingSlot rid key ttl)) st = Returned st' \<and>
    hm_get cid (connections st') = Some c' \<and> c_slots c' = c_slots c + 1 \<and>
    slots st' = hm_insert (hash (env_tokens env 0))
      \<lparr> s_owner = cid, s_handle = env_tokens env 0, s_capability_hash = hash (env_tokens env 1),
        s_code_hash = hash code, s_rendezvous_public_key = key,
        s_expires_at = env_clock env 0 + int (max 10 (min ttl SLOT_TTL)) \<rparr> (slots st)"
  using assms
  by (simp add: process_frame_def hm_contains_def on_create_pairing_slot_def Let_def sync_metrics_def
      send_def try_send_def)

lemma relay_reachable_step:
  "relay_reachable hash st \<Longrightarrow> relay_step hash st st' \<Longrightarrow> relay_reachable hash st'"
  unfolding relay_reachable_def by (rule reach_step)

lemma relay_reachable_start: "relay_reachable hash relay_start"
  unfolding relay_reachable_def by (rule reach_init) simp

text \<open>Sample data: two connected clients, and a clock, tokens and codes for one handler.\<close>

definition sample_env :: "string \<Rightarrow> relay_env" where
  "sample_env seed = \<lparr> env_clock = (\<lambda>i. 1000), env_tokens = (\<lambda>i. seed @ replicate i CHR ''t''),
     env_codes = (\<lambda>i. ''1234567'' @ replicate (Suc i) CHR ''8'') \<rparr>"

definition sample_relay :: relay where
  "sample_relay = sync_metrics (on_connected 2 (sync_metrics (on_connected 1 relay_start)))"

definition sample_bridge :: bridge where
  "sample_bridge = \<lparr> b_owner = 1, b_joiner = 2, b_owner_token_hash = ''o'', b_joiner_token_hash = ''j'',
     b_slot_hash = ''h'', b_expires_at = 2000 \<rparr>"

definition idle_connection :: connection where
  "idle_connection = \<lparr> c_outbound = [], c_open = True, c_slots = 0, c_pairings = 0, c_attempts = [] \<rparr>"

lemma sample_relay_eq:
  "connections sample_relay = [(1, idle_connection), (2, idle_connection)] \<and> slots sample_relay = [] \<and>
   bridges sample_relay = []"
  by (simp add: sample_relay_def sync_metrics_def on_connected_def relay_start_def hm_insert_def
      idle_connection_def relay_limits)

lemma sample_relay_reachable: "relay_reachable hash sample_relay"
proof -
  have 1: "relay_step hash relay_start (sync_metrics (on_connected 1 relay_start))"
    by (rule step_connect [of 1 _ _ "sample_env []"]) (simp_all add: hm_contains_def relay_start_def hm_get_def)
  have 2: "relay_step hash (sync_metrics (on_connected 1 relay_start)) sample_relay"
    by (rule step_connect [of 2 _ _ "sample_env []"])
      (simp_all add: hm_contains_def sample_relay_def relay_start_def hm_get_def on_connected_def
        sync_metrics_def hm_insert_def relay_limits)
  show ?thesis
    by (rule relay_reachable_step [OF relay_reachable_step [OF relay_reachable_start 1] 2])
qed

lemma sample_codes_inj: "inj_on (\<lambda>i. id (env_codes (sample_env seed) i)) S"
  by (rule inj_onI) (auto simp: sample_env_def dest: arg_cong [where f = length])

theorem relay_reachable_safe_witness:
  "relay_reachable id sample_relay \<and> relay_inv sample_relay \<and> length (bridges sample_relay) \<le> 2"
  using relay_reachable_safe [OF sample_relay_reachable [of id]] sample_relay_reachable [of id]
  by (simp add: sample_relay_eq)

theorem relay_handles_every_frame_witness:
  "\<exists>st'. handle_command id (sample_env ''a'') (Frame 1 (CreatePairingSlot 9 ''key'' 60)) sample_relay = Returned st' \<and>
     relay_inv st'"
  by (rule relay_handles_every_frame [OF sample_relay_reachable sample_codes_inj])

lemma sample_find_code:
  "find_code id [] (env_codes (sample_env seed)) 0 = Some ''12345678''"
  by (subst find_code.simps) (simp add: sample_env_def)


text \<open>C36: Expired slots keep consuming capacity: once a connection has used its two slots and they
  have all expired, the relay holds no slot any more, and still refuses the connection a new one.\<close>

theorem expired_slots_keep_capacity:
  assumes "relay_reachable hash st" and "hm_get cid (connections st) = Some c"
    and "c_slots c = MAX_SLOTS_PER_CONNECTION"
    and "list_all (\<lambda>(k, s). s_expires_at s \<le> now) (slots st)"
  shows "relay_reachable hash (tick now st) \<and> slots (tick now st) = [] \<and>
    process_frame hash env cid (CreatePairingSlot rid key ttl) (tick now st) =
      Returned (reject (tick now st) cid (Some rid) ''capacity'')"
proof (intro conjI)
  show "relay_reachable hash (tick now st)"
    by (rule relay_reachable_step [OF assms(1) step_tick])
  show "slots (tick now st) = []"
    using assms(4) by (auto simp: tick_def sync_metrics_def expire_state_def Let_def list_all_iff
        filter_empty_conv split: prod.splits)
  obtain c' where "hm_get cid (connections (tick now st)) = Some c'" "c_slots c' = MAX_SLOTS_PER_CONNECTION"
    using expire_keeps_slots [OF assms(2), of now] assms(3) by (auto simp: tick_def sync_metrics_def)
  then show "process_frame hash env cid (CreatePairingSlot rid key ttl) (tick now st) =
      Returned (reject (tick now st) cid (Some rid) ''capacity'')"
    by (simp add: process_frame_def hm_contains_def on_create_pairing_slot_def)
qed

theorem expired_slots_keep_capacity_witness:
  "\<exists>st. relay_reachable id st \<and> slots st = [] \<and>
    process_frame id (sample_env ''z'') 1 (CreatePairingSlot 9 ''key'' 60) st =
      Returned (reject st 1 (Some 9) ''capacity'')"
proof -
  have a: "hm_get 1 (connections sample_relay) = Some idle_connection"
    by (simp add: sample_relay_eq hm_get_def)
  obtain st1 c1 s1 where
    1: "handle_command id (sample_env ''a'') (Frame 1 (CreatePairingSlot 9 ''key'' 60)) sample_relay = Returned st1"
       "hm_get 1 (connections st1) = Some c1" "c_slots c1 = 1"
       "slots st1 = [(''a'', s1)]" "s_code_hash s1 = ''12345678''" "s_expires_at s1 = 1060"
    using create_effect [OF a, of id "sample_env ''a''" "''12345678''" 9 "''key''" 60] sample_find_code [of "''a''"]
    by (auto simp: sample_relay_eq relay_limits idle_connection_def sample_env_def hm_insert_def)
  have f: "find_code id (slots st1) (env_codes (sample_env ''b'')) 0 = Some ''123456788''"
    by (subst find_code.simps, subst find_code.simps) (simp add: 1 sample_env_def)
  obtain st2 c2 s2 where
    2: "handle_command id (sample_env ''b'') (Frame 1 (CreatePairingSlot 9 ''key'' 60)) st1 = Returned st2"
       "hm_get 1 (connections st2) = Some c2" "c_slots c2 = 2"
       "slots st2 = [(''a'', s1), (''b'', s2)]" "s_expires_at s2 = 1060"
    using create_effect [OF 1(2) _ _ f, of 9 "''key''" 60] 1
    by (auto simp: relay_limits sample_env_def hm_insert_def)
  have r: "relay_reachable id st2"
    by (rule relay_reachable_step [OF relay_reachable_step [OF sample_relay_reachable step_frame [OF 1(1)]]
          step_frame [OF 2(1)]])
  have "list_all (\<lambda>(k, s). s_expires_at s \<le> 1060) (slots st2)" by (simp add: 1 2)
  from expired_slots_keep_capacity [OF r 2(2) _ this, of "sample_env ''z''" 9 "''key''" 60] 2(3)
  show ?thesis by (intro exI [of _ "tick 1060 st2"]) (simp add: relay_limits)
qed

end
