(* ===== verification/Retry_Policy.thy ===== *)
theory Retry_Policy
  imports Torca_Prelude
begin

text \<open>
  The retry policy of \<open>torchat-runtime/src/retry.rs\<close>: exponential backoff with a cap and a jitter of
  up to twenty percent, in saturating 64-bit arithmetic. The jitter seed is an argument, as in the
  code (\<open>retry_jitter_seed\<close> derives it from the standard library's default hasher, whose algorithm is
  unspecified).
\<close>

datatype retry_class =
  Immediate | ShortBackoff | NetworkBackoff | TorBackoff | ManualOnly | PermanentFailure

record retry_decision =
  rd_retry_at :: "int option"
  rd_terminal :: bool

record retry_policy =
  short_base_ms :: int
  network_base_ms :: int
  tor_base_ms :: int
  maximum_ms :: int

definition default_policy :: retry_policy where
  "default_policy = \<lparr> short_base_ms = 1000, network_base_ms = 2000, tor_base_ms = 5000,
     maximum_ms = 5 * 60 * 1000 \<rparr>"

definition delay :: "retry_policy \<Rightarrow> int \<Rightarrow> nat \<Rightarrow> nat \<Rightarrow> int" where
  "delay policy base_ms attempt jitter_seed =
     (let exponent = min attempt 8;
          raw = i64_mul base_ms (2 ^ exponent);
          capped = min raw (maximum_ms policy);
          jitter_percent = int (jitter_seed mod 41) - 20
      in i64_add capped (tdiv (i64_mul capped jitter_percent) 100))"

fun decide :: "retry_policy \<Rightarrow> retry_class \<Rightarrow> int \<Rightarrow> nat \<Rightarrow> nat \<Rightarrow> retry_decision" where
  "decide policy Immediate now_ms attempt jitter_seed =
     \<lparr> rd_retry_at = Some now_ms, rd_terminal = False \<rparr>"
| "decide policy ShortBackoff now_ms attempt jitter_seed =
     \<lparr> rd_retry_at = Some (i64_add now_ms (delay policy (short_base_ms policy) attempt jitter_seed)),
       rd_terminal = False \<rparr>"
| "decide policy NetworkBackoff now_ms attempt jitter_seed =
     \<lparr> rd_retry_at = Some (i64_add now_ms (delay policy (network_base_ms policy) attempt jitter_seed)),
       rd_terminal = False \<rparr>"
| "decide policy TorBackoff now_ms attempt jitter_seed =
     \<lparr> rd_retry_at = Some (i64_add now_ms (delay policy (tor_base_ms policy) attempt jitter_seed)),
       rd_terminal = False \<rparr>"
| "decide policy ManualOnly now_ms attempt jitter_seed = \<lparr> rd_retry_at = None, rd_terminal = False \<rparr>"
| "decide policy PermanentFailure now_ms attempt jitter_seed = \<lparr> rd_retry_at = None, rd_terminal = True \<rparr>"

definition retry_delay_ms :: "nat \<Rightarrow> nat \<Rightarrow> int" where
  "retry_delay_ms attempt jitter_seed =
     (case rd_retry_at (decide default_policy NetworkBackoff 0 attempt jitter_seed) of
        None \<Rightarrow> 0 | Some t \<Rightarrow> t)"

section \<open>Bounds\<close>

text \<open>The delay before the jitter.\<close>

definition capped_delay :: "retry_policy \<Rightarrow> int \<Rightarrow> nat \<Rightarrow> int" where
  "capped_delay policy base_ms attempt = min (base_ms * 2 ^ min attempt 8) (maximum_ms policy)"

fun base_of :: "retry_policy \<Rightarrow> retry_class \<Rightarrow> int" where
  "base_of policy ShortBackoff = short_base_ms policy"
| "base_of policy NetworkBackoff = network_base_ms policy"
| "base_of policy TorBackoff = tor_base_ms policy"
| "base_of policy _ = 0"

lemma tdiv_bounds:
  assumes "0 \<le> c" and "- 20 \<le> j" and "j \<le> 20"
  shows "- (c div 5) \<le> tdiv (c * j) 100" and "tdiv (c * j) 100 \<le> c div 5"
proof -
  have "tdiv (c * j) 100 = sgn j * (c * \<bar>j\<bar> div 100)" if "c \<noteq> 0"
    using assms(1) that by (simp add: tdiv_def abs_mult sgn_mult)
  then have e: "tdiv (c * j) 100 = sgn j * (c * \<bar>j\<bar> div 100)"
    by (cases "c = 0") (simp_all add: tdiv_def)
  have "c * \<bar>j\<bar> \<le> c * 20" using assms by (intro mult_left_mono) auto
  then have u: "c * \<bar>j\<bar> div 100 \<le> c div 5" by linarith
  have l: "0 \<le> c * \<bar>j\<bar> div 100" using assms(1) by (simp add: pos_imp_zdiv_nonneg_iff)
  have s: "sgn j = 1 \<or> sgn j = 0 \<or> sgn j = -1" by (auto simp: sgn_if)
  have z: "0 \<le> c div 5" using assms(1) by simp
  show "- (c div 5) \<le> tdiv (c * j) 100" using s u l z unfolding e by auto
  show "tdiv (c * j) 100 \<le> c div 5" using s u l z unfolding e by auto
qed

lemma pow_min_le: "(2 :: int) ^ min attempt 8 \<le> 256"
proof -
  have "(2 :: int) ^ min attempt 8 \<le> 2 ^ 8" by (intro power_increasing) simp_all
  then show ?thesis by simp
qed

lemma delay_bounds:
  assumes "0 \<le> base_ms" and "base_ms * 256 \<le> i64_max" and "0 \<le> maximum_ms policy"
    and "maximum_ms policy * 20 \<le> i64_max"
  shows "4 * capped_delay policy base_ms attempt \<le> 5 * delay policy base_ms attempt seed"
    and "5 * delay policy base_ms attempt seed \<le> 6 * capped_delay policy base_ms attempt"
proof -
  let ?raw = "base_ms * 2 ^ min attempt 8" and ?j = "int (seed mod 41) - 20"
  let ?c = "capped_delay policy base_ms attempt"
  have "?raw \<le> base_ms * 256" using assms(1) pow_min_le by (intro mult_left_mono) auto
  moreover have "0 \<le> ?raw" using assms(1) by simp
  ultimately have "is_i64 ?raw" using assms(2) by (auto simp: is_i64_def i64_min_def)
  then have raw: "i64_mul base_ms (2 ^ min attempt 8) = ?raw" by (simp add: i64_mul_def)
  have j: "- 20 \<le> ?j" "?j \<le> 20" by simp_all
  have c0: "0 \<le> ?c" and c1: "?c \<le> maximum_ms policy" using assms(1,3) by (simp_all add: capped_delay_def)
  have "\<bar>?c * ?j\<bar> \<le> ?c * 20" using c0 j by (simp add: abs_mult mult_left_mono)
  then have "\<bar>?c * ?j\<bar> \<le> i64_max" using c1 assms(4) by linarith
  then have "is_i64 (?c * ?j)" by (auto simp: is_i64_def i64_min_def i64_max_def)
  then have m: "i64_mul ?c ?j = ?c * ?j" by (simp add: i64_mul_def)
  note t = tdiv_bounds [OF c0 j]
  have "is_i64 (?c + tdiv (?c * ?j) 100)"
    using t c0 c1 assms(4) by (auto simp: is_i64_def i64_min_def i64_max_def)
  then have "i64_add ?c (tdiv (?c * ?j) 100) = ?c + tdiv (?c * ?j) 100" by (simp add: i64_add_def)
  moreover have "min ?raw (maximum_ms policy) = ?c" by (simp add: capped_delay_def)
  ultimately have d: "delay policy base_ms attempt seed = ?c + tdiv (?c * ?j) 100"
    by (simp add: delay_def Let_def raw m)
  have f: "5 * (?c div 5) \<le> ?c" using mult_div_mod_eq [of 5 ?c] pos_mod_sign [of 5 ?c] by linarith
  show "4 * ?c \<le> 5 * delay policy base_ms attempt seed"
    unfolding d distrib_left using t(1) f by linarith
  show "5 * delay policy base_ms attempt seed \<le> 6 * ?c"
    unfolding d distrib_left using t(2) f by linarith
qed

lemma default_delay_bounds:
  assumes "class \<in> {ShortBackoff, NetworkBackoff, TorBackoff}"
  shows "4 * capped_delay default_policy (base_of default_policy class) attempt \<le>
           5 * delay default_policy (base_of default_policy class) attempt seed"
    and "5 * delay default_policy (base_of default_policy class) attempt seed \<le>
           6 * capped_delay default_policy (base_of default_policy class) attempt"
    and "0 \<le> capped_delay default_policy (base_of default_policy class) attempt"
    and "capped_delay default_policy (base_of default_policy class) attempt \<le> 300000"
proof -
  have b: "0 \<le> base_of default_policy class" "base_of default_policy class * 256 \<le> i64_max"
    "0 \<le> maximum_ms default_policy" "maximum_ms default_policy * 20 \<le> i64_max"
    using assms by (auto simp: default_policy_def i64_max_def)
  show "4 * capped_delay default_policy (base_of default_policy class) attempt \<le>
      5 * delay default_policy (base_of default_policy class) attempt seed"
    and "5 * delay default_policy (base_of default_policy class) attempt seed \<le>
      6 * capped_delay default_policy (base_of default_policy class) attempt"
    by (rule delay_bounds [OF b])+
  show "0 \<le> capped_delay default_policy (base_of default_policy class) attempt"
    and "capped_delay default_policy (base_of default_policy class) attempt \<le> 300000"
    using b by (auto simp: capped_delay_def default_policy_def)
qed

section \<open>Properties\<close>

text \<open>C32: A backoff decision of the default policy is never terminal, and schedules the retry
  between four and six fifths of the capped exponential delay after now; the saturating arithmetic
  never saturates.\<close>

theorem backoff_window:
  assumes "class \<in> {ShortBackoff, NetworkBackoff, TorBackoff}"
    and "i64_min \<le> now" and "now \<le> i64_max - 360000"
  shows "\<exists>t. decide default_policy class now attempt seed = \<lparr> rd_retry_at = Some t, rd_terminal = False \<rparr> \<and>
    4 * capped_delay default_policy (base_of default_policy class) attempt \<le> 5 * (t - now) \<and>
    5 * (t - now) \<le> 6 * capped_delay default_policy (base_of default_policy class) attempt"
proof -
  let ?d = "delay default_policy (base_of default_policy class) attempt seed"
  note b = default_delay_bounds(1,2) [OF assms(1), of attempt seed] default_delay_bounds(3,4) [OF assms(1), of attempt]
  have "is_i64 (now + ?d)" using b assms(2,3) unfolding is_i64_def by linarith
  then have "i64_add now ?d = now + ?d" by (simp add: i64_add_def)
  then have "decide default_policy class now attempt seed =
      \<lparr> rd_retry_at = Some (now + ?d), rd_terminal = False \<rparr>"
    using assms(1) by auto
  with b(1,2) show ?thesis by auto
qed

theorem backoff_window_witness:
  "\<exists>t. decide default_policy TorBackoff 1000 3 7 = \<lparr> rd_retry_at = Some t, rd_terminal = False \<rparr> \<and>
    4 * capped_delay default_policy (base_of default_policy TorBackoff) 3 \<le> 5 * (t - 1000) \<and>
    5 * (t - 1000) \<le> 6 * capped_delay default_policy (base_of default_policy TorBackoff) 3"
  by (rule backoff_window) (simp_all add: i64_min_def i64_max_def)

text \<open>The jitter is applied after the cap, so the configured maximum is not a maximum: with the
  default policy a retry can be scheduled six minutes ahead although \<open>maximum_ms\<close> is five.\<close>

theorem jitter_exceeds_maximum:
  "retry_delay_ms 8 40 = 360000 \<and> maximum_ms default_policy = 300000"
  by code_simp

end
