(* ===== verification/Changes_Session.thy ===== *)
theory Changes_Session
  imports Domain_Model "HOL-Library.Multiset"
begin

unbundle bit_operations_syntax

text \<open>
  What the client publishes: the events of \<open>torchat-runtime/src/contract.rs\<close>, the change sets of
  \<open>changes.rs\<close> (a 16-bit mask of sections with sets of entity ids), the change publisher with its
  revision counter, and the event session of \<open>session.rs\<close>, which stages events while a transaction
  is open.
\<close>

section \<open>Events\<close>

datatype transport_component = CompEngine | CompPeer

datatype transport_probe_state =
  ProbeIdle | ProbeStarting | ProbeReady | ProbeDegraded | ProbeError | ProbeOffline

datatype runtime_status_phase =
  PhaseStarting | PhaseBootstrapping | PhaseConnecting | PhaseDegraded | PhaseConnected
| PhaseReconnecting | PhaseOffline | PhaseError

record runtime_tor_status =
  ts_phase :: runtime_status_phase
  ts_label :: string
  ts_detail :: string
  ts_progress :: "int option"
  ts_latency_ms :: "nat option"
  ts_retry_attempt :: nat

record transport_status =
  tst_component :: transport_component
  tst_state :: transport_probe_state
  tst_detail :: string
  tst_progress :: "int option"
  tst_latency_ms :: "nat option"
  tst_retry_attempt :: nat
  tst_retry_in_ms :: "nat option"
  tst_generation :: nat
  tst_endpoint :: "string option"
  tst_updated_at :: int

text \<open>Message ids of events are uuids; they appear here in their text form.\<close>

datatype runtime_event =
  RuntimeReady nat
| TorStatus runtime_tor_status
| TransportStatusChanged transport_status
| ProfileReady runtime_profile
| InviteReceived "string option" "string option"
| InviteStateChanged "string option" "invite_state option"
| MessageReceived "string option" "string option" "string option"
| MessageStateChanged "string option" "string option" "message_state option"
| ConversationReadChanged "string option" "32 word option"
| TypingChanged string bool int
| ConversationFocusChanged string bool int
| PresenceChanged string bool bool int int
| PeerEndpointChanged string peer_endpoint_status
| PeerConnectionChanged string peer_connection_status "nat option"
| ContactCapabilityChanged string string nat capability_status
| Changed "string option"
| RuntimeErrorEvent string
| RuntimeLog string
| ProjectionChanged string string nat bool "string list"

definition runtime_status_event_from_snapshot :: "runtime_tor_status \<Rightarrow> runtime_event" where
  "runtime_status_event_from_snapshot status = TorStatus status"

section \<open>Change sets\<close>

type_synonym change_sections = "16 word"

definition NONE :: change_sections where "NONE = 0"
definition PROFILE :: change_sections where "PROFILE = push_bit 0 1"
definition PAIRINGS :: change_sections where "PAIRINGS = push_bit 1 1"
definition CONTACTS :: change_sections where "CONTACTS = push_bit 2 1"
definition RELATIONSHIPS :: change_sections where "RELATIONSHIPS = push_bit 3 1"
definition CONVERSATIONS :: change_sections where "CONVERSATIONS = push_bit 4 1"
definition MESSAGES :: change_sections where "MESSAGES = push_bit 5 1"
definition RECEIPTS :: change_sections where "RECEIPTS = push_bit 6 1"
definition PRESENCE :: change_sections where "PRESENCE = push_bit 7 1"
definition TRANSPORT :: change_sections where "TRANSPORT = push_bit 8 1"
definition CAPABILITIES :: change_sections where "CAPABILITIES = push_bit 9 1"
definition OPERATIONS :: change_sections where "OPERATIONS = push_bit 10 1"

definition sections_contains :: "change_sections \<Rightarrow> change_sections \<Rightarrow> bool" where
  "sections_contains s sec \<longleftrightarrow> s AND sec = sec"

definition sections_insert :: "change_sections \<Rightarrow> change_sections \<Rightarrow> change_sections" where
  "sections_insert s sec = s OR sec"

definition sections_union :: "change_sections \<Rightarrow> change_sections \<Rightarrow> change_sections" where
  "sections_union s t = s OR t"

definition sections_is_empty :: "change_sections \<Rightarrow> bool" where
  "sections_is_empty s \<longleftrightarrow> s = 0"

record changed_entities =
  pairing_ids :: "string set"
  contact_ids :: "string set"
  conversation_ids :: "string set"
  message_ids :: "string set"
  operation_ids :: "string set"

definition no_entities :: changed_entities where
  "no_entities = \<lparr> pairing_ids = {}, contact_ids = {}, conversation_ids = {}, message_ids = {},
     operation_ids = {} \<rparr>"

definition entities_merge :: "changed_entities \<Rightarrow> changed_entities \<Rightarrow> changed_entities" where
  "entities_merge a b = \<lparr> pairing_ids = pairing_ids a \<union> pairing_ids b,
     contact_ids = contact_ids a \<union> contact_ids b,
     conversation_ids = conversation_ids a \<union> conversation_ids b,
     message_ids = message_ids a \<union> message_ids b,
     operation_ids = operation_ids a \<union> operation_ids b \<rparr>"

record change_set =
  sections :: change_sections
  entities :: changed_entities

definition change_none :: change_set where
  "change_none = \<lparr> sections = NONE, entities = no_entities \<rparr>"

definition change_section :: "change_sections \<Rightarrow> change_set" where
  "change_section s = \<lparr> sections = s, entities = no_entities \<rparr>"

definition change_merge :: "change_set \<Rightarrow> change_set \<Rightarrow> change_set" where
  "change_merge a b = \<lparr> sections = sections_insert (sections a) (sections b),
     entities = entities_merge (entities a) (entities b) \<rparr>"

definition with_pairing :: "string \<Rightarrow> change_set \<Rightarrow> change_set" where
  "with_pairing i c = c\<lparr> sections := sections_insert (sections c) PAIRINGS,
     entities := (entities c)\<lparr> pairing_ids := insert i (pairing_ids (entities c)) \<rparr> \<rparr>"

definition with_contact :: "string \<Rightarrow> change_set \<Rightarrow> change_set" where
  "with_contact i c = c\<lparr> sections := sections_insert (sections c) CONTACTS,
     entities := (entities c)\<lparr> contact_ids := insert i (contact_ids (entities c)) \<rparr> \<rparr>"

definition with_conversation :: "string \<Rightarrow> change_set \<Rightarrow> change_set" where
  "with_conversation i c = c\<lparr> sections := sections_insert (sections c) CONVERSATIONS,
     entities := (entities c)\<lparr> conversation_ids := insert i (conversation_ids (entities c)) \<rparr> \<rparr>"

definition with_message :: "string \<Rightarrow> change_set \<Rightarrow> change_set" where
  "with_message i c = c\<lparr> sections := sections_insert (sections c) MESSAGES,
     entities := (entities c)\<lparr> message_ids := insert i (message_ids (entities c)) \<rparr> \<rparr>"

definition add_contact_id :: "string \<Rightarrow> change_set \<Rightarrow> change_set" where
  "add_contact_id i c = c\<lparr> entities := (entities c)\<lparr> contact_ids := insert i (contact_ids (entities c)) \<rparr> \<rparr>"

definition section_of_kind :: "string option \<Rightarrow> change_sections" where
  "section_of_kind kind =
     (case kind of None \<Rightarrow> OPERATIONS
      | Some k \<Rightarrow>
          if k = ''profile'' then PROFILE
          else if k = ''pairing'' \<or> k = ''pairings'' then PAIRINGS
          else if k = ''contact'' \<or> k = ''contacts'' then CONTACTS
          else if k = ''relationship'' \<or> k = ''relationships'' then RELATIONSHIPS
          else if k = ''conversation'' \<or> k = ''conversations'' then CONVERSATIONS
          else if k = ''message'' \<or> k = ''messages'' then MESSAGES
          else if k = ''receipt'' \<or> k = ''receipts'' then RECEIPTS
          else if k = ''presence'' then PRESENCE
          else if k = ''transport'' then TRANSPORT
          else if k = ''capability'' \<or> k = ''capabilities'' then CAPABILITIES
          else OPERATIONS)"

definition message_changes :: "string option \<Rightarrow> string option \<Rightarrow> change_set" where
  "message_changes message_id conversation_id =
     (let changes = (case message_id of Some i \<Rightarrow> with_message i change_none
                     | None \<Rightarrow> change_section MESSAGES)
      in case conversation_id of Some c \<Rightarrow> with_conversation c changes | None \<Rightarrow> changes)"

definition pairing_changes :: "string option \<Rightarrow> change_set" where
  "pairing_changes pid =
     (case pid of Some i \<Rightarrow> with_pairing i change_none | None \<Rightarrow> change_section PAIRINGS)"

fun from_runtime_event :: "runtime_event \<Rightarrow> change_set" where
  "from_runtime_event (RuntimeReady _) = change_section TRANSPORT"
| "from_runtime_event (TorStatus _) = change_section TRANSPORT"
| "from_runtime_event (TransportStatusChanged _) = change_section TRANSPORT"
| "from_runtime_event (PeerEndpointChanged _ _) = change_section TRANSPORT"
| "from_runtime_event (PeerConnectionChanged _ _ _) = change_section TRANSPORT"
| "from_runtime_event (ProfileReady _) = change_section PROFILE"
| "from_runtime_event (InviteReceived pid _) = pairing_changes pid"
| "from_runtime_event (InviteStateChanged pid _) = pairing_changes pid"
| "from_runtime_event (MessageReceived mid cid _) = message_changes mid cid"
| "from_runtime_event (MessageStateChanged mid cid _) = message_changes mid cid"
| "from_runtime_event (ConversationReadChanged cid _) =
     (case cid of Some c \<Rightarrow> with_conversation c (change_section RECEIPTS)
      | None \<Rightarrow> change_section RECEIPTS)"
| "from_runtime_event (TypingChanged cid _ _) = with_conversation cid (change_section PRESENCE)"
| "from_runtime_event (ConversationFocusChanged cid _ _) = with_conversation cid (change_section PRESENCE)"
| "from_runtime_event (PresenceChanged contact _ _ _ _) = add_contact_id contact (change_section PRESENCE)"
| "from_runtime_event (ContactCapabilityChanged contact _ _ _) =
     add_contact_id contact (change_section CAPABILITIES)"
| "from_runtime_event (Changed kind) = change_section (section_of_kind kind)"
| "from_runtime_event (ProjectionChanged _ _ _ application cids) =
     fold with_conversation cids (if application then change_section OPERATIONS else change_none)"
| "from_runtime_event (RuntimeErrorEvent _) = change_none"
| "from_runtime_event (RuntimeLog _) = change_none"

definition from_runtime_events :: "runtime_event list \<Rightarrow> change_set" where
  "from_runtime_events events = fold (\<lambda>e changes. change_merge changes (from_runtime_event e)) events change_none"

datatype domain_effect =
  DeliverPairing string | DeliverMessage string | SendReceipt string | RefreshPeer string

record 'a feature_result =
  fr_value :: 'a
  fr_changes :: change_set
  fr_effects :: "domain_effect list"

definition unchanged :: "'a \<Rightarrow> 'a feature_result" where
  "unchanged v = \<lparr> fr_value = v, fr_changes = change_none, fr_effects = [] \<rparr>"

definition changed :: "'a \<Rightarrow> change_set \<Rightarrow> 'a feature_result" where
  "changed v changes = \<lparr> fr_value = v, fr_changes = changes, fr_effects = [] \<rparr>"

definition with_effect :: "domain_effect \<Rightarrow> 'a feature_result \<Rightarrow> 'a feature_result" where
  "with_effect e r = r\<lparr> fr_effects := fr_effects r @ [e] \<rparr>"

record 'a committed_change =
  cc_value :: 'a
  cc_changes :: change_set
  cc_effects :: "domain_effect list"
  cc_revision :: nat

text \<open>The publisher: its revision, and a commit whose persistence step may fail.\<close>

definition publisher_commit ::
  "'a feature_result \<Rightarrow> ('e + unit) \<Rightarrow> nat \<Rightarrow> ('e + 'a committed_change) \<times> nat" where
  "publisher_commit result persisted revision =
     (case persisted of
        Inl e \<Rightarrow> (Inl e, revision)
      | Inr _ \<Rightarrow>
          let revision' = u64_saturating_add revision 1
          in (Inr \<lparr> cc_value = fr_value result, cc_changes = fr_changes result,
                    cc_effects = fr_effects result, cc_revision = revision' \<rparr>, revision'))"

section \<open>Sessions\<close>

record runtime_session =
  selected_conversation_id :: "string option"
  focused_conversation_id :: "string option"
  app_foreground :: bool
  events :: "runtime_event list"
  staged_events :: "runtime_event list"
  bootstrap_emitted :: bool
  last_tor_status :: "runtime_tor_status option"
  last_runtime_error :: "string option"
  transaction_depth :: nat

definition session_new :: runtime_session where
  "session_new = \<lparr> selected_conversation_id = None, focused_conversation_id = None,
     app_foreground = True, events = [], staged_events = [], bootstrap_emitted = False,
     last_tor_status = None, last_runtime_error = None, transaction_depth = 0 \<rparr>"

definition select_conversation :: "string \<Rightarrow> runtime_session \<Rightarrow> runtime_session" where
  "select_conversation cid s =
     s\<lparr> selected_conversation_id := Some cid, focused_conversation_id := None \<rparr>"

definition clear_selected_conversation :: "runtime_session \<Rightarrow> runtime_session" where
  "clear_selected_conversation s =
     s\<lparr> selected_conversation_id := None, focused_conversation_id := None \<rparr>"

definition set_app_foreground :: "bool \<Rightarrow> runtime_session \<Rightarrow> runtime_session" where
  "set_app_foreground foreground s =
     (let s1 = s\<lparr> app_foreground := foreground \<rparr> in
      if \<not> foreground then s1\<lparr> focused_conversation_id := None \<rparr> else s1)"

definition set_conversation_focus :: "string \<Rightarrow> bool \<Rightarrow> runtime_session \<Rightarrow> runtime_session" where
  "set_conversation_focus cid focused s =
     (if focused
      then s\<lparr> selected_conversation_id := Some cid, focused_conversation_id := Some cid \<rparr>
      else if focused_conversation_id s = Some cid then s\<lparr> focused_conversation_id := None \<rparr>
      else s)"

definition conversation_is_attended :: "string \<Rightarrow> runtime_session \<Rightarrow> bool" where
  "conversation_is_attended cid s \<longleftrightarrow>
     app_foreground s \<and> selected_conversation_id s = Some cid \<and> focused_conversation_id s = Some cid"

definition begin_transaction :: "runtime_session \<Rightarrow> runtime_session" where
  "begin_transaction s = s\<lparr> transaction_depth := transaction_depth s + 1 \<rparr>"

definition commit_transaction :: "runtime_session \<Rightarrow> runtime_session" where
  "commit_transaction s =
     (if transaction_depth s = 0 then s
      else let s1 = s\<lparr> transaction_depth := transaction_depth s - 1 \<rparr> in
           if transaction_depth s1 = 0 \<and> staged_events s1 \<noteq> []
           then s1\<lparr> events := events s1 @ staged_events s1, staged_events := [] \<rparr>
           else s1)"

definition rollback_transaction :: "runtime_session \<Rightarrow> runtime_session" where
  "rollback_transaction s =
     (if transaction_depth s = 0 then s
      else let s1 = s\<lparr> transaction_depth := transaction_depth s - 1 \<rparr> in
           if transaction_depth s1 = 0 then s1\<lparr> staged_events := [] \<rparr> else s1)"

definition push_event :: "runtime_event \<Rightarrow> runtime_session \<Rightarrow> runtime_session" where
  "push_event e s =
     (if transaction_depth s > 0 then s\<lparr> staged_events := staged_events s @ [e] \<rparr>
      else s\<lparr> events := events s @ [e] \<rparr>)"

definition mark_bootstrap_emitted :: "runtime_session \<Rightarrow> bool \<times> runtime_session" where
  "mark_bootstrap_emitted s =
     (if bootstrap_emitted s then (False, s) else (True, s\<lparr> bootstrap_emitted := True \<rparr>))"

definition clear_runtime_error_dedup :: "runtime_session \<Rightarrow> runtime_session" where
  "clear_runtime_error_dedup s = s\<lparr> last_runtime_error := None \<rparr>"

definition publish_tor_status :: "runtime_tor_status \<Rightarrow> runtime_session \<Rightarrow> runtime_session" where
  "publish_tor_status status s =
     (if last_tor_status s = Some status then s
      else let s1 = s\<lparr> last_tor_status := Some status \<rparr>;
               s2 = (if ts_phase status = PhaseConnected then clear_runtime_error_dedup s1 else s1)
           in push_event (runtime_status_event_from_snapshot status) s2)"

definition publish_runtime_error :: "string \<Rightarrow> runtime_session \<Rightarrow> runtime_session" where
  "publish_runtime_error message s =
     (if last_runtime_error s = Some message then s
      else push_event (RuntimeErrorEvent message) (s\<lparr> last_runtime_error := Some message \<rparr>))"

definition publish_runtime_log :: "string \<Rightarrow> runtime_session \<Rightarrow> runtime_session" where
  "publish_runtime_log message s =
     (if trim message = [] then s else push_event (RuntimeLog (trim message)) s)"

definition drain_events :: "runtime_session \<Rightarrow> runtime_event list \<times> runtime_session" where
  "drain_events s = (events s, s\<lparr> events := [] \<rparr>)"

definition has_pending_events :: "runtime_session \<Rightarrow> bool" where
  "has_pending_events s \<longleftrightarrow> events s \<noteq> [] \<or> staged_events s \<noteq> []"

fun projection_change :: "runtime_event \<Rightarrow> bool \<times> string option" where
  "projection_change (ProfileReady _) = (True, None)"
| "projection_change (InviteReceived _ _) = (True, None)"
| "projection_change (InviteStateChanged _ _) = (True, None)"
| "projection_change (PeerEndpointChanged _ _) = (True, None)"
| "projection_change (PeerConnectionChanged _ _ _) = (True, None)"
| "projection_change (ContactCapabilityChanged _ _ _ _) = (True, None)"
| "projection_change (Changed _) = (True, None)"
| "projection_change (MessageReceived _ cid _) = (True, cid)"
| "projection_change (MessageStateChanged _ cid _) = (True, cid)"
| "projection_change (ConversationReadChanged cid _) = (True, cid)"
| "projection_change (RuntimeReady _) = (False, None)"
| "projection_change (TorStatus _) = (False, None)"
| "projection_change (TransportStatusChanged _) = (False, None)"
| "projection_change (TypingChanged _ _ _) = (False, None)"
| "projection_change (ConversationFocusChanged _ _ _) = (False, None)"
| "projection_change (PresenceChanged _ _ _ _ _) = (False, None)"
| "projection_change (RuntimeErrorEvent _) = (False, None)"
| "projection_change (RuntimeLog _) = (False, None)"
| "projection_change (ProjectionChanged _ _ _ _ _) = (False, None)"

definition pending_projection_changes :: "runtime_session \<Rightarrow> bool \<times> string list" where
  "pending_projection_changes s =
     (let evs = events s @ staged_events s in
      (list_ex (\<lambda>e. fst (projection_change e)) evs,
       sorted_list_of_set (set (List.map_filter (\<lambda>e. snd (projection_change e)) evs))))"

section \<open>Change sets form a semilattice\<close>

lemma bit_fold_sections:
  "bit (sections (fold (\<lambda>e c. change_merge c (from_runtime_event e)) es c)) n \<longleftrightarrow>
     bit (sections c) n \<or> (\<exists>e \<in> set es. bit (sections (from_runtime_event e)) n)"
  by (induction es arbitrary: c) (auto simp: change_merge_def sections_insert_def bit_or_iff)

lemma fold_entities:
  "pairing_ids (entities (fold (\<lambda>e c. change_merge c (from_runtime_event e)) es c)) =
     pairing_ids (entities c) \<union> (\<Union>e \<in> set es. pairing_ids (entities (from_runtime_event e)))"
  "contact_ids (entities (fold (\<lambda>e c. change_merge c (from_runtime_event e)) es c)) =
     contact_ids (entities c) \<union> (\<Union>e \<in> set es. contact_ids (entities (from_runtime_event e)))"
  "conversation_ids (entities (fold (\<lambda>e c. change_merge c (from_runtime_event e)) es c)) =
     conversation_ids (entities c) \<union> (\<Union>e \<in> set es. conversation_ids (entities (from_runtime_event e)))"
  "message_ids (entities (fold (\<lambda>e c. change_merge c (from_runtime_event e)) es c)) =
     message_ids (entities c) \<union> (\<Union>e \<in> set es. message_ids (entities (from_runtime_event e)))"
  "operation_ids (entities (fold (\<lambda>e c. change_merge c (from_runtime_event e)) es c)) =
     operation_ids (entities c) \<union> (\<Union>e \<in> set es. operation_ids (entities (from_runtime_event e)))"
  by (induction es arbitrary: c) (auto simp: change_merge_def entities_merge_def)

lemma change_set_eqI:
  fixes a b :: change_set
  assumes "\<And>n. bit (sections a) n = bit (sections b) n"
    and "pairing_ids (entities a) = pairing_ids (entities b)"
    and "contact_ids (entities a) = contact_ids (entities b)"
    and "conversation_ids (entities a) = conversation_ids (entities b)"
    and "message_ids (entities a) = message_ids (entities b)"
    and "operation_ids (entities a) = operation_ids (entities b)"
  shows "a = b"
proof -
  have "sections a = sections b" using assms(1) by (simp add: bit_eq_iff)
  moreover have "entities a = entities b" using assms(2-6) by simp
  ultimately show ?thesis by simp
qed

lemma contains_iff: "sections_contains s t \<longleftrightarrow> (\<forall>n. bit t n \<longrightarrow> bit s n)"
proof
  assume a: "sections_contains s t"
  show "\<forall>n. bit t n \<longrightarrow> bit s n"
  proof (intro allI impI)
    fix n assume "bit t n"
    then have "bit (s AND t) n" using a by (simp add: sections_contains_def)
    then show "bit s n" by (simp add: bit_and_iff)
  qed
qed (auto simp: sections_contains_def bit_eq_iff bit_and_iff)

section \<open>Sessions\<close>

lemma fold_push_staged:
  "transaction_depth s > 0 \<Longrightarrow> fold push_event es s = s\<lparr> staged_events := staged_events s @ es \<rparr>"
  by (induction es arbitrary: s) (simp_all add: push_event_def)

definition session_inv :: "runtime_session \<Rightarrow> bool" where
  "session_inv s \<longleftrightarrow>
     (transaction_depth s = 0 \<longrightarrow> staged_events s = []) \<and>
     (focused_conversation_id s = None \<or> focused_conversation_id s = selected_conversation_id s)"

inductive session_step :: "runtime_session \<Rightarrow> runtime_session \<Rightarrow> bool" where
  "session_step s (select_conversation cid s)"
| "session_step s (clear_selected_conversation s)"
| "session_step s (set_app_foreground b s)"
| "session_step s (set_conversation_focus cid b s)"
| "session_step s (begin_transaction s)"
| "session_step s (commit_transaction s)"
| "session_step s (rollback_transaction s)"
| "session_step s (push_event e s)"
| "session_step s (snd (mark_bootstrap_emitted s))"
| "session_step s (publish_tor_status status s)"
| "session_step s (publish_runtime_error m s)"
| "session_step s (publish_runtime_log m s)"
| "session_step s (snd (drain_events s))"

lemmas session_ops = select_conversation_def clear_selected_conversation_def set_app_foreground_def
  set_conversation_focus_def begin_transaction_def commit_transaction_def rollback_transaction_def
  push_event_def mark_bootstrap_emitted_def publish_tor_status_def publish_runtime_error_def
  publish_runtime_log_def drain_events_def clear_runtime_error_dedup_def

lemma session_step_inv:
  assumes "session_inv s" and "session_step s s'"
  shows "session_inv s'"
  using assms(2,1)
  by (induction rule: session_step.induct)
    (simp_all add: session_inv_def session_ops Let_def split: if_splits)

interpretation session_system: invariant_system "\<lambda>s. s = session_new" session_step session_inv
  by unfold_locales (simp add: session_inv_def session_new_def, rule session_step_inv)

text \<open>The changes announced for a list of events depend only on which events occurred, not on
  their order or repetition, and cover the sections of every event.\<close>

theorem changes_order_independent:
  assumes "set es = set es'"
  shows "from_runtime_events es = from_runtime_events es' \<and>
    (\<forall>e \<in> set es. sections_contains (sections (from_runtime_events es')) (sections (from_runtime_event e)))"
proof
  show "from_runtime_events es = from_runtime_events es'"
    unfolding from_runtime_events_def
    by (rule change_set_eqI) (simp_all add: bit_fold_sections fold_entities assms)
  show "\<forall>e \<in> set es. sections_contains (sections (from_runtime_events es')) (sections (from_runtime_event e))"
    unfolding from_runtime_events_def contains_iff bit_fold_sections assms by blast
qed




text \<open>The projection announced for a transaction lists every conversation with a message or
  read change exactly once, in order; a listed conversation always comes with a change of the
  application projection.\<close>

theorem pending_projection_exact:
  "case pending_projection_changes s of (application, cids) \<Rightarrow>
     sorted cids \<and> distinct cids \<and>
     set cids = {cid. \<exists>e. e \<in> set (events s @ staged_events s) \<and> projection_change e = (True, Some cid)} \<and>
     (cids = [] \<or> application)"
proof -
  have t: "snd (projection_change e) = Some c \<Longrightarrow> projection_change e = (True, Some c)" for e c
    by (cases e) auto
  have m: "set (List.map_filter (\<lambda>e. snd (projection_change e)) evs) =
      {c. \<exists>e. e \<in> set evs \<and> projection_change e = (True, Some c)}" for evs
    by (force simp: List.map_filter_def dest: t)
  let ?evs = "events s @ staged_events s"
  let ?cids = "sorted_list_of_set (set (List.map_filter (\<lambda>e. snd (projection_change e)) ?evs))"
  have c: "set ?cids = {c. \<exists>e. e \<in> set ?evs \<and> projection_change e = (True, Some c)}"
    by (rule trans [OF set_sorted_list_of_set m]) simp
  have "list_ex (\<lambda>e. fst (projection_change e)) ?evs" if "?cids \<noteq> []"
  proof -
    from that obtain x where "x \<in> set ?cids" by (meson last_in_set)
    then obtain e where "e \<in> set ?evs" "projection_change e = (True, Some x)" using c by blast
    then show ?thesis by (force simp: list_ex_iff)
  qed
  moreover have "sorted ?cids" "distinct ?cids" by simp_all
  ultimately show ?thesis
    unfolding pending_projection_changes_def Let_def prod.case using c by blast
qed

end
