(* ===== verification/Byte_Encoding.thy ===== *)
theory Byte_Encoding
  imports Torca_Prelude
begin

text \<open>
  Byte strings and the length-prefixed encoding that every signature of the protocol covers:
  \<open>push_u16\<close>, \<open>push_u32\<close>, \<open>push_u64\<close>, \<open>push_i64\<close>, \<open>push_bytes\<close> and \<open>push_str\<close> of
  \<^verbatim>\<open>src/common/torchat-core/src/peer_protocol.rs\<close>, with the standard library functions they use
  (\<open>to_be_bytes\<close>, \<open>as_bytes\<close>, decimal and hexadecimal formatting).

  The contract the encodings rest on is the locale \<open>self_delimiting\<close>: a reader that knows the
  encoding finds where a value ends. It is interpreted for every primitive of the encoding, and its
  lemmas turn an equation of two encodings into the equations of their fields.
\<close>

section \<open>Definitions\<close>

type_synonym bytes = "8 word list"

definition to_be_bytes :: "nat \<Rightarrow> 'a::len word \<Rightarrow> bytes" where
  "to_be_bytes n x = map (\<lambda>i. ucast (drop_bit (8 * i) x)) (rev [0..<n])"

definition as_bytes :: "string \<Rightarrow> bytes" where
  "as_bytes s = map (\<lambda>c. word_of_nat (byte_of c)) s"

definition push_u16 :: "bytes \<Rightarrow> 16 word \<Rightarrow> bytes" where
  "push_u16 output value = output @ to_be_bytes 2 value"

definition push_u32 :: "bytes \<Rightarrow> 32 word \<Rightarrow> bytes" where
  "push_u32 output value = output @ to_be_bytes 4 value"

definition push_u64 :: "bytes \<Rightarrow> 64 word \<Rightarrow> bytes" where
  "push_u64 output value = output @ to_be_bytes 8 value"

definition push_i64 :: "bytes \<Rightarrow> int \<Rightarrow> bytes" where
  "push_i64 output value = output @ to_be_bytes 8 (word_of_int value :: 64 word)"

definition push_bytes :: "bytes \<Rightarrow> bytes \<Rightarrow> bytes" where
  "push_bytes output value = push_u32 output (word_of_nat (length value)) @ value"

definition push_str :: "bytes \<Rightarrow> string \<Rightarrow> bytes" where
  "push_str output value = push_bytes output (as_bytes value)"

definition ascii_lower :: "char \<Rightarrow> char" where
  "ascii_lower c = (if 65 \<le> byte_of c \<and> byte_of c \<le> 90 then char_of (byte_of c + 32) else c)"

definition to_ascii_lowercase :: "string \<Rightarrow> string" where
  "to_ascii_lowercase s = map ascii_lower s"

definition is_ascii_hexdigit :: "char \<Rightarrow> bool" where
  "is_ascii_hexdigit c \<longleftrightarrow>
     is_ascii_digit c \<or> (65 \<le> byte_of c \<and> byte_of c \<le> 70) \<or> (97 \<le> byte_of c \<and> byte_of c \<le> 102)"

definition strip_suffix :: "string \<Rightarrow> string \<Rightarrow> string option" where
  "strip_suffix suffix s =
     (if length suffix \<le> length s \<and> drop (length s - length suffix) s = suffix
      then Some (take (length s - length suffix) s) else None)"

definition hex_digit :: "nat \<Rightarrow> char" where
  "hex_digit d = (if d < 10 then char_of (48 + d) else char_of (87 + d))"

definition hex_byte :: "8 word \<Rightarrow> string" where
  "hex_byte b = [hex_digit (unat b div 16), hex_digit (unat b mod 16)]"

fun nat_digits :: "nat \<Rightarrow> string" where
  "nat_digits n = (if n < 10 then [char_of (48 + n)] else nat_digits (n div 10) @ [char_of (48 + n mod 10)])"

declare nat_digits.simps [simp del]

definition int_text :: "int \<Rightarrow> string" where
  "int_text i = (if i < 0 then CHR ''-'' # nat_digits (nat (- i)) else nat_digits (nat i))"

section \<open>Self-delimiting codes\<close>

locale self_delimiting =
  fixes enc :: "'a \<Rightarrow> 'b list" and fits :: "'a \<Rightarrow> bool"
  assumes delimits: "fits x \<Longrightarrow> fits y \<Longrightarrow> enc x @ r = enc y @ s \<Longrightarrow> x = y \<and> r = s"
begin

lemma append_eq_iff: "fits x \<Longrightarrow> fits y \<Longrightarrow> enc x @ r = enc y @ s \<longleftrightarrow> x = y \<and> r = s"
  using delimits by blast

lemma enc_eq_iff: "fits x \<Longrightarrow> fits y \<Longrightarrow> enc x = enc y \<longleftrightarrow> x = y"
  using delimits [of x y "[]" "[]"] by auto

lemma enc_prefix_eq: "fits x \<Longrightarrow> fits y \<Longrightarrow> enc x = enc y @ s \<longleftrightarrow> x = y \<and> s = []"
  using delimits [of x y "[]" s] by auto

lemma concat_append_eq_iff:
  "length xs = length ys \<Longrightarrow> list_all fits xs \<Longrightarrow> list_all fits ys \<Longrightarrow>
   concat (map enc xs) @ r = concat (map enc ys) @ s \<longleftrightarrow> xs = ys \<and> r = s"
  by (induction xs ys rule: list_induct2) (auto simp: append_eq_iff)

lemma concat_eq_iff:
  "length xs = length ys \<Longrightarrow> list_all fits xs \<Longrightarrow> list_all fits ys \<Longrightarrow>
   concat (map enc xs) = concat (map enc ys) \<longleftrightarrow> xs = ys"
  using concat_append_eq_iff [of xs ys "[]" "[]"] by simp

end

section \<open>The primitives are self-delimiting\<close>

lemma length_to_be_bytes [simp]: "length (to_be_bytes n x) = n"
  by (simp add: to_be_bytes_def)

lemma bit_to_be_bytes:
  assumes "i < 8 * n"
  shows "bit x i \<longleftrightarrow> bit (rev (to_be_bytes n x) ! (i div 8)) (i mod 8)"
proof -
  have "i div 8 < n" using assms by (simp add: less_mult_imp_div_less mult.commute)
  then have "rev (to_be_bytes n x) ! (i div 8) = ucast (drop_bit (8 * (i div 8)) x)"
    by (simp add: to_be_bytes_def rev_map)
  then show ?thesis
    by (simp add: bit_simps)
qed

lemma to_be_bytes_inject:
  assumes "LENGTH('a) \<le> 8 * n" "to_be_bytes n (x :: 'a::len word) = to_be_bytes n y"
  shows "x = y"
proof (rule bit_word_eqI)
  fix i assume "i < LENGTH('a)"
  then show "bit x i = bit y i"
    using assms bit_to_be_bytes [of i n x] bit_to_be_bytes [of i n y] by simp
qed

lemma self_delimiting_words:
  assumes "LENGTH('a) \<le> 8 * n"
  shows "self_delimiting (to_be_bytes n :: 'a::len word \<Rightarrow> bytes) (\<lambda>_. True)"
  using assms by unfold_locales (auto dest: to_be_bytes_inject)

interpretation u16: self_delimiting "to_be_bytes 2 :: 16 word \<Rightarrow> bytes" "\<lambda>_. True"
  by (rule self_delimiting_words) simp

interpretation u32: self_delimiting "to_be_bytes 4 :: 32 word \<Rightarrow> bytes" "\<lambda>_. True"
  by (rule self_delimiting_words) simp

interpretation u64: self_delimiting "to_be_bytes 8 :: 64 word \<Rightarrow> bytes" "\<lambda>_. True"
  by (rule self_delimiting_words) simp

interpretation u128: self_delimiting "to_be_bytes 16 :: 128 word \<Rightarrow> bytes" "\<lambda>_. True"
  by (rule self_delimiting_words) simp

lemma word_of_int_inject_i64:
  assumes "is_i64 x" "is_i64 y" "(word_of_int x :: 64 word) = word_of_int y"
  shows "x = y"
proof -
  have "take_bit 64 x = take_bit 64 y" using assms(3) by (simp add: word_of_int_eq_iff)
  then have "x mod 2 ^ 64 = y mod 2 ^ 64" by (simp add: take_bit_eq_mod)
  then have "(x - y) mod 2 ^ 64 = 0" by (simp add: mod_eq_dvd_iff)
  moreover have "\<bar>x - y\<bar> < 2 ^ 64" using assms(1,2) by (auto simp: is_i64_def i64_defs)
  ultimately show ?thesis
    using zdvd_imp_le [of "2 ^ 64" "\<bar>x - y\<bar>"] by (auto simp: mod_0_imp_dvd)
qed

lemma word_of_int_i64_iff:
  "is_i64 x \<Longrightarrow> is_i64 y \<Longrightarrow> (word_of_int x :: 64 word) = word_of_int y \<longleftrightarrow> x = y"
  using word_of_int_inject_i64 by blast

interpretation i64: self_delimiting "\<lambda>v. to_be_bytes 8 (word_of_int v :: 64 word)" is_i64
  by unfold_locales (auto dest: word_of_int_inject_i64 simp: u64.enc_eq_iff)

definition bytes_fit :: "'a list \<Rightarrow> bool" where
  "bytes_fit b \<longleftrightarrow> length b < 2 ^ 32"

interpretation prefixed_bytes: self_delimiting "push_bytes []" bytes_fit
proof unfold_locales
  fix x y r s :: bytes
  assume fit: "bytes_fit x" "bytes_fit y" and eq: "push_bytes [] x @ r = push_bytes [] y @ s"
  then have len: "(word_of_nat (length x) :: 32 word) = word_of_nat (length y)" and rest: "x @ r = y @ s"
    by (simp_all add: push_bytes_def push_u32_def u32.enc_eq_iff)
  have "length x = length y"
    using len fit by (simp add: word_of_nat_eq_iff take_bit_nat_eq_self bytes_fit_def)
  then show "x = y \<and> r = s" using rest by simp
qed

lemma as_bytes_inject [simp]: "as_bytes s = as_bytes t \<longleftrightarrow> s = t"
proof
  have inj: "inj (\<lambda>c. word_of_nat (byte_of c) :: 8 word)"
  proof (rule injI)
    fix c d assume "(word_of_nat (byte_of c) :: 8 word) = word_of_nat (byte_of d)"
    moreover have "byte_of c < 256" "byte_of d < 256"
      by (simp_all add: byte_of_def nat_of_char_less_256)
    ultimately have "byte_of c = byte_of d"
      by (simp add: word_of_nat_eq_iff take_bit_nat_eq_self)
    then show "c = d" by (simp add: byte_of_def)
  qed
  show "as_bytes s = as_bytes t \<Longrightarrow> s = t"
    using inj by (simp add: as_bytes_def inj_map_eq_map)
qed simp

lemma length_as_bytes [simp]: "length (as_bytes s) = length s"
  by (simp add: as_bytes_def)

lemma as_bytes_simps [simp]:
  "as_bytes [] = []"
  "as_bytes (c # s) = word_of_nat (byte_of c) # as_bytes s"
  "as_bytes (s @ t) = as_bytes s @ as_bytes t"
  by (simp_all add: as_bytes_def)

lemma bytes_fit_as_bytes [simp]: "bytes_fit (as_bytes s) = bytes_fit s"
  by (simp add: bytes_fit_def)

interpretation prefixed_str: self_delimiting "push_str []" bytes_fit
  by unfold_locales (simp_all add: push_str_def prefixed_bytes.append_eq_iff)

lemma push_out:
  "push_u16 out a = out @ to_be_bytes 2 a"
  "push_u32 out b = out @ to_be_bytes 4 b"
  "push_u64 out c = out @ to_be_bytes 8 c"
  "push_i64 out d = out @ to_be_bytes 8 (word_of_int d :: 64 word)"
  by (simp_all add: push_u16_def push_u32_def push_u64_def push_i64_def)

lemma push_bytes_out: "push_bytes out v = out @ push_bytes [] v"
  by (simp add: push_bytes_def push_u32_def)

lemma push_str_out: "push_str out v = out @ push_str [] v"
  by (simp add: push_str_def push_bytes_out [of out])

end
