(* ===== verification/Core_Protocol.thy ===== *)
theory Core_Protocol
  imports Byte_Encoding
begin

text \<open>
  The shared protocol crate (\<^verbatim>\<open>src/common/torchat-core/src/\<close>): identities and contact invites
  (\<^verbatim>\<open>lib.rs\<close>), endpoint bundles, the handshake messages, message envelopes and frames
  (\<^verbatim>\<open>peer_protocol.rs\<close>), and the payloads sent through the relay (\<^verbatim>\<open>relay.rs\<close>).

  The cryptographic crates and \<open>base64\<close> are the parameter \<open>crypto_lib\<close>, the serialisation crate is
  the parameter \<open>json_lib\<close>. What the proofs use of them are the named predicates
  \<open>crypto_lib_ok\<close> (base64 decodes what it encodes, a digest has 32 bytes, a signature made with a key
  verifies under its public key), \<open>invite_json_ok\<close> (a serialised struct starts with a brace) and
  \<open>frame_json_ok\<close>, \<open>payload_json_ok\<close> and \<open>ciphertext_json_ok\<close> (what was written is read back).
\<close>

section \<open>Libraries\<close>

record crypto_lib =
  sha256 :: "bytes \<Rightarrow> bytes"
  hmac_sha256 :: "bytes \<Rightarrow> bytes \<Rightarrow> bytes"
  b64_encode :: "bytes \<Rightarrow> string"
  b64_decode :: "string \<Rightarrow> bytes option"
  ed25519_public :: "bytes \<Rightarrow> bytes"
  ed25519_sign :: "bytes \<Rightarrow> bytes \<Rightarrow> bytes"
  ed25519_verify :: "bytes \<Rightarrow> bytes \<Rightarrow> bytes \<Rightarrow> bool"

definition crypto_lib_ok :: "crypto_lib \<Rightarrow> bool" where
  "crypto_lib_ok lib \<longleftrightarrow>
     (\<forall>b. b64_decode lib (b64_encode lib b) = Some b) \<and>
     (\<forall>b. length (sha256 lib b) = 32) \<and>
     (\<forall>k. length (ed25519_public lib k) = 32) \<and>
     (\<forall>k m. length (ed25519_sign lib k m) = 64) \<and>
     (\<forall>k m. ed25519_verify lib (ed25519_public lib k) m (ed25519_sign lib k m))"

section \<open>Identities\<close>

type_synonym 'a checked = "string + 'a"

definition PROTOCOL_VERSION :: "16 word" where
  "PROTOCOL_VERSION = 1"

definition is_valid_onion_address :: "string \<Rightarrow> bool" where
  "is_valid_onion_address value =
     (case strip_suffix ''.onion'' (to_ascii_lowercase (trim value)) of
        None \<Rightarrow> False
      | Some host \<Rightarrow> length host = 56 \<and>
          list_all (\<lambda>c. (97 \<le> byte_of c \<and> byte_of c \<le> 122) \<or> (50 \<le> byte_of c \<and> byte_of c \<le> 55)) host)"

record identity =
  signing_key :: bytes

definition identity_public_key :: "crypto_lib \<Rightarrow> identity \<Rightarrow> string" where
  "identity_public_key lib idn = b64_encode lib (ed25519_public lib (signing_key idn))"

definition identity_installation_id :: "crypto_lib \<Rightarrow> identity \<Rightarrow> string" where
  "identity_installation_id lib idn = b64_encode lib (sha256 lib (ed25519_public lib (signing_key idn)))"

fun chunks2 :: "'a list \<Rightarrow> 'a list list" where
  "chunks2 (a # b # r) = [a, b] # chunks2 r"
| "chunks2 [a] = [[a]]"
| "chunks2 [] = []"

fun join :: "'a list \<Rightarrow> 'a list list \<Rightarrow> 'a list" where
  "join sep [] = []"
| "join sep [x] = x"
| "join sep (x # y # r) = x @ sep @ join sep (y # r)"

definition fingerprint_from_public_key :: "crypto_lib \<Rightarrow> bytes \<Rightarrow> string" where
  "fingerprint_from_public_key lib public_key =
     join '' '' (map (\<lambda>part. hex_byte (part ! 0) @ hex_byte (part ! 1)) (chunks2 (take 16 (sha256 lib public_key))))"

definition identity_fingerprint :: "crypto_lib \<Rightarrow> identity \<Rightarrow> string" where
  "identity_fingerprint lib idn = fingerprint_from_public_key lib (ed25519_public lib (signing_key idn))"

definition identity_sign :: "crypto_lib \<Rightarrow> identity \<Rightarrow> bytes \<Rightarrow> string" where
  "identity_sign lib idn message = b64_encode lib (ed25519_sign lib (signing_key idn) message)"

definition verify_signature :: "crypto_lib \<Rightarrow> string \<Rightarrow> bytes \<Rightarrow> string \<Rightarrow> bool" where
  "verify_signature lib public_key message signature =
     (case b64_decode lib public_key of
        None \<Rightarrow> False
      | Some public_bytes \<Rightarrow>
          (case b64_decode lib signature of
             None \<Rightarrow> False
           | Some signature_bytes \<Rightarrow>
               length public_bytes = 32 \<and> length signature_bytes = 64 \<and>
               ed25519_verify lib public_bytes message signature_bytes))"

definition pairing_code_digits :: "string \<Rightarrow> string checked" where
  "pairing_code_digits value =
     (let code = trim value in
      if length code \<noteq> 8 \<or> \<not> list_all is_ascii_digit code
      then Err ''pairing code must have exactly 8 digits'' else Ok code)"

section \<open>Endpoint bundles\<close>

definition PEER_VIRTUAL_PORT :: "16 word" where
  "PEER_VIRTUAL_PORT = 443"

definition MAX_ENDPOINT_CLOCK_SKEW_SECS :: int where
  "MAX_ENDPOINT_CLOCK_SKEW_SECS = 10 * 60"

definition MAX_TRANSPORT_CIPHERTEXT_BYTES :: nat where
  "MAX_TRANSPORT_CIPHERTEXT_BYTES = 128 * 1024"

definition MAX_PEER_FRAME_BYTES :: nat where
  "MAX_PEER_FRAME_BYTES = 256 * 1024"

definition MAX_PREAUTH_FRAME_BYTES :: nat where
  "MAX_PREAUTH_FRAME_BYTES = 8 * 1024"

definition ENDPOINT_DOMAIN :: bytes where
  "ENDPOINT_DOMAIN = as_bytes ''torchat-peer-endpoint-v1''"

definition HANDSHAKE_DOMAIN :: bytes where
  "HANDSHAKE_DOMAIN = as_bytes ''torchat-peer-handshake-v1''"

definition MESSAGE_DOMAIN :: bytes where
  "MESSAGE_DOMAIN = as_bytes ''torchat-peer-message-v1''"

record peer_endpoint_bundle =
  ep_protocol_version :: "16 word"
  ep_installation_id :: string
  ep_onion_address :: string
  ep_virtual_port :: "16 word"
  ep_identity_public_key :: string
  ep_capabilities :: "string list"
  ep_sequence :: "64 word"
  ep_issued_at :: int
  ep_expires_at :: "int option"
  ep_signature :: string

definition endpoint_signing_bytes :: "peer_endpoint_bundle \<Rightarrow> bytes" where
  "endpoint_signing_bytes e =
     (let out = push_bytes [] ENDPOINT_DOMAIN;
          out = push_u16 out (ep_protocol_version e);
          out = push_str out (ep_installation_id e);
          out = push_str out (ep_onion_address e);
          out = push_u16 out (ep_virtual_port e);
          out = push_str out (ep_identity_public_key e);
          out = push_u32 out (word_of_nat (length (ep_capabilities e)));
          out = foldl push_str out (ep_capabilities e);
          out = push_u64 out (ep_sequence e);
          out = push_i64 out (ep_issued_at e)
      in case ep_expires_at e of
           Some value \<Rightarrow> push_i64 (out @ [1]) value
         | None \<Rightarrow> out @ [0])"

definition endpoint_new ::
  "crypto_lib \<Rightarrow> identity \<Rightarrow> string \<Rightarrow> 64 word \<Rightarrow> int \<Rightarrow> int option \<Rightarrow> peer_endpoint_bundle" where
  "endpoint_new lib idn onion_address sequence issued_at expires_at =
     (let e = \<lparr> ep_protocol_version = PROTOCOL_VERSION,
                ep_installation_id = identity_installation_id lib idn,
                ep_onion_address = to_ascii_lowercase (trim onion_address),
                ep_virtual_port = PEER_VIRTUAL_PORT,
                ep_identity_public_key = identity_public_key lib idn,
                ep_capabilities = [''peer_message_v1'', ''peer_receipt_v1''],
                ep_sequence = sequence, ep_issued_at = issued_at, ep_expires_at = expires_at,
                ep_signature = [] \<rparr>
      in e\<lparr>ep_signature := identity_sign lib idn (endpoint_signing_bytes e)\<rparr>)"

definition decode_public_key :: "crypto_lib \<Rightarrow> string \<Rightarrow> bytes checked" where
  "decode_public_key lib value =
     (case b64_decode lib value of
        None \<Rightarrow> Err ''invalid endpoint identity public key''
      | Some decoded \<Rightarrow>
          if length decoded = 32 then Ok decoded
          else Err ''invalid endpoint identity public key length'')"

definition installation_id_from_public_key :: "crypto_lib \<Rightarrow> bytes \<Rightarrow> string" where
  "installation_id_from_public_key lib public_key = b64_encode lib (sha256 lib public_key)"

definition ensure :: "bool \<Rightarrow> 'e \<Rightarrow> 'e + unit" where
  "ensure ok e = (if ok then Ok () else Err e)"

definition validate_expiry :: "int option \<Rightarrow> int \<Rightarrow> unit checked" where
  "validate_expiry expires now =
     (case expires of None \<Rightarrow> Ok ()
      | Some expires_at \<Rightarrow>
          and_then (ensure (\<not> expires_at < now) ''peer endpoint has expired'') (\<lambda>_.
          ensure (\<not> i64_sub expires_at now > MAX_ENDPOINT_CLOCK_SKEW_SECS)
            ''peer endpoint expiry exceeds clock skew bound''))"

definition endpoint_validate :: "crypto_lib \<Rightarrow> peer_endpoint_bundle \<Rightarrow> int \<Rightarrow> unit checked" where
  "endpoint_validate lib e now =
     and_then (ensure (ep_protocol_version e = PROTOCOL_VERSION)
       ''unsupported peer endpoint protocol version'') (\<lambda>_.
     and_then (ensure (ep_sequence e \<noteq> 0) ''peer endpoint sequence must be positive'') (\<lambda>_.
     and_then (ensure (ep_virtual_port e = PEER_VIRTUAL_PORT) ''unsupported peer endpoint virtual port'') (\<lambda>_.
     and_then (ensure (\<not> i64_sub (ep_issued_at e) now > MAX_ENDPOINT_CLOCK_SKEW_SECS)
       ''peer endpoint issued-at exceeds clock skew bound'') (\<lambda>_.
     and_then (ensure (is_valid_onion_address (ep_onion_address e)) ''invalid Tor v3 peer endpoint'') (\<lambda>_.
     and_then (validate_expiry (ep_expires_at e) now) (\<lambda>_.
     and_then (ensure (ep_capabilities e \<noteq> [] \<and>
         \<not> list_ex (\<lambda>c. is_blank c \<or> length c > 64) (ep_capabilities e))
       ''invalid peer endpoint capabilities'') (\<lambda>_.
     and_then (ensure (distinct (ep_capabilities e)) ''duplicate peer endpoint capability'') (\<lambda>_.
     and_then (decode_public_key lib (ep_identity_public_key e)) (\<lambda>public_key.
     and_then (ensure (installation_id_from_public_key lib public_key = ep_installation_id e)
       ''peer endpoint installation ID does not match identity key'') (\<lambda>_.
     ensure (verify_signature lib (ep_identity_public_key e) (endpoint_signing_bytes e) (ep_signature e))
       ''peer endpoint signature is invalid''))))))))))"

definition validate_successor ::
  "crypto_lib \<Rightarrow> peer_endpoint_bundle \<Rightarrow> peer_endpoint_bundle \<Rightarrow> int \<Rightarrow> unit checked" where
  "validate_successor lib e previous now =
     and_then (endpoint_validate lib e now) (\<lambda>_.
     and_then (ensure (ep_installation_id e = ep_installation_id previous \<and>
                      ep_identity_public_key e = ep_identity_public_key previous)
       ''peer endpoint update changed contact identity'') (\<lambda>_.
     ensure (\<not> ep_sequence e \<le> ep_sequence previous) ''peer endpoint sequence did not advance''))"

record peer_endpoint_update =
  eu_previous_sequence :: "64 word"
  eu_endpoint :: peer_endpoint_bundle

definition update_validate ::
  "crypto_lib \<Rightarrow> peer_endpoint_update \<Rightarrow> peer_endpoint_bundle \<Rightarrow> int \<Rightarrow> unit checked" where
  "update_validate lib u previous now =
     and_then (ensure (eu_previous_sequence u = ep_sequence previous)
       ''peer endpoint update does not reference current sequence'') (\<lambda>_.
     validate_successor lib (eu_endpoint u) previous now)"

section \<open>Handshake messages\<close>

record peer_client_hello =
  ch_protocol_version :: "16 word"
  ch_installation_id :: string
  ch_endpoint_sequence :: "64 word"
  ch_capability_id :: string
  ch_capability_proof :: string
  ch_nonce :: bytes

definition capability_mac_input :: "peer_client_hello \<Rightarrow> bytes" where
  "capability_mac_input hello =
     as_bytes ''torchat-peer-capability-v1'' @ as_bytes (ch_installation_id hello) @
     to_be_bytes 8 (ch_endpoint_sequence hello) @ as_bytes (ch_capability_id hello) @ ch_nonce hello"

definition capability_proof :: "crypto_lib \<Rightarrow> bytes \<Rightarrow> peer_client_hello \<Rightarrow> string" where
  "capability_proof lib secret hello = b64_encode lib (hmac_sha256 lib secret (capability_mac_input hello))"

definition verify_capability_proof :: "crypto_lib \<Rightarrow> bytes \<Rightarrow> peer_client_hello \<Rightarrow> bool" where
  "verify_capability_proof lib secret hello =
     (case b64_decode lib (ch_capability_proof hello) of
        None \<Rightarrow> False
      | Some proof \<Rightarrow> hmac_sha256 lib secret (capability_mac_input hello) = proof)"

record peer_server_challenge =
  sc_protocol_version :: "16 word"
  sc_installation_id :: string
  sc_endpoint_sequence :: "64 word"
  sc_nonce :: bytes
  sc_session_id :: "128 word"
  sc_signature :: string

record peer_client_proof =
  cp_session_id :: "128 word"
  cp_signature :: string

definition handshake_transcript ::
  "peer_client_hello \<Rightarrow> string \<Rightarrow> 64 word \<Rightarrow> bytes \<Rightarrow> 128 word \<Rightarrow> string \<Rightarrow> bytes" where
  "handshake_transcript client server_installation_id server_endpoint_sequence server_nonce session_id
     onion_address =
     (let out = push_bytes [] HANDSHAKE_DOMAIN;
          out = push_u16 out (ch_protocol_version client);
          out = push_str out (ch_installation_id client);
          out = push_u64 out (ch_endpoint_sequence client);
          out = push_str out (ch_capability_id client);
          out = push_bytes out (ch_nonce client);
          out = push_str out server_installation_id;
          out = push_u64 out server_endpoint_sequence;
          out = push_bytes out server_nonce;
          out = push_bytes out (to_be_bytes 16 session_id)
      in push_str out onion_address)"

section \<open>Message envelopes and frames\<close>

record peer_message_envelope =
  me_protocol_version :: "16 word"
  me_session_id :: "128 word"
  me_message_id :: "128 word"
  me_conversation_id :: string
  me_sender_installation_id :: string
  me_sequence :: "64 word"
  me_created_at :: int
  me_ciphertext :: bytes
  me_signature :: string

definition ciphertext_hash :: "crypto_lib \<Rightarrow> peer_message_envelope \<Rightarrow> bytes" where
  "ciphertext_hash lib m = sha256 lib (me_ciphertext m)"

definition envelope_signing_bytes :: "crypto_lib \<Rightarrow> peer_message_envelope \<Rightarrow> bytes" where
  "envelope_signing_bytes lib m =
     (let out = push_bytes [] MESSAGE_DOMAIN;
          out = push_u16 out (me_protocol_version m);
          out = push_bytes out (to_be_bytes 16 (me_session_id m));
          out = push_bytes out (to_be_bytes 16 (me_message_id m));
          out = push_str out (me_conversation_id m);
          out = push_str out (me_sender_installation_id m);
          out = push_u64 out (me_sequence m);
          out = push_i64 out (me_created_at m)
      in push_bytes out (ciphertext_hash lib m))"

definition envelope_new ::
  "crypto_lib \<Rightarrow> identity \<Rightarrow> 128 word \<Rightarrow> 128 word \<Rightarrow> string \<Rightarrow> 64 word \<Rightarrow> int \<Rightarrow> bytes \<Rightarrow>
   peer_message_envelope" where
  "envelope_new lib idn session_id message_id conversation_id sequence created_at ciphertext =
     (let m = \<lparr> me_protocol_version = PROTOCOL_VERSION, me_session_id = session_id,
                me_message_id = message_id, me_conversation_id = conversation_id,
                me_sender_installation_id = identity_installation_id lib idn, me_sequence = sequence,
                me_created_at = created_at, me_ciphertext = ciphertext, me_signature = [] \<rparr>
      in m\<lparr>me_signature := identity_sign lib idn (envelope_signing_bytes lib m)\<rparr>)"

definition envelope_verify :: "crypto_lib \<Rightarrow> peer_message_envelope \<Rightarrow> string \<Rightarrow> string \<Rightarrow> unit checked" where
  "envelope_verify lib m expected_sender public_key =
     and_then (ensure (me_protocol_version m = PROTOCOL_VERSION)
       ''unsupported peer message protocol version'') (\<lambda>_.
     and_then (ensure (me_sender_installation_id m = expected_sender)
       ''peer message sender does not match authenticated session'') (\<lambda>_.
     and_then (ensure (me_sequence m \<noteq> 0 \<and> me_ciphertext m \<noteq> []) ''invalid peer message envelope'') (\<lambda>_.
     ensure (verify_signature lib public_key (envelope_signing_bytes lib m) (me_signature m))
       ''peer message signature is invalid'')))"

datatype peer_ack_kind = AckReceived | AckPersisted | AckDelivered | AckRejected

record peer_ack =
  pa_session_id :: "128 word"
  pa_message_id :: "128 word"
  pa_kind :: peer_ack_kind
  pa_ciphertext_hash :: bytes

datatype peer_presence_state = PresenceOnline | PresenceAway | PresenceOffline

datatype peer_frame =
    ClientHelloFrame peer_client_hello
  | ServerChallengeFrame peer_server_challenge
  | ClientProofFrame peer_client_proof
  | HandshakeAcceptedFrame "128 word"
  | MessageFrame peer_message_envelope
  | AckFrame peer_ack
  | EndpointUpdateFrame peer_endpoint_update
  | PingFrame "64 word"
  | PongFrame "64 word"
  | PresenceFrame peer_presence_state int int "64 word"
  | TypingFrame bool int int "64 word"
  | FocusFrame bool int int "64 word"
  | ProbeRequestFrame "64 word"
  | ProbeResponseFrame "64 word" peer_presence_state int
  | ProtocolErrorFrame string

section \<open>Contact cards and invites\<close>

record contact_card =
  cc_installation_id :: string
  cc_public_key :: string
  cc_fingerprint :: string
  cc_nickname :: string

definition card_from_identity :: "crypto_lib \<Rightarrow> identity \<Rightarrow> string \<Rightarrow> contact_card" where
  "card_from_identity lib idn nickname =
     \<lparr> cc_installation_id = identity_installation_id lib idn, cc_public_key = identity_public_key lib idn,
       cc_fingerprint = identity_fingerprint lib idn, cc_nickname = nickname \<rparr>"

definition card_validate :: "crypto_lib \<Rightarrow> contact_card \<Rightarrow> unit checked" where
  "card_validate lib c =
     and_then (ok_or (b64_decode lib (cc_public_key c)) ''invalid contact public key'') (\<lambda>public.
     and_then (ensure (length public = 32) ''invalid contact public key length'') (\<lambda>_.
     and_then (ensure (b64_encode lib (sha256 lib public) = cc_installation_id c)
       ''contact installation ID does not match public key'') (\<lambda>_.
     and_then (ensure (fingerprint_from_public_key lib public = cc_fingerprint c)
       ''contact fingerprint does not match public key'') (\<lambda>_.
     ensure (\<not> (length (trim (cc_nickname c)) < 2 \<or> chars_count (trim (cc_nickname c)) > 32))
       ''contact nickname is invalid''))))"

record contact_invite =
  ci_version :: "16 word"
  ci_installation_id :: string
  ci_public_key :: string
  ci_fingerprint :: string
  ci_nickname :: "string option"
  ci_recipient_installation_id :: "string option"
  ci_key_package :: string
  ci_invite_id :: string
  ci_expires_at :: "64 word"
  ci_peer_endpoint :: "peer_endpoint_bundle option"
  ci_peer_capability_id :: "string option"
  ci_peer_capability_secret :: "string option"
  ci_signature :: "string option"

datatype relay_payload =
    PairingOffer "16 word" string string string
  | PairingRejected "16 word" string
  | Welcome "16 word" contact_card string string string string "peer_endpoint_bundle option"
      "string option" "string option" string
  | WelcomeApplied "16 word" contact_card string string string
  | PeerEndpointBootstrap "16 word" contact_card string peer_endpoint_bundle
  | RelationshipRemovalApplied "16 word" contact_card string string int int string

record peer_ciphertext_payload =
  cip_protocol_version :: "16 word"
  cip_ciphertext :: string

record json_lib =
  frame_to_vec :: "peer_frame \<Rightarrow> bytes checked"
  frame_from_slice :: "bytes \<Rightarrow> peer_frame checked"
  invite_to_vec :: "contact_invite \<Rightarrow> bytes checked"
  invite_from_str :: "string \<Rightarrow> contact_invite checked"
  payload_to_vec :: "relay_payload \<Rightarrow> bytes checked"
  payload_from_slice :: "bytes \<Rightarrow> relay_payload checked"
  ciphertext_to_vec :: "peer_ciphertext_payload \<Rightarrow> bytes checked"
  ciphertext_from_slice :: "bytes \<Rightarrow> peer_ciphertext_payload checked"
  endpoint_to_vec :: "peer_endpoint_bundle \<Rightarrow> bytes"

definition is_object :: "bytes \<Rightarrow> bool" where
  "is_object b \<longleftrightarrow> b \<noteq> [] \<and> hd b = 0x7B"

definition frame_json_ok :: "json_lib \<Rightarrow> bool" where
  "frame_json_ok json \<longleftrightarrow> (\<forall>f b. frame_to_vec json f = Ok b \<longrightarrow> frame_from_slice json b = Ok f)"

definition invite_json_ok :: "json_lib \<Rightarrow> bool" where
  "invite_json_ok json \<longleftrightarrow> (\<forall>i b. invite_to_vec json i = Ok b \<longrightarrow> is_object b)"

definition payload_json_ok :: "json_lib \<Rightarrow> bool" where
  "payload_json_ok json \<longleftrightarrow> (\<forall>p b. payload_to_vec json p = Ok b \<longrightarrow> payload_from_slice json b = Ok p)"

definition ciphertext_json_ok :: "json_lib \<Rightarrow> bool" where
  "ciphertext_json_ok json \<longleftrightarrow>
     (\<forall>c b. ciphertext_to_vec json c = Ok b \<longrightarrow> ciphertext_from_slice json b = Ok c)"

definition encode_frame :: "json_lib \<Rightarrow> peer_frame \<Rightarrow> bytes checked" where
  "encode_frame json f =
     (case frame_to_vec json f of Inl error \<Rightarrow> Err (''encode peer frame: '' @ error) | Inr b \<Rightarrow> Ok b)"

definition decode_frame :: "json_lib \<Rightarrow> bytes \<Rightarrow> bool \<Rightarrow> peer_frame checked" where
  "decode_frame json b authenticated =
     (let limit = if authenticated then MAX_PEER_FRAME_BYTES else MAX_PREAUTH_FRAME_BYTES in
      if length b > limit then Err ''peer frame exceeds size limit''
      else case frame_from_slice json b of Inl error \<Rightarrow> Err (''decode peer frame: '' @ error) | Inr f \<Rightarrow> Ok f)"

definition ciphertext_payload_new :: "crypto_lib \<Rightarrow> bytes \<Rightarrow> peer_ciphertext_payload" where
  "ciphertext_payload_new lib ciphertext =
     \<lparr> cip_protocol_version = PROTOCOL_VERSION, cip_ciphertext = b64_encode lib ciphertext \<rparr>"

definition ciphertext_payload_encode :: "crypto_lib \<Rightarrow> json_lib \<Rightarrow> peer_ciphertext_payload \<Rightarrow> string checked" where
  "ciphertext_payload_encode lib json p =
     (case ciphertext_to_vec json p of
        Inl error \<Rightarrow> Err (''encode peer ciphertext payload: '' @ error)
      | Inr value \<Rightarrow> Ok (b64_encode lib value))"

definition ciphertext_payload_decode :: "crypto_lib \<Rightarrow> json_lib \<Rightarrow> string \<Rightarrow> bytes checked" where
  "ciphertext_payload_decode lib json value =
     and_then (ok_or (b64_decode lib value) ''invalid peer ciphertext payload encoding'') (\<lambda>b.
     and_then (case ciphertext_from_slice json b of
                 Inl error \<Rightarrow> Err (''invalid peer ciphertext payload: '' @ error) | Inr p \<Rightarrow> Ok p) (\<lambda>payload.
     and_then (ensure (cip_protocol_version payload = PROTOCOL_VERSION)
       ''unsupported peer ciphertext payload version'') (\<lambda>_.
     ok_or (b64_decode lib (cip_ciphertext payload)) ''invalid peer ciphertext encoding'')))"

definition invite_from_identity ::
  "crypto_lib \<Rightarrow> identity \<Rightarrow> string option \<Rightarrow> string option \<Rightarrow> string \<Rightarrow> string \<Rightarrow> 64 word \<Rightarrow> contact_invite" where
  "invite_from_identity lib idn nickname recipient key_package invite_id expires_at =
     \<lparr> ci_version = PROTOCOL_VERSION, ci_installation_id = identity_installation_id lib idn,
       ci_public_key = identity_public_key lib idn, ci_fingerprint = identity_fingerprint lib idn,
       ci_nickname = nickname, ci_recipient_installation_id = recipient, ci_key_package = key_package,
       ci_invite_id = invite_id, ci_expires_at = expires_at, ci_peer_endpoint = None,
       ci_peer_capability_id = None, ci_peer_capability_secret = None, ci_signature = None \<rparr>"

definition invite_signing_bytes :: "json_lib \<Rightarrow> contact_invite \<Rightarrow> bytes checked" where
  "invite_signing_bytes json i = invite_to_vec json (i\<lparr>ci_signature := None\<rparr>)"

definition invite_sign :: "crypto_lib \<Rightarrow> json_lib \<Rightarrow> identity \<Rightarrow> contact_invite \<Rightarrow> contact_invite checked" where
  "invite_sign lib json idn i =
     and_then (invite_signing_bytes json i) (\<lambda>b. Ok (i\<lparr>ci_signature := Some (identity_sign lib idn b)\<rparr>))"

definition default_max_future_lifetime_secs :: "64 word" where
  "default_max_future_lifetime_secs = 15 * 60 + 120"

definition u64_saturating_sub :: "64 word \<Rightarrow> 64 word \<Rightarrow> 64 word" where
  "u64_saturating_sub a b = (if b \<le> a then a - b else 0)"

definition invite_check_capability :: "crypto_lib \<Rightarrow> contact_invite \<Rightarrow> unit checked" where
  "invite_check_capability lib i =
     (case (ci_peer_capability_id i, ci_peer_capability_secret i) of
        (Some cap, Some secret) \<Rightarrow>
          and_then (ensure (length cap = 16 \<and> list_all is_ascii_hexdigit cap)
            ''invite capability ID is invalid'') (\<lambda>_.
          and_then (ok_or (b64_decode lib secret) ''invite capability secret is invalid'') (\<lambda>secret.
          and_then (ensure (\<not> length secret < 16) ''invite capability secret is too short'') (\<lambda>_.
          and_then (ok_or (ci_peer_endpoint i) ''invite capability has no peer endpoint'') (\<lambda>endpoint.
          ensure (list_ex (\<lambda>value. value = ''contact_endpoint_v1:'' @ cap) (ep_capabilities endpoint))
            ''invite capability is not advertised by endpoint''))))
      | (None, None) \<Rightarrow> Ok ()
      | _ \<Rightarrow> Err ''invite capability credentials are incomplete'')"

definition invite_check_identity :: "crypto_lib \<Rightarrow> contact_invite \<Rightarrow> unit checked" where
  "invite_check_identity lib i =
     and_then (ensure (ci_version i = PROTOCOL_VERSION) ''unsupported invite version'') (\<lambda>_.
     and_then (ok_or (b64_decode lib (ci_public_key i)) ''invalid invite public key'') (\<lambda>public.
     and_then (ensure (length public = 32) ''invalid invite public key length'') (\<lambda>_.
     and_then (ensure (ci_installation_id i = b64_encode lib (sha256 lib public))
       ''invite installation ID does not match public key'') (\<lambda>_.
     ensure (ci_fingerprint i = fingerprint_from_public_key lib public)
       ''invite fingerprint does not match public key''))))"

definition invite_check_endpoint :: "crypto_lib \<Rightarrow> contact_invite \<Rightarrow> 64 word \<Rightarrow> unit checked" where
  "invite_check_endpoint lib i now =
     (case ci_peer_endpoint i of
        None \<Rightarrow> Ok ()
      | Some endpoint \<Rightarrow>
          and_then (endpoint_validate lib endpoint (sint now)) (\<lambda>_.
          ensure (ep_installation_id endpoint = ci_installation_id i \<and>
                  ep_identity_public_key endpoint = ci_public_key i)
            ''invite peer endpoint does not match invite identity''))"

definition parse_at_with_policy ::
  "crypto_lib \<Rightarrow> json_lib \<Rightarrow> (string \<Rightarrow> 128 word option) \<Rightarrow> string \<Rightarrow> 64 word \<Rightarrow> 64 word \<Rightarrow>
   contact_invite checked" where
  "parse_at_with_policy lib json parse_uuid value now max_future_lifetime_secs =
     and_then (case invite_from_str json value of
                 Inl e \<Rightarrow> Err (''invalid invite JSON: '' @ e) | Inr i \<Rightarrow> Ok i) (\<lambda>i.
     and_then (invite_check_identity lib i) (\<lambda>_.
     and_then (ensure (ci_key_package i \<noteq> []) ''invite has no MLS KeyPackage'') (\<lambda>_.
     and_then (ensure (ci_recipient_installation_id i \<noteq> Some []) ''invite recipient is invalid'') (\<lambda>_.
     and_then (ensure (parse_uuid (ci_invite_id i) \<noteq> None) ''invite ID is invalid'') (\<lambda>_.
     and_then (ensure (\<not> ci_expires_at i < now) ''invite has expired'') (\<lambda>_.
     and_then (ensure (\<not> u64_saturating_sub (ci_expires_at i) now > max_future_lifetime_secs)
       ''invite lifetime exceeds clock-skew policy'') (\<lambda>_.
     and_then (case ci_signature i of
                 None \<Rightarrow> Err ''invite has no signature''
               | Some s \<Rightarrow> if s = [] then Err ''invite has no signature'' else Ok s) (\<lambda>signature.
     and_then (case invite_signing_bytes json i of
                 Inl _ \<Rightarrow> Err ''invite serialization failed'' | Inr b \<Rightarrow> Ok b) (\<lambda>signed.
     and_then (ensure (verify_signature lib (ci_public_key i) signed signature)
       ''invite signature is invalid'') (\<lambda>_.
     and_then (ensure (case ci_nickname i of None \<Rightarrow> True
                       | Some v \<Rightarrow> \<not> (is_blank v \<or> chars_count v > 32)) ''invite nickname is invalid'') (\<lambda>_.
     and_then (invite_check_endpoint lib i now) (\<lambda>_.
     and_then (invite_check_capability lib i) (\<lambda>_. Ok i)))))))))))))"

definition parse_at ::
  "crypto_lib \<Rightarrow> json_lib \<Rightarrow> (string \<Rightarrow> 128 word option) \<Rightarrow> string \<Rightarrow> 64 word \<Rightarrow> contact_invite checked" where
  "parse_at lib json parse_uuid value now =
     parse_at_with_policy lib json parse_uuid value now default_max_future_lifetime_secs"

end
