(* ===== verification/Runtime_Logic.thy ===== *)
theory Runtime_Logic
  imports Changes_Session Core_Protocol
begin

text \<open>
  The constructors and validators of the runtime: \<open>torchat-runtime/src/logic.rs\<close>,
  \<open>runtime/helpers.rs\<close>, \<open>runtime/message_delivery.rs\<close>, \<open>runtime/relationship_process.rs\<close> and the
  typed ids of \<open>ids.rs\<close>. Nicknames are bounded, unread counters are 32-bit words.
\<close>

section \<open>Definitions\<close>

text \<open>The first characters of a UTF-8 string: \<open>chars().take(n)\<close>.\<close>

fun take_chars :: "nat \<Rightarrow> string \<Rightarrow> string" where
  "take_chars n [] = []"
| "take_chars n (c # cs) =
     (if is_continuation c then c # take_chars n cs
      else case n of 0 \<Rightarrow> [] | Suc m \<Rightarrow> c # take_chars m cs)"

definition starts_with :: "string \<Rightarrow> string \<Rightarrow> bool" where
  "starts_with p s \<longleftrightarrow> take (length p) s = p"

definition runtime_phase_from_str :: "string \<Rightarrow> runtime_status_phase" where
  "runtime_phase_from_str value =
     (if value = ''starting'' then PhaseStarting
      else if value = ''bootstrapping'' then PhaseBootstrapping
      else if value = ''connecting'' \<or> value = ''onion_connecting'' then PhaseConnecting
      else if value = ''degraded'' then PhaseDegraded
      else if value = ''connected'' \<or> value = ''api'' \<or> value = ''ready'' \<or> value = ''external''
      then PhaseConnected
      else if value = ''reconnecting'' then PhaseReconnecting
      else if value = ''offline'' then PhaseOffline
      else PhaseError)"

definition runtime_status_event :: "string \<Rightarrow> string \<Rightarrow> int \<Rightarrow> nat option \<Rightarrow> runtime_event" where
  "runtime_status_event phase label progress latency_ms =
     TorStatus \<lparr> ts_phase = runtime_phase_from_str phase, ts_label = label, ts_detail = [],
       ts_progress = Some progress, ts_latency_ms = latency_ms, ts_retry_attempt = 0 \<rparr>"

definition runtime_status_snapshot ::
  "string \<Rightarrow> string \<Rightarrow> string \<Rightarrow> int option \<Rightarrow> nat option \<Rightarrow> nat \<Rightarrow> runtime_tor_status" where
  "runtime_status_snapshot phase label detail progress latency_ms retry_attempt =
     \<lparr> ts_phase = runtime_phase_from_str phase, ts_label = label, ts_detail = detail,
       ts_progress = progress, ts_latency_ms = latency_ms, ts_retry_attempt = retry_attempt \<rparr>"

definition fallback_contact_nickname :: "string \<Rightarrow> string" where
  "fallback_contact_nickname installation_id =
     (let trimmed = trim installation_id in
      if starts_with ''peer-'' trimmed \<and> chars_count trimmed \<ge> 2 then take_chars 32 trimmed
      else ''peer-'' @ take_chars 8 installation_id)"

definition normalized_contact_nickname :: "string \<Rightarrow> string \<Rightarrow> string" where
  "normalized_contact_nickname installation_id nickname =
     (let trimmed = trim nickname in
      if chars_count trimmed \<ge> 2 then take_chars 32 trimmed
      else fallback_contact_nickname installation_id)"

definition contact_record_from_card :: "contact_card \<Rightarrow> bool \<Rightarrow> contact_record" where
  "contact_record_from_card c verified =
     \<lparr> ct_installation_id = cc_installation_id c,
       ct_nickname = normalized_contact_nickname (cc_installation_id c) (cc_nickname c),
       ct_public_key = cc_public_key c, ct_fingerprint = cc_fingerprint c,
       ct_local_alias = None, ct_muted = False, ct_blocked = False,
       ct_verification = (if verified then Verified else Unverified),
       ct_peer_endpoint_status = EpMissing, ct_peer_connection_status = PcOffline,
       ct_transport_policy = PeerOnly, ct_last_peer_connected_at = None, ct_last_seen_at = None,
       ct_dev = None \<rparr>"

definition contact_card_from_invite :: "contact_invite \<Rightarrow> contact_card" where
  "contact_card_from_invite i =
     \<lparr> cc_installation_id = ci_installation_id i, cc_public_key = ci_public_key i,
       cc_fingerprint = ci_fingerprint i,
       cc_nickname = normalized_contact_nickname (ci_installation_id i)
         (case ci_nickname i of None \<Rightarrow> [] | Some n \<Rightarrow> n) \<rparr>"

definition runtime_message_state :: "string \<Rightarrow> message_state" where
  "runtime_message_state st =
     (let v = to_ascii_uppercase st in
      if v = ''QUEUED'' \<or> v = ''PENDING'' then Queued
      else if v = ''SENDING'' then Sending
      else if v = ''SENT'' then Sent
      else if v = ''DELIVERED'' then Delivered
      else if v = ''READ'' then ReadByPeer
      else Failed)"

definition runtime_conversation_summary ::
  "string \<Rightarrow> string \<Rightarrow> bool \<Rightarrow> 32 word \<Rightarrow> string option \<Rightarrow> int \<Rightarrow> conversation_summary" where
  "runtime_conversation_summary i contact active unread preview last_at =
     \<lparr> cv_id = i, cv_contact_installation_id = contact,
       cv_status = (if active then ConvActive else ConvPending),
       cv_last_message_preview = (case preview of Some p \<Rightarrow> p | None \<Rightarrow> ''Nowa rozmowa''),
       cv_last_message_at = last_at, cv_unread_count = unread \<rparr>"

definition runtime_conversation_summary_on_outgoing ::
  "32 word option \<Rightarrow> string \<Rightarrow> string \<Rightarrow> string \<Rightarrow> int \<Rightarrow> conversation_summary" where
  "runtime_conversation_summary_on_outgoing unread i contact preview last_at =
     \<lparr> cv_id = i, cv_contact_installation_id = contact, cv_status = ConvActive,
       cv_last_message_preview = preview, cv_last_message_at = last_at,
       cv_unread_count = (case unread of Some u \<Rightarrow> u | None \<Rightarrow> 0) \<rparr>"

record runtime_conversation_update =
  rcu_summary :: conversation_summary
  rcu_unread_count :: "32 word"

definition runtime_conversation_update_on_outgoing ::
  "32 word option \<Rightarrow> string \<Rightarrow> string \<Rightarrow> string \<Rightarrow> int \<Rightarrow> runtime_conversation_update" where
  "runtime_conversation_update_on_outgoing unread i contact preview last_at =
     (let summary = runtime_conversation_summary_on_outgoing unread i contact preview last_at in
      \<lparr> rcu_summary = summary, rcu_unread_count = cv_unread_count summary \<rparr>)"

text \<open>The counter is a \<open>u32\<close>; the release profile does not check the addition, so it wraps.\<close>

definition runtime_conversation_unread_after_incoming :: "32 word option \<Rightarrow> bool \<Rightarrow> 32 word" where
  "runtime_conversation_unread_after_incoming unread selected =
     (if selected then 0 else (case unread of Some u \<Rightarrow> u | None \<Rightarrow> 0) + 1)"

definition runtime_conversation_summary_on_incoming ::
  "32 word option \<Rightarrow> string \<Rightarrow> string \<Rightarrow> string \<Rightarrow> int \<Rightarrow> bool \<Rightarrow> conversation_summary" where
  "runtime_conversation_summary_on_incoming unread i contact preview last_at selected =
     \<lparr> cv_id = i, cv_contact_installation_id = contact, cv_status = ConvActive,
       cv_last_message_preview = preview, cv_last_message_at = last_at,
       cv_unread_count = runtime_conversation_unread_after_incoming unread selected \<rparr>"

definition runtime_conversation_update_on_incoming ::
  "32 word option \<Rightarrow> string \<Rightarrow> string \<Rightarrow> string \<Rightarrow> int \<Rightarrow> bool \<Rightarrow> runtime_conversation_update" where
  "runtime_conversation_update_on_incoming unread i contact preview last_at selected =
     (let summary =
        runtime_conversation_summary_on_incoming unread i contact preview last_at selected in
      \<lparr> rcu_summary = summary, rcu_unread_count = cv_unread_count summary \<rparr>)"

definition runtime_pairing_item ::
  "string \<Rightarrow> contact_record option \<Rightarrow> string option \<Rightarrow> int \<Rightarrow> invite_state \<Rightarrow> bool \<Rightarrow> pairing_item" where
  "runtime_pairing_item pid sender cap expires_at st received =
     \<lparr> pi_pairing_id = pid, pi_pair_key = None, pi_sender = sender, pi_capability = cap,
       pi_expires_at = expires_at, pi_state = st, pi_received = received,
       pi_available_actions = pairing_available_actions st received,
       pi_offer_invite_id = None, pi_offer_payload = None \<rparr>"

definition runtime_message :: "string \<Rightarrow> string \<Rightarrow> bool \<Rightarrow> string \<Rightarrow> string \<Rightarrow> int \<Rightarrow> chat_message" where
  "runtime_message i conversation_id outgoing body st created_at =
     \<lparr> m_id = i, m_conversation_id = conversation_id, m_outgoing = outgoing, m_body = body,
       m_reply_to = None, m_state = runtime_message_state st, m_created_at = created_at,
       m_attempt_count = 0, m_last_attempt_at = None, m_next_attempt_at = 0, m_ack_deadline = None,
       m_last_transport_error = None \<rparr>"

definition validate_nickname :: "string \<Rightarrow> string runtime_result" where
  "validate_nickname nickname =
     (let n = trim nickname in
      if length n < 2 \<or> chars_count n > 32
      then Err (InvalidParams ''nickname must contain 2-32 characters'')
      else Ok n)"

definition validate_message_text :: "string \<Rightarrow> string runtime_result" where
  "validate_message_text text =
     (let n = trim text in
      if n = [] then Err (InvalidParams ''message text must not be empty'') else Ok n)"

definition validate_receipt_effect :: "receipt_send_effect \<Rightarrow> receipt_send_effect runtime_result" where
  "validate_receipt_effect e =
     (if trim (rse_envelope_id e) = [] \<or> trim (rse_message_id e) = [] \<or>
         trim (rse_conversation_id e) = [] \<or> trim (rse_recipient_installation_id e) = []
      then Err (Storage ''durable receipt contains an empty identity'')
      else if rse_received_at e < 0
      then Err (Storage ''durable receipt timestamp must not be negative'')
      else Ok e)"

definition validate_removal_identifiers :: "string \<Rightarrow> string option \<Rightarrow> unit runtime_result" where
  "validate_removal_identifiers installation_id removal_id =
     (if trim installation_id = []
      then Err (InvalidParams ''contact installation id must not be empty'')
      else if (case removal_id of None \<Rightarrow> False | Some v \<Rightarrow> trim v = [])
      then Err (InvalidParams ''relationship removal identifiers must not be empty'')
      else Ok ())"

text \<open>A typed id: any text that is not blank.\<close>

definition parse_id :: "string \<Rightarrow> string \<Rightarrow> string runtime_result" where
  "parse_id type_name value =
     (if trim value = [] then Err (InvalidParams (type_name @ '' must not be empty'')) else Ok value)"

section \<open>Characters\<close>

lemma chars_count_simps [simp]:
  "chars_count [] = 0"
  "chars_count (c # cs) = (if is_continuation c then 0 else 1) + chars_count cs"
  "chars_count (xs @ ys) = chars_count xs + chars_count ys"
  by (simp_all add: chars_count_def)

lemma chars_count_take: "chars_count (take_chars n s) = min n (chars_count s)"
  by (induction n s rule: take_chars.induct) (auto split: nat.splits)

lemma take_chars_all: "chars_count s \<le> n \<Longrightarrow> take_chars n s = s"
  by (induction n s rule: take_chars.induct) (auto split: nat.splits if_splits)

lemma take_chars_prefix: "\<exists>r. s = take_chars n s @ r"
  by (induction n s rule: take_chars.induct) (auto split: nat.splits)

lemma peer_prefix_count: "chars_count (''peer-'' @ s) = 5 + chars_count s"
  by (simp add: is_continuation_def byte_of_def)

section \<open>Properties\<close>

text \<open>A stored contact nickname always has between two and thirty-two characters, whatever
  nickname and installation id the peer announced.\<close>

theorem contact_nickname_bounded:
  "2 \<le> chars_count (normalized_contact_nickname installation_id nickname) \<and>
   chars_count (normalized_contact_nickname installation_id nickname) \<le> 32"
proof -
  have "2 \<le> chars_count (fallback_contact_nickname installation_id)"
    "chars_count (fallback_contact_nickname installation_id) \<le> 32"
    unfolding fallback_contact_nickname_def Let_def
    by (simp_all add: chars_count_take peer_prefix_count min_def del: chars_count_simps append.simps)
  then show ?thesis
    by (auto simp: normalized_contact_nickname_def Let_def chars_count_take)
qed

text \<open>The nickname check counts bytes where it means characters: a one-character nickname with a
  two-byte encoding is accepted although the error message requires two characters.\<close>

theorem one_character_nickname_accepted:
  "validate_nickname [char_of (0xC3 :: nat), char_of (0xA9 :: nat)] =
     Ok [char_of (0xC3 :: nat), char_of (0xA9 :: nat)] \<and>
   chars_count [char_of (0xC3 :: nat), char_of (0xA9 :: nat)] = 1"
  by code_simp

end
