(* ===== verification/Durable_Operations.thy ===== *)
theory Durable_Operations
  imports Runtime_Logic Retry_Policy
begin

text \<open>
  Durable operations: the record and its lifecycle (\<open>torchat-runtime/src/operations.rs\<close>), the feature
  that begins, retries, completes and fails the operations of pairings and of message deliveries
  (\<open>features/operations/mod.rs\<close>), and the table that stores them
  (\<open>torchat-storage/src/storage/operation_queries.rs\<close> with its SQL). The hash that seeds the jitter is
  the parameter \<open>seed\<close>; the error text of the JSON library is the parameter \<open>json_error\<close>.
\<close>

section \<open>The record\<close>

datatype operation_type =
  OpPairing | OpPairingCancellation | OpMessageDelivery | OpRelationshipRemoval | OpEndpointRotation
| OpProfileReset

datatype operation_state =
  OpPending | OpRunning | OpWaitingForRetry | OpCompleted | OpCancelled | OpFailedPermanent

definition operation_is_terminal :: "operation_state \<Rightarrow> bool" where
  "operation_is_terminal s \<longleftrightarrow> s \<in> {OpCompleted, OpCancelled, OpFailedPermanent}"

record durable_operation =
  op_id :: string
  op_type :: operation_type
  op_entity_id :: string
  op_state :: operation_state
  op_started_at :: int
  op_updated_at :: int
  op_attempt_count :: nat
  op_retry_at :: "int option"
  op_error_code :: "runtime_error_code option"
  op_command_descriptor :: "string option"

definition pending_operation :: "string \<Rightarrow> operation_type \<Rightarrow> string \<Rightarrow> int \<Rightarrow> durable_operation" where
  "pending_operation operation_id ty entity_id now_ms =
     \<lparr> op_id = operation_id, op_type = ty, op_entity_id = entity_id, op_state = OpPending,
       op_started_at = now_ms, op_updated_at = now_ms, op_attempt_count = 0, op_retry_at = None,
       op_error_code = None, op_command_descriptor = None \<rparr>"

definition with_command_descriptor :: "string \<Rightarrow> durable_operation \<Rightarrow> durable_operation" where
  "with_command_descriptor descriptor op = op\<lparr> op_command_descriptor := Some descriptor \<rparr>"

definition begin_attempt :: "int \<Rightarrow> durable_operation \<Rightarrow> durable_operation" where
  "begin_attempt now_ms op =
     op\<lparr> op_state := OpRunning, op_updated_at := now_ms,
         op_attempt_count := u32_saturating_add (op_attempt_count op) 1,
         op_retry_at := None, op_error_code := None \<rparr>"

definition schedule_retry :: "int \<Rightarrow> runtime_error_code \<Rightarrow> int \<Rightarrow> durable_operation \<Rightarrow> durable_operation" where
  "schedule_retry retry_at code now_ms op =
     op\<lparr> op_state := OpWaitingForRetry, op_updated_at := now_ms, op_retry_at := Some retry_at,
         op_error_code := Some code \<rparr>"

definition complete_operation :: "int \<Rightarrow> durable_operation \<Rightarrow> durable_operation" where
  "complete_operation now_ms op =
     op\<lparr> op_state := OpCompleted, op_updated_at := now_ms, op_retry_at := None, op_error_code := None \<rparr>"

definition fail_permanently :: "runtime_error_code \<Rightarrow> int \<Rightarrow> durable_operation \<Rightarrow> durable_operation" where
  "fail_permanently code now_ms op =
     op\<lparr> op_state := OpFailedPermanent, op_updated_at := now_ms, op_retry_at := None,
         op_error_code := Some code \<rparr>"

section \<open>The stored row\<close>

text \<open>The enums are stored by their \<open>snake_case\<close> names.\<close>

fun operation_type_wire :: "operation_type \<Rightarrow> string" where
  "operation_type_wire OpPairing = ''pairing''"
| "operation_type_wire OpPairingCancellation = ''pairing_cancellation''"
| "operation_type_wire OpMessageDelivery = ''message_delivery''"
| "operation_type_wire OpRelationshipRemoval = ''relationship_removal''"
| "operation_type_wire OpEndpointRotation = ''endpoint_rotation''"
| "operation_type_wire OpProfileReset = ''profile_reset''"

fun operation_state_wire :: "operation_state \<Rightarrow> string" where
  "operation_state_wire OpPending = ''pending''"
| "operation_state_wire OpRunning = ''running''"
| "operation_state_wire OpWaitingForRetry = ''waiting_for_retry''"
| "operation_state_wire OpCompleted = ''completed''"
| "operation_state_wire OpCancelled = ''cancelled''"
| "operation_state_wire OpFailedPermanent = ''failed_permanent''"

fun error_code_wire :: "runtime_error_code \<Rightarrow> string" where
  "error_code_wire CodeInvalidInput = ''invalid_input''"
| "error_code_wire CodeNotFound = ''not_found''"
| "error_code_wire CodeConflict = ''conflict''"
| "error_code_wire CodeTemporarilyUnavailable = ''temporarily_unavailable''"
| "error_code_wire CodeTransportUnavailable = ''transport_unavailable''"
| "error_code_wire CodeStorageFailed = ''storage_failed''"
| "error_code_wire CodeCryptoFailed = ''crypto_failed''"
| "error_code_wire CodeUnsupported = ''unsupported''"
| "error_code_wire CodeInternal = ''internal''"

text \<open>Parsing finds the variant with the given name.\<close>

definition parse_enum :: "(string \<Rightarrow> string) \<Rightarrow> ('a \<Rightarrow> string) \<Rightarrow> 'a list \<Rightarrow> string \<Rightarrow> 'a runtime_result" where
  "parse_enum json_error wire variants value =
     ok_or (find (\<lambda>v. wire v = value) variants) (InvalidParams (json_error value))"

definition operation_types :: "operation_type list" where
  "operation_types = [OpPairing, OpPairingCancellation, OpMessageDelivery, OpRelationshipRemoval,
     OpEndpointRotation, OpProfileReset]"

definition operation_states :: "operation_state list" where
  "operation_states =
     [OpPending, OpRunning, OpWaitingForRetry, OpCompleted, OpCancelled, OpFailedPermanent]"

definition error_codes :: "runtime_error_code list" where
  "error_codes = [CodeInvalidInput, CodeNotFound, CodeConflict, CodeTemporarilyUnavailable,
     CodeTransportUnavailable, CodeStorageFailed, CodeCryptoFailed, CodeUnsupported, CodeInternal]"

record operation_row =
  or_operation_id :: string
  or_operation_type :: string
  or_entity_id :: string
  or_state :: string
  or_started_at :: int
  or_updated_at :: int
  or_attempt_count :: int
  or_retry_at :: "int option"
  or_error_code :: "string option"
  or_command_descriptor :: "string option"

definition encode_operation :: "durable_operation \<Rightarrow> operation_row" where
  "encode_operation op =
     \<lparr> or_operation_id = op_id op, or_operation_type = operation_type_wire (op_type op),
       or_entity_id = op_entity_id op, or_state = operation_state_wire (op_state op),
       or_started_at = op_started_at op, or_updated_at = op_updated_at op,
       or_attempt_count = int (op_attempt_count op), or_retry_at = op_retry_at op,
       or_error_code = map_option error_code_wire (op_error_code op),
       or_command_descriptor = op_command_descriptor op \<rparr>"

definition decode_operation :: "(string \<Rightarrow> string) \<Rightarrow> operation_row \<Rightarrow> durable_operation runtime_result" where
  "decode_operation json_error row =
     and_then (parse_id ''OperationId'' (or_operation_id row)) (\<lambda>i.
     and_then (parse_enum json_error operation_type_wire operation_types (or_operation_type row)) (\<lambda>ty.
     and_then (parse_enum json_error operation_state_wire operation_states (or_state row)) (\<lambda>st.
     and_then (if 0 \<le> or_attempt_count row \<and> or_attempt_count row \<le> int u32_max
               then Ok (nat (or_attempt_count row))
               else Err (Storage ''negative operation attempt count'')) (\<lambda>attempts.
     and_then (case or_error_code row of None \<Rightarrow> Ok None
               | Some c \<Rightarrow> and_then (parse_enum json_error error_code_wire error_codes c) (\<lambda>v. Ok (Some v))) (\<lambda>code.
     Ok \<lparr> op_id = i, op_type = ty, op_entity_id = or_entity_id row, op_state = st,
          op_started_at = or_started_at row, op_updated_at = or_updated_at row,
          op_attempt_count = attempts, op_retry_at = or_retry_at row, op_error_code = code,
          op_command_descriptor = or_command_descriptor row \<rparr>)))))"

section \<open>The table\<close>

text \<open>The SQL statements on rows. \<open>ORDER BY a, b\<close> is the stable sort by \<open>a\<close> after that by \<open>b\<close>.\<close>

definition put_operation_row :: "durable_operation \<Rightarrow> operation_row list \<Rightarrow> operation_row list" where
  "put_operation_row op rows = upsert or_operation_id (encode_operation op) rows"

definition operation_row_by_id ::
  "(string \<Rightarrow> string) \<Rightarrow> string \<Rightarrow> operation_row list \<Rightarrow> durable_operation option runtime_result" where
  "operation_row_by_id json_error operation_id rows =
     (case lookup or_operation_id operation_id rows of None \<Rightarrow> Ok None
      | Some row \<Rightarrow> and_then (decode_operation json_error row) (\<lambda>op. Ok (Some op)))"

definition row_due :: "operation_row \<Rightarrow> int" where
  "row_due row = (case or_retry_at row of Some t \<Rightarrow> t | None \<Rightarrow> or_updated_at row)"

definition pending_operation_rows ::
  "(string \<Rightarrow> string) \<Rightarrow> operation_row list \<Rightarrow> durable_operation list runtime_result" where
  "pending_operation_rows json_error rows =
     collect (decode_operation json_error)
       (sort_key row_due (sort_key or_operation_id
         (filter (\<lambda>row. or_state row \<in> {''pending'', ''running'', ''waiting_for_retry''}) rows)))"

text \<open>The same operations on decoded rows, which the features work with.\<close>

definition operation_by_id :: "string \<Rightarrow> durable_operation list \<Rightarrow> durable_operation option" where
  "operation_by_id operation_id ops = lookup op_id operation_id ops"

definition put_operation :: "durable_operation \<Rightarrow> durable_operation list \<Rightarrow> durable_operation list" where
  "put_operation op ops = upsert op_id op ops"

definition operation_due :: "durable_operation \<Rightarrow> int" where
  "operation_due op = (case op_retry_at op of Some t \<Rightarrow> t | None \<Rightarrow> op_updated_at op)"

definition pending_operations :: "durable_operation list \<Rightarrow> durable_operation list" where
  "pending_operations ops =
     sort_key operation_due (sort_key op_id
       (filter (\<lambda>op. op_state op \<in> {OpPending, OpRunning, OpWaitingForRetry}) ops))"

section \<open>The feature\<close>

type_synonym 'a operations_action = "(durable_operation list, runtime_error, 'a) action"

definition ensure_pairing_entity :: "durable_operation \<Rightarrow> string \<Rightarrow> unit runtime_result" where
  "ensure_pairing_entity op pairing_id =
     (if op_type op \<in> {OpPairing, OpPairingCancellation} \<and> op_entity_id op = pairing_id then Ok ()
      else Err (Conflict ''operation does not belong to the requested pairing''))"

definition ensure_message_entity :: "durable_operation \<Rightarrow> string \<Rightarrow> unit runtime_result" where
  "ensure_message_entity op message_id =
     (if op_type op = OpMessageDelivery \<and> op_entity_id op = message_id then Ok ()
      else Err (Conflict ''operation does not belong to the requested message''))"

definition operation_changes :: "string \<Rightarrow> change_set" where
  "operation_changes operation_id =
     \<lparr> sections = OPERATIONS, entities = no_entities\<lparr> operation_ids := {operation_id} \<rparr> \<rparr>"

definition persist_changed :: "durable_operation \<Rightarrow> durable_operation feature_result operations_action" where
  "persist_changed op =
     seq (change (put_operation op)) (\<lambda>_. return (changed op (operation_changes (op_id op))))"

definition active_message_delivery :: "string \<Rightarrow> durable_operation list \<Rightarrow> durable_operation option" where
  "active_message_delivery message_id ops =
     find (\<lambda>op. op_type op = OpMessageDelivery \<and> op_entity_id op = message_id \<and>
                 \<not> operation_is_terminal (op_state op)) (pending_operations ops)"

text \<open>Binding an operation to its command payload.\<close>

definition bind_descriptor :: "string \<Rightarrow> durable_operation \<Rightarrow> durable_operation runtime_result" where
  "bind_descriptor descriptor op =
     (case op_command_descriptor op of
        Some existing \<Rightarrow>
          if existing \<noteq> descriptor
          then Err (Conflict ''operation id is already bound to a different command payload'')
          else Ok op
      | None \<Rightarrow> Ok (op\<lparr> op_command_descriptor := Some descriptor \<rparr>))"

definition begin_pairing ::
  "string \<Rightarrow> string \<Rightarrow> string \<Rightarrow> int \<Rightarrow> durable_operation feature_result operations_action" where
  "begin_pairing operation_id pairing_id descriptor now_ms =
     (if trim descriptor = []
      then throw (InvalidParams ''durable pairing command descriptor must not be empty'')
      else
        seq (lift (parse_id ''OperationId'' operation_id)) (\<lambda>oid.
        seq (ask (operation_by_id oid)) (\<lambda>found.
        let op = (case found of Some op \<Rightarrow> op
                  | None \<Rightarrow> with_command_descriptor descriptor
                              (pending_operation oid OpPairingCancellation pairing_id now_ms)) in
        seq (lift (ensure_pairing_entity op pairing_id)) (\<lambda>_.
        seq (lift (bind_descriptor descriptor op)) (\<lambda>op.
        let op = op\<lparr> op_type := OpPairingCancellation \<rparr> in
        if op_state op = OpCompleted then return (unchanged op)
        else if op_state op \<in> {OpCancelled, OpFailedPermanent}
        then throw (Conflict ''pairing operation is already terminal'')
        else persist_changed (begin_attempt now_ms op))))))"

definition pairing_operation :: "string \<Rightarrow> string \<Rightarrow> durable_operation operations_action" where
  "pairing_operation operation_id pairing_id =
     seq (lift (parse_id ''OperationId'' operation_id)) (\<lambda>oid.
     seq (ask (operation_by_id oid)) (\<lambda>found.
     seq (lift (ok_or found (NotFound ''pairing operation does not exist''))) (\<lambda>op.
     seq (lift (ensure_pairing_entity op pairing_id)) (\<lambda>_. return op))))"

definition complete_pairing ::
  "string \<Rightarrow> string \<Rightarrow> int \<Rightarrow> durable_operation feature_result operations_action" where
  "complete_pairing operation_id pairing_id now_ms =
     seq (pairing_operation operation_id pairing_id) (\<lambda>op.
     if op_state op = OpCompleted then return (unchanged op)
     else persist_changed (complete_operation now_ms op))"

definition retry_pairing ::
  "(string \<Rightarrow> nat \<Rightarrow> nat) \<Rightarrow> string \<Rightarrow> string \<Rightarrow> runtime_error_code \<Rightarrow> int \<Rightarrow>
     durable_operation feature_result operations_action" where
  "retry_pairing seed operation_id pairing_id code now_ms =
     seq (pairing_operation operation_id pairing_id) (\<lambda>op.
     if operation_is_terminal (op_state op) then return (unchanged op)
     else
       let decision = decide default_policy NetworkBackoff now_ms (op_attempt_count op)
                        (seed pairing_id (op_attempt_count op)) in
       if rd_terminal decision then persist_changed (fail_permanently code now_ms op)
       else persist_changed (schedule_retry
              (case rd_retry_at decision of Some t \<Rightarrow> t | None \<Rightarrow> now_ms) code now_ms op))"

definition fail_pairing ::
  "string \<Rightarrow> string \<Rightarrow> runtime_error_code \<Rightarrow> int \<Rightarrow> durable_operation feature_result operations_action" where
  "fail_pairing operation_id pairing_id code now_ms =
     seq (pairing_operation operation_id pairing_id) (\<lambda>op.
     if operation_is_terminal (op_state op) then return (unchanged op)
     else persist_changed (fail_permanently code now_ms op))"

definition begin_message_delivery ::
  "string \<Rightarrow> string \<Rightarrow> string \<Rightarrow> int \<Rightarrow> durable_operation feature_result operations_action" where
  "begin_message_delivery requested_operation_id message_id descriptor now_ms =
     (if trim descriptor = []
      then throw (InvalidParams ''durable message command descriptor must not be empty'')
      else
        seq (lift (parse_id ''OperationId'' requested_operation_id)) (\<lambda>requested_id.
        seq (ask (operation_by_id requested_id)) (\<lambda>requested.
        seq (ask (active_message_delivery message_id)) (\<lambda>active.
        let op = (case requested of Some op \<Rightarrow> op
                  | None \<Rightarrow> (case active of Some op \<Rightarrow> op
                  | None \<Rightarrow> with_command_descriptor descriptor
                              (pending_operation requested_id OpMessageDelivery message_id now_ms))) in
        seq (lift (ensure_message_entity op message_id)) (\<lambda>_.
        seq (lift (if requested \<noteq> None then bind_descriptor descriptor op
                   else if op_command_descriptor op = None
                   then Ok (op\<lparr> op_command_descriptor := Some descriptor \<rparr>)
                   else Ok op)) (\<lambda>op.
        if op_state op = OpCompleted then return (unchanged op)
        else if op_state op \<in> {OpCancelled, OpFailedPermanent}
        then throw (Conflict ''message delivery operation is already terminal'')
        else persist_changed (begin_attempt now_ms (op\<lparr> op_type := OpMessageDelivery \<rparr>))))))))"

text \<open>The three ways a delivery attempt ends share their shape: nothing happens without an active
  operation, otherwise it is updated and its result wrapped in \<open>Some\<close>.\<close>

definition end_message_delivery ::
  "(durable_operation \<Rightarrow> durable_operation) \<Rightarrow> string \<Rightarrow> durable_operation option feature_result operations_action" where
  "end_message_delivery update message_id =
     seq (ask (active_message_delivery message_id)) (\<lambda>active.
     case active of None \<Rightarrow> return (unchanged None)
     | Some op \<Rightarrow> seq (persist_changed (update op)) (\<lambda>r.
         return \<lparr> fr_value = Some (fr_value r), fr_changes = fr_changes r, fr_effects = fr_effects r \<rparr>))"

definition complete_message_delivery ::
  "string \<Rightarrow> int \<Rightarrow> durable_operation option feature_result operations_action" where
  "complete_message_delivery message_id now_ms =
     end_message_delivery (complete_operation now_ms) message_id"

definition retry_message_delivery ::
  "string \<Rightarrow> int \<Rightarrow> runtime_error_code \<Rightarrow> int \<Rightarrow> durable_operation option feature_result operations_action" where
  "retry_message_delivery message_id retry_at code now_ms =
     end_message_delivery (schedule_retry retry_at code now_ms) message_id"

definition fail_message_delivery ::
  "string \<Rightarrow> runtime_error_code \<Rightarrow> int \<Rightarrow> durable_operation option feature_result operations_action" where
  "fail_message_delivery message_id code now_ms =
     end_message_delivery (fail_permanently code now_ms) message_id"

text \<open>Deleting a message cancels its active delivery (\<open>features/message_deletion.rs\<close>).\<close>

definition cancel_active_delivery :: "string \<Rightarrow> int \<Rightarrow> change_set option operations_action" where
  "cancel_active_delivery message_id now_ms =
     seq (ask (active_message_delivery message_id)) (\<lambda>active.
     case active of None \<Rightarrow> return None
     | Some op \<Rightarrow>
         seq (change (put_operation (op\<lparr> op_state := OpCancelled, op_updated_at := now_ms,
                op_retry_at := None, op_error_code := None \<rparr>))) (\<lambda>_.
         return (Some (operation_changes (op_id op)))))"

section \<open>The storage interface\<close>

text \<open>What the features rely on of \<open>OperationStorage\<close>: a write is read back under its id and leaves the
  other ids alone, and the pending list holds exactly the stored operations that are not terminal.\<close>

locale operation_storage = keyed_table by_id put op_id
  for by_id :: "string \<Rightarrow> 's \<Rightarrow> durable_operation option" and put :: "durable_operation \<Rightarrow> 's \<Rightarrow> 's" +
  fixes pending :: "'s \<Rightarrow> durable_operation list"
    and wf :: "'s \<Rightarrow> bool"
  assumes wf_put: "wf s \<Longrightarrow> wf (put op s)"
    and pending_iff: "wf s \<Longrightarrow> op \<in> set (pending s) \<longleftrightarrow>
      by_id (op_id op) s = Some op \<and> \<not> operation_is_terminal (op_state op)"
begin

lemma find_pending_unique:
  assumes "wf s" and "\<not> operation_is_terminal (op_state op)" and "P op"
    and "by_id (op_id op) s = Some op"
    and "\<And>a. by_id (op_id a) s = Some a \<Longrightarrow> \<not> operation_is_terminal (op_state a) \<Longrightarrow> P a \<Longrightarrow> a = op"
  shows "find P (pending s) = Some op"
proof -
  have "op \<in> set (pending s)" using assms(1,2,4) by (simp add: pending_iff)
  then have "find P (pending s) \<noteq> None" using assms(3) by (auto simp: find_None_iff)
  then obtain a where a: "find P (pending s) = Some a" by blast
  then have "a \<in> set (pending s)" "P a" by (auto simp: find_Some_iff)
  then have "by_id (op_id a) s = Some a" "\<not> operation_is_terminal (op_state a)" "P a"
    using assms(1) by (simp_all add: pending_iff)
  then have "a = op" by (rule assms(5))
  then show ?thesis using a by simp
qed

lemma find_pending_stored:
  assumes "wf s" and "find P (pending s) = Some op"
  shows "by_id (op_id op) s = Some op \<and> \<not> operation_is_terminal (op_state op) \<and> P op"
proof -
  have "op \<in> set (pending s)" "P op" using assms(2) by (auto simp: find_Some_iff)
  then show ?thesis using assms(1) by (simp add: pending_iff)
qed

end

lemma not_terminal_iff: "\<not> operation_is_terminal st \<longleftrightarrow> st \<in> {OpPending, OpRunning, OpWaitingForRetry}"
  by (cases st) (simp_all add: operation_is_terminal_def)

lemma set_pending_operations:
  "set (pending_operations ops) = {op \<in> set ops. \<not> operation_is_terminal (op_state op)}"
  by (auto simp: pending_operations_def not_terminal_iff)

interpretation operations_table: operation_storage
  operation_by_id put_operation pending_operations "\<lambda>ops. distinct (map op_id ops)"
  by unfold_locales
    (auto simp: operation_by_id_def put_operation_def table_simps set_pending_operations lookup_Some_iff
       dest: lookup_key)

section \<open>Rows\<close>

lemma parse_type_wire [simp]: "parse_enum je operation_type_wire operation_types (operation_type_wire t) = Ok t"
  by (cases t) (simp_all add: parse_enum_def operation_types_def)

lemma parse_state_wire [simp]: "parse_enum je operation_state_wire operation_states (operation_state_wire t) = Ok t"
  by (cases t) (simp_all add: parse_enum_def operation_states_def)

lemma parse_code_wire [simp]: "parse_enum je error_code_wire error_codes (error_code_wire t) = Ok t"
  by (cases t) (simp_all add: parse_enum_def error_codes_def)

definition operation_ok :: "durable_operation \<Rightarrow> bool" where
  "operation_ok op \<longleftrightarrow> trim (op_id op) \<noteq> [] \<and> op_attempt_count op \<le> u32_max"

lemma decode_encode: "operation_ok op \<Longrightarrow> decode_operation je (encode_operation op) = Ok op"
  by (cases "op_error_code op")
    (simp_all add: operation_ok_def decode_operation_def encode_operation_def parse_id_def)

lemma encode_simps [simp]:
  "or_operation_id (encode_operation op) = op_id op"
  "row_due (encode_operation op) = operation_due op"
  "or_state (encode_operation op) \<in> {''pending'', ''running'', ''waiting_for_retry''} \<longleftrightarrow>
     op_state op \<in> {OpPending, OpRunning, OpWaitingForRetry}"
  by (simp_all add: encode_operation_def row_due_def operation_due_def split: option.splits)
    (cases "op_state op"; simp)

lemma sort_key_map: "sort_key f (map g xs) = map g (sort_key (f \<circ> g) xs)"
proof -
  have i: "insort_key f (g x) (map g ys) = map g (insort_key (f \<circ> g) x ys)" for x ys
    by (induction ys) simp_all
  show ?thesis by (induction xs) (simp_all add: i [unfolded comp_def] comp_def)
qed

lemma lookup_map_encode: "lookup or_operation_id i (map encode_operation ops) = map_option encode_operation (lookup op_id i ops)"
  by (induction ops) (simp_all add: table_simps)

lemma collect_decode: "list_all operation_ok ops \<Longrightarrow> collect (decode_operation je) (map encode_operation ops) = Ok ops"
  by (induction ops) (simp_all add: decode_encode)

text \<open>C27: The operations table on disk implements the table the features work on: writing, looking up
  and listing the pending operations of the stored rows gives the same operations, none is lost and
  none fails to decode.\<close>

theorem operation_rows_refine:
  assumes "list_all operation_ok ops"
  shows "put_operation_row op (map encode_operation ops) = map encode_operation (put_operation op ops) \<and>
    operation_row_by_id json_error i (map encode_operation ops) = Ok (operation_by_id i ops) \<and>
    pending_operation_rows json_error (map encode_operation ops) = Ok (pending_operations ops)"
proof (intro conjI)
  show "put_operation_row op (map encode_operation ops) = map encode_operation (put_operation op ops)"
    by (auto simp: put_operation_row_def put_operation_def upsert_def image_image)
  show "operation_row_by_id json_error i (map encode_operation ops) = Ok (operation_by_id i ops)"
    using assms
    by (auto simp: operation_row_by_id_def operation_by_id_def lookup_map_encode list_all_iff decode_encode
        split: option.splits dest: lookup_in)
  have "list_all operation_ok (pending_operations ops)"
    using assms by (auto simp: list_all_iff set_pending_operations)
  then show "pending_operation_rows json_error (map encode_operation ops) = Ok (pending_operations ops)"
    unfolding pending_operation_rows_def
    by (simp add: filter_map sort_key_map comp_def pending_operations_def [symmetric] collect_decode
        del: insert_iff)
qed

theorem operation_rows_refine_witness:
  "operation_row_by_id id ''op'' (map encode_operation [pending_operation ''op'' OpMessageDelivery ''m'' 7]) =
     Ok (operation_by_id ''op'' [pending_operation ''op'' OpMessageDelivery ''m'' 7])"
proof -
  have "trim ''op'' = ''op''" by code_simp
  then have "list_all operation_ok [pending_operation ''op'' OpMessageDelivery ''m'' 7]"
    by (simp add: operation_ok_def pending_operation_def)
  from operation_rows_refine [OF this, of "pending_operation ''op'' OpMessageDelivery ''m'' 7" id "''op''"]
  show ?thesis by blast
qed

section \<open>Invariant\<close>

definition is_delivery :: "durable_operation \<Rightarrow> bool" where
  "is_delivery op \<longleftrightarrow> op_type op = OpMessageDelivery \<and> \<not> operation_is_terminal (op_state op)"

definition operations_inv :: "durable_operation list \<Rightarrow> bool" where
  "operations_inv ops \<longleftrightarrow> distinct (map op_id ops) \<and> list_all operation_ok ops \<and>
     (\<forall>a \<in> set ops. \<forall>b \<in> set ops. is_delivery a \<and> is_delivery b \<and> op_entity_id a = op_entity_id b \<longrightarrow> a = b)"

lemma inv_distinct: "operations_inv ops \<Longrightarrow> distinct (map op_id ops)"
  by (simp add: operations_inv_def)

lemma by_id_iff: "operations_inv ops \<Longrightarrow> operation_by_id i ops = Some op \<longleftrightarrow> op \<in> set ops \<and> op_id op = i"
  by (simp add: operation_by_id_def lookup_Some_iff inv_distinct)

lemma stored_key: "operation_by_id i ops = Some op \<Longrightarrow> op_id op = i"
  by (rule operations_table.get_key)

lemma active_iff:
  assumes "operations_inv ops"
  shows "active_message_delivery mid ops = Some op \<longleftrightarrow> op \<in> set ops \<and> is_delivery op \<and> op_entity_id op = mid"
proof
  assume "active_message_delivery mid ops = Some op"
  from operations_table.find_pending_stored [OF inv_distinct [OF assms] this [unfolded active_message_delivery_def]]
  show "op \<in> set ops \<and> is_delivery op \<and> op_entity_id op = mid"
    using assms by (simp add: by_id_iff is_delivery_def)
next
  assume a: "op \<in> set ops \<and> is_delivery op \<and> op_entity_id op = mid"
  show "active_message_delivery mid ops = Some op"
    unfolding active_message_delivery_def
  proof (rule operations_table.find_pending_unique)
    fix b assume "operation_by_id (op_id b) ops = Some b" and "\<not> operation_is_terminal (op_state b)"
      and "op_type b = OpMessageDelivery \<and> op_entity_id b = mid \<and> \<not> operation_is_terminal (op_state b)"
    then have "b \<in> set ops" "is_delivery b" "op_entity_id b = mid"
      using assms by (simp_all add: by_id_iff is_delivery_def)
    with a show "b = op" using assms unfolding operations_inv_def by blast
  qed (use a assms in \<open>simp_all add: by_id_iff is_delivery_def inv_distinct\<close>)
qed

lemma active_None: 
  assumes "operations_inv ops" and "active_message_delivery mid ops = None" and "a \<in> set ops" and "is_delivery a"
  shows "op_entity_id a \<noteq> mid"
  using active_iff [OF assms(1), of mid a] assms by auto

lemma put_inv:
  assumes i: "operations_inv ops" and ok: "operation_ok op"
    and u: "\<And>a. a \<in> set ops \<Longrightarrow> is_delivery a \<Longrightarrow> is_delivery op \<Longrightarrow> op_entity_id a = op_entity_id op \<Longrightarrow> op_id a = op_id op"
  shows "operations_inv (put_operation op ops)"
proof -
  have m: "a \<in> set (put_operation op ops) \<longleftrightarrow> a = op \<or> (a \<in> set ops \<and> op_id a \<noteq> op_id op)" for a
    by (auto simp: put_operation_def upsert_def) (metis image_eqI)
  have "distinct (map op_id (put_operation op ops))"
    using i by (simp add: put_operation_def operations_inv_def)
  moreover have "list_all operation_ok (put_operation op ops)"
    using i ok by (auto simp: list_all_iff m operations_inv_def)
  moreover have "a = b" if "a \<in> set (put_operation op ops)" "b \<in> set (put_operation op ops)"
      "is_delivery a" "is_delivery b" "op_entity_id a = op_entity_id b" for a b
  proof -
    have both: "a = b" if "a \<in> set ops" "b \<in> set ops"
      using i that \<open>is_delivery a\<close> \<open>is_delivery b\<close> \<open>op_entity_id a = op_entity_id b\<close>
      unfolding operations_inv_def by blast
    show ?thesis using that u [of a] u [of b] both unfolding m by auto
  qed
  ultimately show ?thesis unfolding operations_inv_def by blast
qed

text \<open>Replacing a stored operation by an update that keeps its identity and does not make it an
  active delivery if it was none.\<close>

lemma put_update_inv:
  assumes i: "operations_inv ops" and "op \<in> set ops"
    and "op_id op' = op_id op" and "op_entity_id op' = op_entity_id op"
    and "is_delivery op' \<Longrightarrow> is_delivery op" and "op_attempt_count op' \<le> u32_max"
  shows "operations_inv (put_operation op' ops)"
proof (rule put_inv [OF i])
  show "operation_ok op'"
    using i assms by (auto simp: operations_inv_def list_all_iff operation_ok_def)
  show "op_id a = op_id op'" if "a \<in> set ops" "is_delivery a" "is_delivery op'" "op_entity_id a = op_entity_id op'" for a
  proof -
    have "a = op" using that assms(2,4,5) i unfolding operations_inv_def by auto
    then show ?thesis using assms(3) by simp
  qed
qed

lemma stored_ok: "operations_inv ops \<Longrightarrow> op \<in> set ops \<Longrightarrow> op_attempt_count op \<le> u32_max"
  by (auto simp: operations_inv_def list_all_iff operation_ok_def)

section \<open>Steps\<close>

inductive operations_step :: "(string \<Rightarrow> nat \<Rightarrow> nat) \<Rightarrow> durable_operation list \<Rightarrow> durable_operation list \<Rightarrow> bool"
  for seed where
  "operations_step seed ops (snd (begin_pairing oid pid descriptor now ops))"
| "operations_step seed ops (snd (complete_pairing oid pid now ops))"
| "operations_step seed ops (snd (retry_pairing seed oid pid code now ops))"
| "operations_step seed ops (snd (fail_pairing oid pid code now ops))"
| "operations_step seed ops (snd (begin_message_delivery oid mid descriptor now ops))"
| "operations_step seed ops (snd (complete_message_delivery mid now ops))"
| "operations_step seed ops (snd (retry_message_delivery mid retry_at code now ops))"
| "operations_step seed ops (snd (fail_message_delivery mid code now ops))"
| "operations_step seed ops (snd (cancel_active_delivery mid now ops))"

text \<open>Every step leaves the table alone or writes one operation: a fresh one, or an update of a stored
  one that is not terminal (or, for a completion, one that is merely not completed).\<close>

definition operation_update :: "durable_operation \<Rightarrow> durable_operation \<Rightarrow> bool" where
  "operation_update op op' \<longleftrightarrow>
     op_id op' = op_id op \<and> op_entity_id op' = op_entity_id op \<and>
     (op_type op' = OpMessageDelivery \<longleftrightarrow> op_type op = OpMessageDelivery) \<and>
     (op_command_descriptor op = None \<or> op_command_descriptor op' = op_command_descriptor op) \<and>
     (op_attempt_count op' = op_attempt_count op \<or> op_attempt_count op' = u32_saturating_add (op_attempt_count op) 1) \<and>
     (operation_is_terminal (op_state op) \<longrightarrow>
        op_state op \<noteq> OpCompleted \<and> op_type op \<noteq> OpMessageDelivery \<and> op_state op' = OpCompleted)"

inductive table_write :: "durable_operation list \<Rightarrow> durable_operation list \<Rightarrow> bool" where
  unchanged_table: "table_write ops ops"
| update_stored: "operation_by_id i ops = Some op \<Longrightarrow> operation_update op op' \<Longrightarrow> table_write ops (put_operation op' ops)"
| insert_fresh: "operation_by_id (op_id op) ops = None \<Longrightarrow> trim (op_id op) \<noteq> [] \<Longrightarrow> op_attempt_count op = 1 \<Longrightarrow>
    op_command_descriptor op \<noteq> None \<Longrightarrow>
    op_type op \<noteq> OpMessageDelivery \<or> active_message_delivery (op_entity_id op) ops = None \<Longrightarrow>
    table_write ops (put_operation op ops)"

lemma persist_changed_simp [simp]:
  "persist_changed op ops = (Ok (changed op (operation_changes (op_id op))), put_operation op ops)"
  by (simp add: persist_changed_def)

lemma seq_persist [simp]:
  "seq (persist_changed op) k ops = k (changed op (operation_changes (op_id op))) (put_operation op ops)"
  by (rule seq_ok) simp

lemma pairing_operation_ok:
  "pairing_operation oid pid ops = (r, ops') \<Longrightarrow> ops' = ops \<and>
     (\<forall>op. r = Ok op \<longrightarrow> operation_by_id oid ops = Some op \<and> op_type op \<noteq> OpMessageDelivery)"
  by (cases "operation_by_id oid ops")
    (auto simp: pairing_operation_def parse_id_def ensure_pairing_entity_def split: if_splits)

lemma bind_descriptor_ok:
  "bind_descriptor d op = Ok op' \<Longrightarrow> op' = op\<lparr> op_command_descriptor := Some d \<rparr> \<and>
     (op_command_descriptor op = None \<or> op_command_descriptor op = Some d)"
  by (cases op) (auto simp: bind_descriptor_def split: option.splits if_splits)

lemmas operation_edits = begin_attempt_def schedule_retry_def complete_operation_def fail_permanently_def
  with_command_descriptor_def pending_operation_def

lemma pairing_update_write:
  assumes "\<And>op. operation_by_id oid ops = Some op \<Longrightarrow> op_type op \<noteq> OpMessageDelivery \<Longrightarrow> table_write ops (snd (k op ops))"
  shows "table_write ops (snd (seq (pairing_operation oid pid) k ops))"
proof (cases "pairing_operation oid pid ops")
  case (Pair r ops')
  note p = pairing_operation_ok [OF Pair]
  show ?thesis
  proof (cases r)
    case (Inl e)
    then show ?thesis using Pair p by (simp add: seq_def table_write.unchanged_table)
  next
    case (Inr op)
    then show ?thesis using Pair p assms [of op] by (simp add: seq_def)
  qed
qed

lemma complete_pairing_write: "table_write ops (snd (complete_pairing oid pid now ops))"
  unfolding complete_pairing_def
proof (rule pairing_update_write)
  fix op assume "operation_by_id oid ops = Some op" "op_type op \<noteq> OpMessageDelivery"
  then show "table_write ops (snd ((if op_state op = OpCompleted then return (unchanged op)
      else persist_changed (complete_operation now op)) ops))"
    by (auto intro!: table_write.intros simp: operation_update_def operation_edits)
qed

lemma retry_pairing_write: "table_write ops (snd (retry_pairing seed oid pid code now ops))"
  unfolding retry_pairing_def Let_def
  by (rule pairing_update_write)
    (auto intro!: table_write.intros simp: operation_update_def operation_edits)

lemma fail_pairing_write: "table_write ops (snd (fail_pairing oid pid code now ops))"
  unfolding fail_pairing_def
  by (rule pairing_update_write)
    (auto intro!: table_write.intros simp: operation_update_def operation_edits)

lemma begin_pairing_write: "table_write ops (snd (begin_pairing oid pid descriptor now ops))"
proof (cases "trim descriptor = [] \<or> trim oid = []")
  case True
  then show ?thesis
    by (auto simp: begin_pairing_def parse_id_def lift_def seq_def intro: table_write.unchanged_table)
next
  case False
  show ?thesis
  proof (cases "operation_by_id oid ops")
    case None
    then show ?thesis using False
      by (auto simp: begin_pairing_def parse_id_def ensure_pairing_entity_def bind_descriptor_def
          operation_edits u32_saturating_add_def u32_max_def intro!: table_write.insert_fresh)
  next
    case (Some op)
    have k: "op_id op = oid" using Some by (rule stored_key)
    show ?thesis using False Some
      by (cases "ensure_pairing_entity op pid"; cases "bind_descriptor descriptor op")
        (auto simp: begin_pairing_def Let_def parse_id_def k ensure_pairing_entity_def operation_update_def operation_edits
           operation_is_terminal_def
           intro!: table_write.unchanged_table table_write.update_stored [OF Some] split: if_splits
           dest!: bind_descriptor_ok)
  qed
qed

lemma end_delivery_write:
  assumes "operations_inv ops" and "\<And>op. operation_is_terminal (op_state op) \<or> operation_update op (update op)"
  shows "table_write ops (snd (end_message_delivery update mid ops))"
proof (cases "active_message_delivery mid ops")
  case None
  then show ?thesis by (simp add: end_message_delivery_def table_write.unchanged_table)
next
  case (Some op)
  then have "op \<in> set ops" "is_delivery op" using active_iff [OF assms(1)] by auto
  moreover from this have "operation_by_id (op_id op) ops = Some op" by (simp add: by_id_iff [OF assms(1)])
  ultimately show ?thesis
    using Some assms(2) [of op]
    by (auto simp: end_message_delivery_def is_delivery_def intro: table_write.update_stored)
qed

lemma cancel_is_end:
  "snd (cancel_active_delivery mid now ops) =
     snd (end_message_delivery (\<lambda>op. op\<lparr> op_state := OpCancelled, op_updated_at := now, op_retry_at := None,
       op_error_code := None \<rparr>) mid ops)"
  by (cases "active_message_delivery mid ops") (simp_all add: cancel_active_delivery_def end_message_delivery_def)

lemma begin_delivery_write:
  assumes "operations_inv ops"
  shows "table_write ops (snd (begin_message_delivery oid mid descriptor now ops))"
proof (cases "trim descriptor = [] \<or> trim oid = []")
  case True
  then show ?thesis
    by (auto simp: begin_message_delivery_def parse_id_def lift_def seq_def intro: table_write.unchanged_table)
next
  case False
  show ?thesis
  proof (cases "operation_by_id oid ops")
    case None
    show ?thesis
    proof (cases "active_message_delivery mid ops")
      case n: None
      then show ?thesis using None False
        by (auto simp: begin_message_delivery_def parse_id_def ensure_message_entity_def
            operation_edits u32_saturating_add_def u32_max_def intro!: table_write.insert_fresh)
    next
      case (Some op)
      then have "op \<in> set ops" "is_delivery op" "op_entity_id op = mid" using active_iff [OF assms] by auto
      moreover from this have st: "operation_by_id (op_id op) ops = Some op" by (simp add: by_id_iff [OF assms])
      ultimately show ?thesis using None False Some
        by (auto simp: begin_message_delivery_def parse_id_def ensure_message_entity_def is_delivery_def
            operation_is_terminal_def operation_update_def operation_edits
            intro!: table_write.update_stored [OF st])
    qed
  next
    case (Some op)
    have k: "op_id op = oid" using Some by (rule stored_key)
    show ?thesis using False Some
      by (cases "ensure_message_entity op mid"; cases "bind_descriptor descriptor op")
        (auto simp: begin_message_delivery_def parse_id_def k ensure_message_entity_def operation_update_def operation_edits
           operation_is_terminal_def
           intro!: table_write.unchanged_table table_write.update_stored [OF Some] split: if_splits
           dest!: bind_descriptor_ok)
  qed
qed

lemma step_write:
  assumes "operations_step seed ops ops'" and "operations_inv ops"
  shows "table_write ops ops'"
  using assms
proof (induction rule: operations_step.induct)
  case (6 ops mid now)
  then show ?case unfolding complete_message_delivery_def
    by (intro end_delivery_write) (auto simp: operation_update_def operation_edits)
next
  case (7 ops mid retry_at code now)
  then show ?case unfolding retry_message_delivery_def
    by (intro end_delivery_write) (auto simp: operation_update_def operation_edits)
next
  case (8 ops mid code now)
  then show ?case unfolding fail_message_delivery_def
    by (intro end_delivery_write) (auto simp: operation_update_def operation_edits)
next
  case (9 ops mid now)
  then show ?case unfolding cancel_is_end
    by (intro end_delivery_write) (auto simp: operation_update_def)
qed (simp_all add: begin_pairing_write complete_pairing_write retry_pairing_write fail_pairing_write
      begin_delivery_write)

lemma table_write_inv:
  assumes "table_write ops ops'" and "operations_inv ops"
  shows "operations_inv ops'"
  using assms
proof (cases rule: table_write.cases)
  case (update_stored i op op')
  then have "op \<in> set ops" using by_id_iff [OF assms(2)] by blast
  moreover have "is_delivery op" if "is_delivery op'"
    using that update_stored(3)
    by (cases "operation_is_terminal (op_state op)")
      (auto simp: operation_update_def is_delivery_def operation_is_terminal_def)
  moreover have "op_attempt_count op' \<le> u32_max"
    using update_stored(3) stored_ok [OF assms(2) \<open>op \<in> set ops\<close>] by (auto simp: operation_update_def)
  ultimately show ?thesis
    using update_stored assms(2) unfolding operation_update_def by (auto intro: put_update_inv)
next
  case (insert_fresh op)
  have "op_entity_id a \<noteq> op_entity_id op" if "a \<in> set ops" "is_delivery a" "is_delivery op" for a
    using that insert_fresh active_None [OF assms(2)] by (auto simp: is_delivery_def)
  with insert_fresh assms(2) show ?thesis
    by (auto intro!: put_inv simp: operation_ok_def u32_max_def)
qed simp

lemma operations_step_inv: "operations_inv ops \<Longrightarrow> operations_step seed ops ops' \<Longrightarrow> operations_inv ops'"
  using step_write table_write_inv by blast

interpretation operations_system: invariant_system "\<lambda>ops. ops = []" "operations_step seed" operations_inv
  by unfold_locales (simp add: operations_inv_def, rule operations_step_inv)

lemma table_write_keeps:
  assumes "table_write ops ops'" and "operation_by_id i ops = Some op"
  shows "\<exists>op'. operation_by_id i ops' = Some op' \<and> (op' = op \<or> operation_update op op')"
  using assms(1)
proof (cases rule: table_write.cases)
  case (update_stored j a b)
  then have "op_id a = j" "op_id b = j" by (auto simp: operation_update_def dest: stored_key)
  with update_stored assms(2) show ?thesis
    by (cases "i = j") (auto simp: operations_table.get_put)
next
  case (insert_fresh a)
  then show ?thesis using assms(2) by (auto simp: operations_table.get_put)
qed (use assms(2) in simp)

lemma reachable_steps:
  assumes "reachable init step s" and "step\<^sup>*\<^sup>* s s'"
  shows "reachable init step s'"
  using assms(2) by (induction rule: rtranclp_induct) (auto intro: assms(1) reach_step)

lemma bound_descriptor_steps:
  assumes "(operations_step seed)\<^sup>*\<^sup>* ops ops'" and "operations_inv ops"
    and "operation_by_id i ops = Some op" and "op_command_descriptor op = Some d"
  shows "operations_inv ops' \<and> (\<exists>op'. operation_by_id i ops' = Some op' \<and> op_command_descriptor op' = Some d)"
  using assms(1)
proof (induction rule: rtranclp_induct)
  case base
  then show ?case using assms by auto
next
  case (step y z)
  then obtain a where a: "operation_by_id i y = Some a" "op_command_descriptor a = Some d" "operations_inv y" by blast
  have w: "table_write y z" using step.hyps(2) a(3) by (rule step_write)
  obtain b where "operation_by_id i z = Some b" "b = a \<or> operation_update a b"
    using table_write_keeps [OF w a(1)] by blast
  moreover have "operations_inv z" using w a(3) by (rule table_write_inv)
  ultimately show ?case using a(2) by (auto simp: operation_update_def)
qed

lemma network_delay_bounds:
  "0 < delay default_policy (network_base_ms default_policy) attempt s"
  "delay default_policy (network_base_ms default_policy) attempt s \<le> 360000"
proof -
  have c: "NetworkBackoff \<in> {ShortBackoff, NetworkBackoff, TorBackoff}" by simp
  have "1 \<le> (2 :: int) ^ min attempt 8" by simp
  then have "0 < capped_delay default_policy (base_of default_policy NetworkBackoff) attempt"
    by (simp add: capped_delay_def default_policy_def)
  with default_delay_bounds(1,2) [OF c, of attempt s] default_delay_bounds(3,4) [OF c, of attempt]
  show "0 < delay default_policy (network_base_ms default_policy) attempt s"
    and "delay default_policy (network_base_ms default_policy) attempt s \<le> 360000"
    by simp_all
qed

section \<open>Properties\<close>

text \<open>In every reachable operations table the ids are distinct and no message has two active
  deliveries, and the lookup of the active delivery of a message finds it exactly when it exists.\<close>

theorem single_active_delivery:
  assumes "reachable (\<lambda>ops. ops = []) (operations_step seed) ops"
  shows "distinct (map op_id ops) \<and>
    length (filter (\<lambda>op. is_delivery op \<and> op_entity_id op = mid) ops) \<le> 1 \<and>
    (active_message_delivery mid ops = Some op \<longleftrightarrow> op \<in> set ops \<and> is_delivery op \<and> op_entity_id op = mid)"
proof -
  have i: "operations_inv ops" using assms by (rule operations_system.reachable_inv)
  let ?f = "filter (\<lambda>op. is_delivery op \<and> op_entity_id op = mid) ops"
  have d: "distinct ops" using i by (auto simp: operations_inv_def distinct_map)
  have "card (set ?f) \<le> 1"
    using i unfolding operations_inv_def by (intro card_le_Suc0_iff_eq [THEN iffD2, unfolded One_nat_def [symmetric]]) auto
  then have "length ?f \<le> 1" using d by (simp add: distinct_card [symmetric])
  then show ?thesis using i by (simp add: inv_distinct active_iff)
qed

text \<open>C28: A finished operation stays finished: one step of the feature leaves a completed operation
  and every finished message delivery exactly as they are; only a failed or cancelled pairing
  operation can still change, and then only into a completed one.\<close>

theorem finished_operations_final:
  assumes "reachable (\<lambda>ops. ops = []) (operations_step seed) ops" and "operations_step seed ops ops'"
    and "operation_by_id i ops = Some op" and "operation_is_terminal (op_state op)"
  shows "operation_by_id i ops' = Some op \<or>
    (\<exists>op'. operation_by_id i ops' = Some op' \<and> op_state op' = OpCompleted \<and>
       op_type op \<noteq> OpMessageDelivery \<and> op_state op \<noteq> OpCompleted)"
proof -
  have "operations_inv ops" using assms(1) by (rule operations_system.reachable_inv)
  with assms(2) have "table_write ops ops'" by (rule step_write)
  from table_write_keeps [OF this assms(3)] show ?thesis
    using assms(4) by (auto simp: operation_update_def)
qed

text \<open>C26: An operation id is bound to its first command payload for good: however the table evolves,
  beginning a pairing or a delivery under that id with another payload is refused and changes nothing.\<close>

theorem operation_payload_bound:
  assumes "reachable (\<lambda>ops. ops = []) (operations_step seed) ops" and "(operations_step seed)\<^sup>*\<^sup>* ops ops'"
    and "operation_by_id oid ops = Some op" and "op_command_descriptor op = Some d" and "d' \<noteq> d"
  shows "(\<exists>e. begin_pairing oid pid d' now ops' = (Err e, ops')) \<and>
    (\<exists>e. begin_message_delivery oid mid d' now ops' = (Err e, ops'))"
proof -
  have "operations_inv ops" using assms(1) by (rule operations_system.reachable_inv)
  from bound_descriptor_steps [OF assms(2) this assms(3,4)]
  obtain op' where o: "operation_by_id oid ops' = Some op'" "op_command_descriptor op' = Some d" by blast
  have b: "bind_descriptor d' op' = Err (Conflict ''operation id is already bound to a different command payload'')"
    using o(2) assms(5) by (simp add: bind_descriptor_def)
  show ?thesis
    using o(1) b
    by (cases "ensure_pairing_entity op' pid"; cases "ensure_message_entity op' mid")
      (simp_all add: begin_pairing_def begin_message_delivery_def parse_id_def Let_def)
qed

text \<open>A failed pairing attempt is always rescheduled, never dropped: the operation waits until a
  time at most six minutes ahead, keeps its attempt count and stays in the pending list.\<close>

theorem retry_pairing_schedules:
  assumes "reachable (\<lambda>ops. ops = []) (operations_step seed) ops" and "operation_by_id oid ops = Some op"
    and "op_type op \<in> {OpPairing, OpPairingCancellation}" and "\<not> operation_is_terminal (op_state op)"
    and "i64_min \<le> now" and "now \<le> i64_max - 360000"
  shows "\<exists>r op' t. retry_pairing seed oid (op_entity_id op) code now ops = (Ok r, put_operation op' ops) \<and>
    fr_value r = op' \<and> op_state op' = OpWaitingForRetry \<and> op_retry_at op' = Some t \<and>
    now < t \<and> t \<le> now + 360000 \<and> op_attempt_count op' = op_attempt_count op \<and>
    op' \<in> set (pending_operations (put_operation op' ops))"
proof -
  have i: "operations_inv ops" using assms(1) by (rule operations_system.reachable_inv)
  have k: "op_id op = oid" using assms(2) by (rule stored_key)
  have "op \<in> set ops" using by_id_iff [OF i] assms(2) by blast
  then have ne: "trim oid \<noteq> []" using i k by (auto simp: operations_inv_def list_all_iff operation_ok_def)
  let ?a = "op_attempt_count op" let ?s = "seed (op_entity_id op) ?a"
  let ?d = "delay default_policy (network_base_ms default_policy) ?a ?s"
  let ?t = "i64_add now ?d"
  let ?op = "schedule_retry ?t code now op"
  have d: "0 < ?d" "?d \<le> 360000" using network_delay_bounds [of ?a ?s] by simp_all
  then have "is_i64 (now + ?d)" using assms(5,6) by (simp add: is_i64_def)
  then have t: "?t = now + ?d" by (simp add: i64_add_def)
  have "retry_pairing seed oid (op_entity_id op) code now ops =
      (Ok (changed ?op (operation_changes (op_id ?op))), put_operation ?op ops)"
    using assms(2,3,4) ne
    by (simp add: retry_pairing_def pairing_operation_def parse_id_def ensure_pairing_entity_def seq_def Let_def)
  moreover have "?op \<in> set (pending_operations (put_operation ?op ops))"
    using i by (subst operations_table.pending_iff)
      (simp_all add: put_operation_def inv_distinct operations_table.get_put [unfolded put_operation_def]
        schedule_retry_def operation_is_terminal_def)
  ultimately show ?thesis using d t by (auto simp: changed_def schedule_retry_def)
qed

section \<open>Witnesses\<close>

definition sample_operations :: "durable_operation list" where
  "sample_operations =
     snd (begin_message_delivery ''op-2'' ''m'' ''send'' 20
       (snd (begin_pairing ''op-1'' ''p'' ''pair'' 10 [])))"

lemma sample_operations_eval:
  "sample_operations =
     [\<lparr> op_id = ''op-1'', op_type = OpPairingCancellation, op_entity_id = ''p'', op_state = OpRunning,
        op_started_at = 10, op_updated_at = 10, op_attempt_count = 1, op_retry_at = None,
        op_error_code = None, op_command_descriptor = Some ''pair'' \<rparr>,
      \<lparr> op_id = ''op-2'', op_type = OpMessageDelivery, op_entity_id = ''m'', op_state = OpRunning,
        op_started_at = 20, op_updated_at = 20, op_attempt_count = 1, op_retry_at = None,
        op_error_code = None, op_command_descriptor = Some ''send'' \<rparr>]"
proof -
  have t: "trim ''op-1'' = ''op-1''" "trim ''op-2'' = ''op-2''" "trim ''pair'' = ''pair''" "trim ''send'' = ''send''"
    by code_simp+
  show ?thesis
    by (simp add: sample_operations_def begin_message_delivery_def begin_pairing_def t parse_id_def Let_def
        operation_by_id_def active_message_delivery_def pending_operations_def ensure_pairing_entity_def
        ensure_message_entity_def bind_descriptor_def operation_edits put_operation_def upsert_def table_simps
        u32_saturating_add_def u32_max_def)
qed

lemma sample_operations_reachable: "reachable (\<lambda>ops. ops = []) (operations_step seed) sample_operations"
  unfolding sample_operations_def
  by (rule reach_step, rule reach_step, rule reach_init) (rule refl operations_step.intros)+

definition sample_finished :: "durable_operation list" where
  "sample_finished = snd (complete_message_delivery ''m'' 30 sample_operations)"

lemma sample_finished_reachable: "reachable (\<lambda>ops. ops = []) (operations_step seed) sample_finished"
  unfolding sample_finished_def
  by (rule reach_step, rule sample_operations_reachable) (rule operations_step.intros)

lemma sample_finished_by_id:
  "operation_by_id ''op-2'' sample_finished = Some
     \<lparr> op_id = ''op-2'', op_type = OpMessageDelivery, op_entity_id = ''m'', op_state = OpCompleted,
       op_started_at = 20, op_updated_at = 30, op_attempt_count = 1, op_retry_at = None,
       op_error_code = None, op_command_descriptor = Some ''send'' \<rparr>"
  by (simp add: sample_finished_def sample_operations_eval complete_message_delivery_def
      end_message_delivery_def active_message_delivery_def pending_operations_def operation_due_def
      operation_is_terminal_def operation_edits put_operation_def upsert_def operation_by_id_def table_simps)

theorem finished_operations_final_witness:
  "operation_by_id ''op-2'' (snd (retry_message_delivery ''m'' 99 CodeInternal 40 sample_finished)) =
     operation_by_id ''op-2'' sample_finished"
  using finished_operations_final [OF sample_finished_reachable [of "\<lambda>_ _. 0"] operations_step.intros(7) sample_finished_by_id,
      of "''m''" 99 CodeInternal 40]
  by (auto simp: sample_finished_by_id operation_is_terminal_def)

theorem operation_payload_bound_witness:
  "\<exists>e. begin_message_delivery ''op-2'' ''m'' ''other'' 50 sample_finished = (Err e, sample_finished)"
  using operation_payload_bound [OF sample_finished_reachable rtranclp.rtrancl_refl sample_finished_by_id,
      where d = "''send''" and d' = "''other''" and mid = "''m''" and now = 50]
  by simp

end
