(* ===== verification/Client_Store.thy ===== *)
theory Client_Store
  imports Durable_Operations
begin

text \<open>
  The client database as the runtime sees it: the tables behind \<open>SqliteRuntimeStorage\<close>
  (\<open>torchat-storage/src/storage\<close>) that conversations, contacts and message delivery use, with the SQL
  statements as functions on them. Columns that only record when a row was written are left out, and
  so are failures of the database itself. Text and JSON columns hold the value they decode to.
\<close>

section \<open>Tables\<close>

record message_row =
  mr_message :: chat_message
  mr_wire_ciphertext :: "string option"
  mr_ciphertext_hash :: "string option"

record contact_row =
  co_installation_id :: string
  co_nickname :: string
  co_public_key :: string
  co_fingerprint :: string
  co_verification :: verification_state
  co_local_alias :: "string option"
  co_muted :: bool
  co_blocked :: bool
  co_transport_policy :: contact_transport_policy
  co_last_seen_at :: "int option"

record endpoint_row =
  ep_contact_installation_id :: string
  ep_last_connected_at :: "int option"

record outbound_row =
  ob_message_id :: string
  ob_contact_installation_id :: string
  ob_sequence :: int
  ob_state :: string
  ob_attempt_count :: nat
  ob_next_attempt_at :: int
  ob_ack_deadline :: "int option"
  ob_last_error :: "string option"
  ob_created_at :: int
  ob_claimed_until :: "int option"
  ob_last_error_code :: "string option"

record client_store =
  messages_t :: "message_row list"
  conversations_t :: "conversation_summary list"
  contacts_t :: "contact_row list"
  endpoints_t :: "endpoint_row list"
  capability_outbox_t :: "string list"
  outbound_t :: "outbound_row list"
  operations_t :: "durable_operation list"
  unixepoch :: int

abbreviation row_message_id :: "message_row \<Rightarrow> string" where
  "row_message_id r \<equiv> m_id (mr_message r)"

section \<open>Statements\<close>

definition message_by_id :: "string \<Rightarrow> client_store \<Rightarrow> chat_message option" where
  "message_by_id message_id s = map_option mr_message (lookup row_message_id message_id (messages_t s))"

text \<open>An update keeps the ciphertext columns of the row.\<close>

definition put_message :: "chat_message \<Rightarrow> client_store \<Rightarrow> client_store" where
  "put_message m s =
     (let (wire, hash) = (case lookup row_message_id (m_id m) (messages_t s) of
            None \<Rightarrow> (None, None) | Some r \<Rightarrow> (mr_wire_ciphertext r, mr_ciphertext_hash r)) in
      s\<lparr> messages_t := upsert row_message_id
           \<lparr> mr_message = m, mr_wire_ciphertext = wire, mr_ciphertext_hash = hash \<rparr> (messages_t s) \<rparr>)"

text \<open>Deleting a message deletes its outbound delivery (\<open>ON DELETE CASCADE\<close>).\<close>

definition delete_message :: "string \<Rightarrow> client_store \<Rightarrow> client_store" where
  "delete_message message_id s =
     s\<lparr> messages_t := delete_key row_message_id message_id (messages_t s),
        outbound_t := delete_key ob_message_id message_id (outbound_t s) \<rparr>"

definition pending_messages :: "client_store \<Rightarrow> chat_message list" where
  "pending_messages s =
     sort_key m_next_attempt_at (sort_key m_created_at (sort_key m_id
       (filter (\<lambda>m. m_state m \<in> {Queued, Sending} \<and> m_next_attempt_at m \<le> unixepoch s * 1000)
          (map mr_message (messages_t s)))))"

definition conversation_by_id :: "string \<Rightarrow> client_store \<Rightarrow> conversation_summary option" where
  "conversation_by_id conversation_id s = lookup cv_id conversation_id (conversations_t s)"

definition put_conversation :: "conversation_summary \<Rightarrow> client_store \<Rightarrow> client_store" where
  "put_conversation c s = s\<lparr> conversations_t := upsert cv_id c (conversations_t s) \<rparr>"

definition mark_conversation_read :: "string \<Rightarrow> client_store \<Rightarrow> client_store" where
  "mark_conversation_read conversation_id s =
     s\<lparr> conversations_t := map (\<lambda>c. if cv_id c = conversation_id then c\<lparr> cv_unread_count := 0 \<rparr> else c)
          (conversations_t s) \<rparr>"

definition put_contact :: "contact_record \<Rightarrow> client_store \<Rightarrow> client_store" where
  "put_contact c s =
     (let stored = lookup co_installation_id (ct_installation_id c) (contacts_t s);
          seen = (case ct_last_seen_at c of Some t \<Rightarrow> Some t
                  | None \<Rightarrow> (case stored of None \<Rightarrow> None | Some r \<Rightarrow> co_last_seen_at r)) in
      s\<lparr> contacts_t := upsert co_installation_id
           \<lparr> co_installation_id = ct_installation_id c, co_nickname = ct_nickname c,
             co_public_key = ct_public_key c, co_fingerprint = ct_fingerprint c,
             co_verification = ct_verification c, co_local_alias = ct_local_alias c,
             co_muted = ct_muted c, co_blocked = ct_blocked c,
             co_transport_policy = ct_transport_policy c, co_last_seen_at = seen \<rparr> (contacts_t s) \<rparr>)"

definition decode_contact :: "client_store \<Rightarrow> contact_row \<Rightarrow> contact_record" where
  "decode_contact s r =
     (let endpoint = lookup ep_contact_installation_id (co_installation_id r) (endpoints_t s);
          connected_at = (case endpoint of None \<Rightarrow> None | Some e \<Rightarrow> ep_last_connected_at e) in
      \<lparr> ct_installation_id = co_installation_id r,
        ct_nickname = normalized_contact_nickname (co_installation_id r) (co_nickname r),
        ct_public_key = co_public_key r, ct_fingerprint = co_fingerprint r,
        ct_local_alias = co_local_alias r, ct_muted = co_muted r, ct_blocked = co_blocked r,
        ct_verification = co_verification r,
        ct_peer_endpoint_status =
          (if endpoint \<noteq> None then EpVerified
           else if co_installation_id r \<in> set (capability_outbox_t s) then EpPendingExchange
           else EpMissing),
        ct_peer_connection_status =
          (if (case connected_at of None \<Rightarrow> False | Some t \<Rightarrow> unixepoch s - 120 \<le> t)
           then PcConnected else PcOffline),
        ct_transport_policy = co_transport_policy r,
        ct_last_peer_connected_at = connected_at, ct_last_seen_at = co_last_seen_at r,
        ct_dev = None \<rparr>)"

definition contact_by_installation_id :: "string \<Rightarrow> client_store \<Rightarrow> contact_record option" where
  "contact_by_installation_id installation_id s =
     map_option (decode_contact s) (lookup co_installation_id installation_id (contacts_t s))"

section \<open>The outbound deliveries\<close>

definition enqueue_outbound_delivery :: "string \<Rightarrow> string \<Rightarrow> int \<Rightarrow> int \<Rightarrow> client_store \<Rightarrow> client_store" where
  "enqueue_outbound_delivery message_id contact sequence created_at s =
     (if message_id \<in> ob_message_id ` set (outbound_t s) then s
      else s\<lparr> outbound_t := outbound_t s @
        [\<lparr> ob_message_id = message_id, ob_contact_installation_id = contact, ob_sequence = sequence,
           ob_state = ''QUEUED'', ob_attempt_count = 0, ob_next_attempt_at = 0, ob_ack_deadline = None,
           ob_last_error = None, ob_created_at = created_at, ob_claimed_until = None,
           ob_last_error_code = None \<rparr>] \<rparr>)"

definition requeue_outbound_delivery ::
  "string \<Rightarrow> int \<Rightarrow> string \<Rightarrow> (client_store, runtime_error, unit) action" where
  "requeue_outbound_delivery message_id retry_at error =
     seq (ask (\<lambda>s. message_id \<in> ob_message_id ` set (outbound_t s))) (\<lambda>found.
     if \<not> found
     then throw (Storage (''outbound delivery '' @ message_id @ '' is missing while scheduling retry''))
     else change (\<lambda>s. s\<lparr> outbound_t := map (\<lambda>r. if ob_message_id r = message_id
       then r\<lparr> ob_state := ''QUEUED'', ob_next_attempt_at := retry_at, ob_ack_deadline := None,
               ob_last_error := Some error, ob_claimed_until := None, ob_last_error_code := None \<rparr>
       else r) (outbound_t s) \<rparr>))"

definition complete_outbound_delivery :: "string \<Rightarrow> client_store \<Rightarrow> client_store" where
  "complete_outbound_delivery message_id s =
     s\<lparr> outbound_t := delete_key ob_message_id message_id (outbound_t s) \<rparr>"

text \<open>Operations of the features that own the operations table.\<close>

definition on_operations :: "'a operations_action \<Rightarrow> (client_store, runtime_error, 'a) action" where
  "on_operations act = (\<lambda>s. case act (operations_t s) of (r, ops) \<Rightarrow> (r, s\<lparr> operations_t := ops \<rparr>))"

end
