(* ===== verification/Message_Delivery.thy ===== *)
theory Message_Delivery
  imports Client_Store
begin

text \<open>
  Message delivery: the messaging feature (\<open>torchat-runtime/src/features/messaging/mod.rs\<close>) and the
  deletion of a message (\<open>features/message_deletion.rs\<close>), which keep three things in step: the
  message, its durable operation and its row in the outbound queue. The text form of uuids belongs to
  a library and is the parameter \<open>uuid_lib\<close>; a fresh message id is an argument.
\<close>

section \<open>Definitions\<close>

record uuid_lib =
  uuid_parse :: "string \<Rightarrow> 128 word option"
  uuid_text :: "128 word \<Rightarrow> string"

text \<open>The documented behaviour of the library: a printed uuid parses to itself.\<close>

definition uuid_lib_ok :: "uuid_lib \<Rightarrow> bool" where
  "uuid_lib_ok lib \<longleftrightarrow> (\<forall>u. uuid_parse lib (uuid_text lib u) = Some u)"

record message_retry_result =
  mrr_effect :: message_send_effect
  mrr_message_id :: "128 word"
  mrr_transitions :: "message_state list"

record message_queue_result =
  mqr_effect :: message_send_effect
  mqr_message_id :: "128 word"
  mqr_created_at :: int
  mqr_transitions :: "message_state list"

record message_delete_result =
  mdr_message_id :: "128 word"
  mdr_conversation_id :: string

type_synonym 'a store_action = "(client_store, runtime_error, 'a) action"

definition normalize_message_text :: "string \<Rightarrow> string runtime_result" where
  "normalize_message_text text =
     (let n = trim text in
      if n = [] then Err (InvalidParams ''message text must not be empty'') else Ok n)"

definition parse_message_id :: "uuid_lib \<Rightarrow> string \<Rightarrow> 128 word runtime_result" where
  "parse_message_id lib message_id =
     ok_or (uuid_parse lib message_id) (InvalidParams ''message id is not a valid UUID'')"

text \<open>The first eight bytes of the id, at least one.\<close>

definition delivery_sequence :: "128 word \<Rightarrow> 64 word" where
  "delivery_sequence message_id = max 1 (ucast (drop_bit 64 message_id))"

fun outcome_error_code :: "message_transport_outcome \<Rightarrow> runtime_error_code" where
  "outcome_error_code PeerAuthenticationFailed = CodeCryptoFailed"
| "outcome_error_code PeerRejected = CodeConflict"
| "outcome_error_code _ = CodeTransportUnavailable"

definition message_effect :: "chat_message \<Rightarrow> string \<Rightarrow> message_send_effect" where
  "message_effect m recipient =
     \<lparr> mse_message_id = m_id m, mse_conversation_id = m_conversation_id m,
       mse_recipient_installation_id = recipient, mse_body = m_body m, mse_reply_to = m_reply_to m \<rparr>"

definition message_change :: "chat_message \<Rightarrow> change_set" where
  "message_change m = with_conversation (m_conversation_id m) (with_message (m_id m) change_none)"

definition required_message :: "string \<Rightarrow> chat_message store_action" where
  "required_message message_id =
     seq (ask (message_by_id message_id)) (\<lambda>found.
     lift (ok_or found (NotFound ''message does not exist'')))"

definition save_message :: "chat_message \<Rightarrow> chat_message feature_result store_action" where
  "save_message m = seq (change (put_message m)) (\<lambda>_. return (changed m (message_change m)))"

definition delete_with_context ::
  "uuid_lib \<Rightarrow> string \<Rightarrow> message_delete_result feature_result store_action" where
  "delete_with_context lib message_id =
     seq (required_message message_id) (\<lambda>m.
     seq (lift (parse_message_id lib (m_id m))) (\<lambda>parsed.
     seq (change (delete_message message_id)) (\<lambda>_.
     return (changed \<lparr> mdr_message_id = parsed, mdr_conversation_id = m_conversation_id m \<rparr>
       (with_conversation (m_conversation_id m) (with_message message_id change_none))))))"

definition outcome_fields ::
  "int option \<Rightarrow> string option \<Rightarrow> chat_message \<Rightarrow> chat_message" where
  "outcome_fields retry_at error_detail m =
     (case m_state m of
        Queued \<Rightarrow> m\<lparr> m_next_attempt_at := (case retry_at of Some t \<Rightarrow> t | None \<Rightarrow> m_next_attempt_at m),
                    m_ack_deadline := None, m_last_transport_error := error_detail \<rparr>
      | Failed \<Rightarrow> m\<lparr> m_next_attempt_at := 0, m_ack_deadline := None,
                    m_last_transport_error := error_detail \<rparr>
      | Sending \<Rightarrow> m
      | _ \<Rightarrow> m\<lparr> m_next_attempt_at := 0, m_ack_deadline := None, m_last_transport_error := None \<rparr>)"

definition apply_outcome ::
  "string \<Rightarrow> message_transport_outcome \<Rightarrow> int option \<Rightarrow> string option \<Rightarrow>
     chat_message feature_result store_action" where
  "apply_outcome message_id outcome retry_at error_detail =
     seq (required_message message_id) (\<lambda>m.
     if \<not> m_outgoing m
     then throw (Conflict ''incoming message state is owned by receive_message'')
     else
       seq (lift (ok_or (message_state_after_transport_outcome (m_state m) outcome)
              (Conflict ''transport outcome is invalid for the current message state''))) (\<lambda>next.
       if next = m_state m then return (unchanged m)
       else
         let m' = outcome_fields retry_at error_detail (m\<lparr> m_state := next \<rparr>) in
         seq (change (put_message m')) (\<lambda>_. return (changed m' (message_change m')))))"

definition delivery_contact :: "conversation_summary \<Rightarrow> contact_record store_action" where
  "delivery_contact c =
     (if \<not> can_send (cv_status c) then throw (Conflict ''conversation is not ready to send'')
      else
        seq (ask (contact_by_installation_id (cv_contact_installation_id c))) (\<lambda>found.
        seq (lift (ok_or found (NotFound ''recipient contact does not exist''))) (\<lambda>contact.
        if ct_verification contact \<noteq> Verified
        then throw (Conflict ''contact must be verified before sending'')
        else if ct_blocked contact then throw (Conflict ''contact is blocked'')
        else return contact)))"

definition required_conversation :: "string \<Rightarrow> conversation_summary store_action" where
  "required_conversation conversation_id =
     seq (ask (conversation_by_id conversation_id)) (\<lambda>found.
     lift (ok_or found (NotFound ''conversation does not exist'')))"

definition prepared_state :: "chat_message \<Rightarrow> message_state store_action" where
  "prepared_state m =
     lift (ok_or (message_state_on_send_prepare (m_state m))
       (Conflict ''message is not eligible for a send attempt''))"

definition reply_snapshot :: "string \<Rightarrow> string option \<Rightarrow> message_reply option store_action" where
  "reply_snapshot conversation_id reply_to_message_id =
     (case reply_to_message_id of None \<Rightarrow> return None
      | Some message_id \<Rightarrow>
          seq (ask (message_by_id message_id)) (\<lambda>found.
          seq (lift (ok_or found (NotFound ''reply message does not exist''))) (\<lambda>m.
          if m_conversation_id m \<noteq> conversation_id
          then throw (Conflict ''reply message belongs to another conversation'')
          else return (Some \<lparr> rp_message_id = m_id m, rp_body = m_body m, rp_outgoing = m_outgoing m \<rparr>))))"

definition queued_message ::
  "uuid_lib \<Rightarrow> 128 word \<Rightarrow> string \<Rightarrow> string \<Rightarrow> message_reply option \<Rightarrow> int \<Rightarrow> chat_message" where
  "queued_message lib new_id conversation_id text reply_to now_ms =
     \<lparr> m_id = uuid_text lib new_id, m_conversation_id = conversation_id, m_outgoing = True, m_body = text,
       m_reply_to = reply_to, m_state = Queued, m_created_at = now_ms, m_attempt_count = 0,
       m_last_attempt_at = None, m_next_attempt_at = now_ms, m_ack_deadline = None,
       m_last_transport_error = None \<rparr>"

definition queue_message ::
  "uuid_lib \<Rightarrow> 128 word \<Rightarrow> string \<Rightarrow> string \<Rightarrow> string option \<Rightarrow> int \<Rightarrow>
     message_queue_result feature_result store_action" where
  "queue_message lib new_id conversation_id text reply_to_message_id now_ms =
     seq (lift (normalize_message_text text)) (\<lambda>text.
     seq (reply_snapshot conversation_id reply_to_message_id) (\<lambda>reply_to.
     seq (required_conversation conversation_id) (\<lambda>conversation.
     seq (delivery_contact conversation) (\<lambda>contact.
     let m = queued_message lib new_id conversation_id text reply_to now_ms in
     seq (change (put_message m)) (\<lambda>_.
     seq (change (put_conversation (runtime_conversation_summary_on_outgoing
            (Some (cv_unread_count conversation)) (cv_id conversation) (ct_installation_id contact)
            text now_ms))) (\<lambda>_.
     seq (prepared_state m) (\<lambda>next.
     let m' = m\<lparr> m_state := next \<rparr> in
     seq (if next \<noteq> m_state m then change (put_message m') else return ()) (\<lambda>_.
     return (changed
       \<lparr> mqr_effect = message_effect m' (ct_installation_id contact), mqr_message_id = new_id,
         mqr_created_at = now_ms,
         mqr_transitions = (if next \<noteq> m_state m then [Queued, next] else [Queued]) \<rparr>
       (message_change m'))))))))))"

definition prepare_existing ::
  "uuid_lib \<Rightarrow> chat_message \<Rightarrow> bool \<Rightarrow> message_retry_result feature_result store_action" where
  "prepare_existing lib m manual_retry =
     seq (lift (parse_message_id lib (m_id m))) (\<lambda>parsed.
     seq (required_conversation (m_conversation_id m)) (\<lambda>conversation.
     seq (delivery_contact conversation) (\<lambda>contact.
     seq (prepared_state m) (\<lambda>next.
     let m' = m\<lparr> m_state := next \<rparr> in
     seq (if next \<noteq> m_state m then change (put_message m')
          else if manual_retry \<and> m_state m \<noteq> Sending
          then throw (Conflict ''message retry did not enter sending state'')
          else return ()) (\<lambda>_.
     return (changed
       \<lparr> mrr_effect = message_effect m' (ct_installation_id contact), mrr_message_id = parsed,
         mrr_transitions = (if next \<noteq> m_state m then [next] else []) \<rparr>
       (message_change m')))))))"

definition retry_message ::
  "uuid_lib \<Rightarrow> string \<Rightarrow> int \<Rightarrow> message_retry_result feature_result store_action" where
  "retry_message lib message_id now_ms =
     seq (required_message message_id) (\<lambda>m.
     if \<not> m_outgoing m then throw (Conflict ''incoming message cannot be retried'')
     else if m_state m \<notin> {Failed, Queued}
     then throw (Conflict ''message is not eligible for manual retry'')
     else
       let m' = m\<lparr> m_state := Queued, m_next_attempt_at := now_ms, m_ack_deadline := None,
                    m_last_transport_error := None \<rparr> in
       seq (change (put_message m')) (\<lambda>_.
       seq (prepare_existing lib m' True) (\<lambda>r.
       return (r\<lparr> fr_value := (fr_value r)\<lparr> mrr_transitions := Queued # mrr_transitions (fr_value r) \<rparr> \<rparr>))))"

fun prepare_all ::
  "uuid_lib \<Rightarrow> chat_message list \<Rightarrow> message_retry_result feature_result list store_action" where
  "prepare_all lib [] = return []"
| "prepare_all lib (m # ms) =
     seq (prepare_existing lib m False) (\<lambda>r.
     seq (prepare_all lib ms) (\<lambda>rs. return (r # rs)))"

definition prepare_pending :: "uuid_lib \<Rightarrow> message_retry_result feature_result list store_action" where
  "prepare_pending lib =
     seq (ask pending_messages) (\<lambda>ms.
     prepare_all lib (filter (\<lambda>m. m_outgoing m \<and> m_state m \<in> {Queued, Sending}) ms))"

section \<open>The facade of the client runtime\<close>

text \<open>A client runtime owns its store and its session.\<close>

record client =
  cl_store :: client_store
  cl_session :: runtime_session

type_synonym 'a client_action = "(client, runtime_error, 'a) action"

definition on_store :: "'a store_action \<Rightarrow> 'a client_action" where
  "on_store act = (\<lambda>c. case act (cl_store c) of (r, s) \<Rightarrow> (r, c\<lparr> cl_store := s \<rparr>))"

definition emit :: "runtime_event \<Rightarrow> unit client_action" where
  "emit e = change (\<lambda>c. c\<lparr> cl_session := push_event e (cl_session c) \<rparr>)"

definition publish_message_transitions ::
  "uuid_lib \<Rightarrow> 128 word \<Rightarrow> string \<Rightarrow> message_state list \<Rightarrow> unit client_action" where
  "publish_message_transitions lib message_id conversation_id transitions =
     for_each transitions (\<lambda>state.
       emit (MessageStateChanged (Some (uuid_text lib message_id)) (Some conversation_id) (Some state)))"

definition feature_queue_message_delivery ::
  "uuid_lib \<Rightarrow> 128 word \<Rightarrow> string \<Rightarrow> string \<Rightarrow> string \<Rightarrow> string \<Rightarrow> string option \<Rightarrow> int \<Rightarrow>
     message_send_effect feature_result client_action" where
  "feature_queue_message_delivery lib new_id operation_id descriptor conversation_id text reply_to now_ms =
     seq (on_store (queue_message lib new_id conversation_id text reply_to now_ms)) (\<lambda>queued.
     let effect = mqr_effect (fr_value queued) in
     seq (on_store (on_operations
            (begin_message_delivery operation_id (mse_message_id effect) descriptor now_ms))) (\<lambda>operation.
     seq (on_store (change (enqueue_outbound_delivery (mse_message_id effect)
            (mse_recipient_installation_id effect)
            (sint (delivery_sequence (mqr_message_id (fr_value queued))))
            (tdiv (mqr_created_at (fr_value queued)) 1000)))) (\<lambda>_.
     seq (publish_message_transitions lib (mqr_message_id (fr_value queued)) (mse_conversation_id effect)
            (mqr_transitions (fr_value queued))) (\<lambda>_.
     seq (emit (Changed (Some ''conversations''))) (\<lambda>_.
     return \<lparr> fr_value = effect, fr_changes = change_merge (fr_changes queued) (fr_changes operation),
              fr_effects = fr_effects queued \<rparr>)))))"

definition feature_retry_message ::
  "uuid_lib \<Rightarrow> string \<Rightarrow> string \<Rightarrow> string \<Rightarrow> int \<Rightarrow> message_send_effect feature_result client_action" where
  "feature_retry_message lib operation_id descriptor message_id now_ms =
     seq (on_store (retry_message lib message_id now_ms)) (\<lambda>retry.
     let effect = mrr_effect (fr_value retry) in
     seq (on_store (on_operations
            (begin_message_delivery operation_id (mse_message_id effect) descriptor now_ms))) (\<lambda>operation.
     seq (on_store (change (enqueue_outbound_delivery (mse_message_id effect)
            (mse_recipient_installation_id effect)
            (sint (delivery_sequence (mrr_message_id (fr_value retry)))) (tdiv now_ms 1000)))) (\<lambda>_.
     seq (publish_message_transitions lib (mrr_message_id (fr_value retry)) (mse_conversation_id effect)
            (mrr_transitions (fr_value retry))) (\<lambda>_.
     return \<lparr> fr_value = effect, fr_changes = change_merge (fr_changes retry) (fr_changes operation),
              fr_effects = fr_effects retry \<rparr>))))"

definition deliver_prepared ::
  "uuid_lib \<Rightarrow> int \<Rightarrow> message_retry_result feature_result \<Rightarrow> message_send_effect client_action" where
  "deliver_prepared lib now_ms prepared =
     (let effect = mrr_effect (fr_value prepared) in
      seq (on_store (on_operations (begin_message_delivery (''message-delivery:'' @ mse_message_id effect)
             (mse_message_id effect) (''message_delivery:'' @ mse_message_id effect) now_ms))) (\<lambda>_.
      seq (on_store (change (enqueue_outbound_delivery (mse_message_id effect)
             (mse_recipient_installation_id effect)
             (sint (delivery_sequence (mrr_message_id (fr_value prepared)))) (tdiv now_ms 1000)))) (\<lambda>_.
      seq (publish_message_transitions lib (mrr_message_id (fr_value prepared)) (mse_conversation_id effect)
             (mrr_transitions (fr_value prepared))) (\<lambda>_.
      return effect))))"

fun deliver_all ::
  "uuid_lib \<Rightarrow> int \<Rightarrow> message_retry_result feature_result list \<Rightarrow> message_send_effect list client_action" where
  "deliver_all lib now_ms [] = return []"
| "deliver_all lib now_ms (p # ps) =
     seq (deliver_prepared lib now_ms p) (\<lambda>e.
     seq (deliver_all lib now_ms ps) (\<lambda>es. return (e # es)))"

definition feature_prepare_pending_message_deliveries ::
  "uuid_lib \<Rightarrow> int \<Rightarrow> message_send_effect list client_action" where
  "feature_prepare_pending_message_deliveries lib now_ms =
     seq (on_store (prepare_pending lib)) (deliver_all lib now_ms)"

definition outcome_bookkeeping ::
  "string \<Rightarrow> message_transport_outcome \<Rightarrow> int option \<Rightarrow> string option \<Rightarrow> int \<Rightarrow> change_set store_action" where
  "outcome_bookkeeping message_id outcome retry_at error_detail now_ms =
     (if outcome \<in> {PeerUnavailable, RetryableFailure} then
        let t = (case retry_at of Some t \<Rightarrow> t | None \<Rightarrow> now_ms) in
        seq (requeue_outbound_delivery message_id t
               (case error_detail of Some d \<Rightarrow> d | None \<Rightarrow> ''retry'')) (\<lambda>_.
        seq (on_operations (retry_message_delivery message_id t CodeTransportUnavailable now_ms)) (\<lambda>r.
        return (fr_changes r)))
      else if outcome \<in> {OutcomePermanentFailure, PeerAuthenticationFailed, PeerRejected} then
        seq (change (complete_outbound_delivery message_id)) (\<lambda>_.
        seq (on_operations (fail_message_delivery message_id (outcome_error_code outcome) now_ms)) (\<lambda>r.
        return (fr_changes r)))
      else
        seq (change (complete_outbound_delivery message_id)) (\<lambda>_.
        seq (on_operations (complete_message_delivery message_id now_ms)) (\<lambda>r.
        return (fr_changes r))))"

definition feature_apply_message_delivery_outcome ::
  "uuid_lib \<Rightarrow> string \<Rightarrow> message_transport_outcome \<Rightarrow> int option \<Rightarrow> string option \<Rightarrow> int \<Rightarrow>
     chat_message feature_result client_action" where
  "feature_apply_message_delivery_outcome lib message_id outcome retry_at error_detail now_ms =
     seq (on_store (outcome_bookkeeping message_id outcome retry_at error_detail now_ms)) (\<lambda>op_changes.
     seq (on_store (apply_outcome message_id outcome retry_at error_detail)) (\<lambda>r.
     seq (if sections_is_empty (sections (fr_changes r)) then return ()
          else
            seq (lift (parse_message_id lib (m_id (fr_value r)))) (\<lambda>parsed.
            emit (MessageStateChanged (Some (uuid_text lib parsed))
              (Some (m_conversation_id (fr_value r))) (Some (m_state (fr_value r)))))) (\<lambda>_.
     return \<lparr> fr_value = fr_value r, fr_changes = change_merge (fr_changes r) op_changes,
              fr_effects = fr_effects r \<rparr>)))"

definition feature_delete_message_local ::
  "uuid_lib \<Rightarrow> string \<Rightarrow> unit feature_result client_action" where
  "feature_delete_message_local lib message_id =
     seq (on_store (delete_with_context lib message_id)) (\<lambda>r.
     seq (emit (MessageStateChanged (Some (uuid_text lib (mdr_message_id (fr_value r))))
            (Some (mdr_conversation_id (fr_value r))) None)) (\<lambda>_.
     return \<lparr> fr_value = (), fr_changes = fr_changes r, fr_effects = fr_effects r \<rparr>))"

definition feature_delete_message_delivery ::
  "uuid_lib \<Rightarrow> string \<Rightarrow> int \<Rightarrow> unit feature_result client_action" where
  "feature_delete_message_delivery lib message_id now_ms =
     seq (on_store (delete_with_context lib message_id)) (\<lambda>deleted.
     seq (on_store (on_operations (cancel_active_delivery message_id now_ms))) (\<lambda>cancelled.
     seq (on_store (change (complete_outbound_delivery message_id))) (\<lambda>_.
     seq (emit (MessageStateChanged (Some (uuid_text lib (mdr_message_id (fr_value deleted))))
            (Some (mdr_conversation_id (fr_value deleted))) None)) (\<lambda>_.
     return \<lparr> fr_value = (),
       fr_changes = (case cancelled of None \<Rightarrow> fr_changes deleted
                     | Some ch \<Rightarrow> change_merge (fr_changes deleted) ch),
       fr_effects = fr_effects deleted \<rparr>))))"

section \<open>Tables of the store\<close>

lemma lookup_row_id: "lookup row_message_id k rows = Some r \<Longrightarrow> row_message_id r = k"
  by (drule lookup_key) simp

interpretation messages_table: keyed_table message_by_id put_message m_id
  by unfold_locales
    (auto simp: message_by_id_def put_message_def Let_def table_simps split: option.splits dest: lookup_row_id)

interpretation conversations_table: keyed_table conversation_by_id put_conversation cv_id
  by unfold_locales (auto simp: conversation_by_id_def put_conversation_def table_simps dest: lookup_key)

lemmas message_by_id_put [table_simps] = messages_table.get_put
lemmas conversation_by_id_put [table_simps] = conversations_table.get_put

lemma message_by_id_cong: "messages_t s = messages_t s' \<Longrightarrow> message_by_id k s = message_by_id k s'"
  by (simp add: message_by_id_def)

lemma message_by_id_delete [table_simps]:
  "message_by_id k (delete_message j s) = (if k = j then None else message_by_id k s)"
  by (simp add: message_by_id_def delete_message_def table_simps)

lemma put_message_fields [simp]:
  "conversations_t (put_message m s) = conversations_t s" "contacts_t (put_message m s) = contacts_t s"
  "endpoints_t (put_message m s) = endpoints_t s" "capability_outbox_t (put_message m s) = capability_outbox_t s"
  "outbound_t (put_message m s) = outbound_t s" "operations_t (put_message m s) = operations_t s"
  "unixepoch (put_message m s) = unixepoch s"
  by (simp_all add: put_message_def Let_def split: option.splits)

lemma put_conversation_fields [simp]:
  "messages_t (put_conversation c s) = messages_t s" "contacts_t (put_conversation c s) = contacts_t s"
  "outbound_t (put_conversation c s) = outbound_t s" "operations_t (put_conversation c s) = operations_t s"
  by (simp_all add: put_conversation_def)

lemma put_message_distinct [simp]:
  "distinct (map row_message_id (messages_t s)) \<Longrightarrow> distinct (map row_message_id (messages_t (put_message m s)))"
  by (simp add: put_message_def Let_def split: option.splits)

lemma message_row_in:
  assumes "distinct (map row_message_id (messages_t s))"
  shows "message_by_id k s = Some m \<longleftrightarrow> m \<in> mr_message ` set (messages_t s) \<and> m_id m = k"
  using lookup_Some_iff [OF assms]
  by (auto simp: message_by_id_def)

definition outbound_ids :: "client_store \<Rightarrow> string set" where
  "outbound_ids s = ob_message_id ` set (outbound_t s)"

definition in_flight :: "client_store \<Rightarrow> string set" where
  "in_flight s = {i. \<exists>m. message_by_id i s = Some m \<and> m_outgoing m \<and> m_state m \<in> {Queued, Sending}}"

definition deliveries :: "durable_operation list \<Rightarrow> string set" where
  "deliveries ops = op_entity_id ` {op \<in> set ops. is_delivery op}"

text \<open>A message is in flight exactly when it has an outbound row, and an active operation always has
  its message in flight.\<close>

definition delivery_inv :: "client_store \<Rightarrow> bool" where
  "delivery_inv s \<longleftrightarrow> distinct (map row_message_id (messages_t s)) \<and> operations_inv (operations_t s) \<and>
     outbound_ids s = in_flight s \<and> deliveries (operations_t s) \<subseteq> in_flight s"

lemma outbound_ids_simps [simp]:
  "outbound_ids (put_message m s) = outbound_ids s"
  "outbound_ids (put_conversation c s) = outbound_ids s"
  "outbound_ids (enqueue_outbound_delivery i a q t s) = insert i (outbound_ids s)"
  "outbound_ids (complete_outbound_delivery i s) = outbound_ids s - {i}"
  "outbound_ids (delete_message i s) = outbound_ids s - {i}"
  "outbound_ids (s\<lparr> operations_t := ops \<rparr>) = outbound_ids s"
  by (auto simp: outbound_ids_def enqueue_outbound_delivery_def complete_outbound_delivery_def
      delete_message_def delete_key_def)

lemma in_flight_simps [simp]:
  "in_flight (put_conversation c s) = in_flight s"
  "in_flight (enqueue_outbound_delivery i a q t s) = in_flight s"
  "in_flight (complete_outbound_delivery i s) = in_flight s"
  "in_flight (s\<lparr> operations_t := ops \<rparr>) = in_flight s"
  "in_flight (delete_message i s) = in_flight s - {i}"
  by (auto simp: in_flight_def message_by_id_def put_conversation_def enqueue_outbound_delivery_def
      complete_outbound_delivery_def delete_message_def table_simps)

lemma in_flight_put:
  "in_flight (put_message m s) =
     (if m_outgoing m \<and> m_state m \<in> {Queued, Sending} then insert (m_id m) (in_flight s)
      else in_flight s - {m_id m})"
  by (auto simp: in_flight_def table_simps)

lemma operations_fields [simp]:
  "operations_t (enqueue_outbound_delivery i a q t s) = operations_t s"
  "operations_t (complete_outbound_delivery i s) = operations_t s"
  "operations_t (delete_message i s) = operations_t s"
  "messages_t (enqueue_outbound_delivery i a q t s) = messages_t s"
  "messages_t (complete_outbound_delivery i s) = messages_t s"
  by (simp_all add: enqueue_outbound_delivery_def complete_outbound_delivery_def delete_message_def)

lemma delete_message_distinct [simp]:
  "distinct (map row_message_id (messages_t s)) \<Longrightarrow> distinct (map row_message_id (messages_t (delete_message i s)))"
  by (simp add: delete_message_def distinct_delete_key)

section \<open>Operations of a delivery\<close>

lemma deliveries_iff: "i \<in> deliveries ops \<longleftrightarrow> (\<exists>op \<in> set ops. is_delivery op \<and> op_entity_id op = i)"
  by (auto simp: deliveries_def)

lemma set_put_operation: "set (put_operation op ops) \<subseteq> insert op (set ops)"
  by (auto simp: put_operation_def upsert_def)

lemma deliveries_put: "deliveries (put_operation op ops) \<subseteq> insert (op_entity_id op) (deliveries ops)"
  using set_put_operation [of op ops] by (auto simp: deliveries_def)

lemma begin_delivery_shape:
  assumes "begin_message_delivery oid mid d now ops = (r, ops')"
  shows "ops' = ops \<or> (\<exists>op. ops' = put_operation op ops \<and> op_entity_id op = mid)"
proof -
  have "snd (begin_message_delivery oid mid d now ops) = ops \<or>
      (\<exists>op. snd (begin_message_delivery oid mid d now ops) = put_operation op ops \<and> op_entity_id op = mid)"
    by (auto simp: begin_message_delivery_def parse_id_def Let_def ensure_message_entity_def bind_descriptor_def
        begin_attempt_def pending_operation_def with_command_descriptor_def split: option.splits)
  then show ?thesis using assms by simp
qed

lemma deliveries_begin:
  "begin_message_delivery oid mid d now ops = (r, ops') \<Longrightarrow> deliveries ops' \<subseteq> insert mid (deliveries ops)"
  using begin_delivery_shape deliveries_put by blast

lemma deliveries_end:
  assumes i: "operations_inv ops" and e: "end_message_delivery update mid ops = (r, ops')"
    and u: "\<And>op. op_entity_id (update op) = op_entity_id op" "\<And>op. op_id (update op) = op_id op"
  shows "deliveries ops' \<subseteq> deliveries ops"
    and "(\<And>op. operation_is_terminal (op_state (update op))) \<Longrightarrow> mid \<notin> deliveries ops'"
proof -
  have "(\<forall>a \<in> set ops. is_delivery a \<longrightarrow> op_entity_id a \<noteq> mid) \<and> ops' = ops \<or>
      (\<exists>op \<in> set ops. is_delivery op \<and> op_entity_id op = mid \<and> ops' = put_operation (update op) ops)"
  proof (cases "active_message_delivery mid ops")
    case None
    then show ?thesis using e active_None [OF i None] by (auto simp: end_message_delivery_def)
  next
    case (Some op)
    then show ?thesis using e active_iff [OF i, of mid op] by (auto simp: end_message_delivery_def)
  qed
  then consider (none) "\<forall>a \<in> set ops. is_delivery a \<longrightarrow> op_entity_id a \<noteq> mid" "ops' = ops"
    | (some) op where "op \<in> set ops" "is_delivery op" "op_entity_id op = mid" "ops' = put_operation (update op) ops"
    by blast
  note shape = this
  from shape show "deliveries ops' \<subseteq> deliveries ops"
  proof cases
    case (some op)
    then have "mid \<in> deliveries ops" by (auto simp: deliveries_iff)
    then show ?thesis using some deliveries_put [of "update op" ops] u by auto
  qed simp
  assume t: "\<And>op. operation_is_terminal (op_state (update op))"
  from shape show "mid \<notin> deliveries ops'"
  proof cases
    case (some op)
    have "a = op" if "a \<in> set ops" "is_delivery a" "op_entity_id a = mid" for a
      using that some i unfolding operations_inv_def by auto
    moreover have "op \<notin> set ops' \<or> op = update op"
      using some u by (auto simp: put_operation_def upsert_def split: if_splits)
    moreover have "\<not> is_delivery (update op)" using t by (simp add: is_delivery_def)
    moreover have "set ops' \<subseteq> insert (update op) (set ops)" using some set_put_operation by blast
    ultimately show ?thesis using some(2) by (auto simp: deliveries_iff)
  qed (auto simp: deliveries_iff)
qed

section \<open>What a successful call did\<close>

lemma on_store_ok:
  "on_store act c = (Ok r, c') \<Longrightarrow> \<exists>s'. act (cl_store c) = (Ok r, s') \<and> c' = c\<lparr> cl_store := s' \<rparr>"
  by (auto simp: on_store_def split: prod.splits)

lemma on_operations_ok:
  "on_operations act s = (Ok r, s') \<Longrightarrow>
     \<exists>ops'. act (operations_t s) = (Ok r, ops') \<and> s' = s\<lparr> operations_t := ops' \<rparr>"
  by (auto simp: on_operations_def split: prod.splits)

lemma emit_simp [simp]: "emit e c = (Ok (), c\<lparr> cl_session := push_event e (cl_session c) \<rparr>)"
  by (simp add: emit_def)

lemma seq_emit [simp]: "seq (emit e) k c = k () (c\<lparr> cl_session := push_event e (cl_session c) \<rparr>)"
  by (simp add: emit_def)

lemma publish_simp:
  "publish_message_transitions lib i cid ts c =
     (Ok (), c\<lparr> cl_session := fold (\<lambda>st. push_event (MessageStateChanged (Some (uuid_text lib i)) (Some cid) (Some st)))
        ts (cl_session c) \<rparr>)"
  unfolding publish_message_transitions_def by (induction ts arbitrary: c) simp_all

lemma seq_publish:
  "seq (publish_message_transitions lib i cid ts) k c =
     k () (c\<lparr> cl_session := fold (\<lambda>st. push_event (MessageStateChanged (Some (uuid_text lib i)) (Some cid) (Some st)))
        ts (cl_session c) \<rparr>)"
  by (rule seq_ok) (rule publish_simp)

lemma delivery_contact_ok:
  "delivery_contact cv s = (Ok ct, s') \<Longrightarrow> s' = s \<and> can_send (cv_status cv) \<and>
     contact_by_installation_id (cv_contact_installation_id cv) s = Some ct \<and>
     ct_verification ct = Verified \<and> \<not> ct_blocked ct"
  by (cases "contact_by_installation_id (cv_contact_installation_id cv) s")
    (auto simp: delivery_contact_def split: if_splits)

lemma required_message_ok:
  "required_message i s = (Ok m, s') \<Longrightarrow> s' = s \<and> message_by_id i s = Some m"
  by (cases "message_by_id i s") (auto simp: required_message_def)

lemma required_conversation_ok:
  "required_conversation i s = (Ok cv, s') \<Longrightarrow> s' = s \<and> conversation_by_id i s = Some cv"
  by (cases "conversation_by_id i s") (auto simp: required_conversation_def)

lemma reply_snapshot_ok: "reply_snapshot cid r s = (Ok rep, s') \<Longrightarrow> s' = s"
  by (cases r; cases "message_by_id (the r) s") (auto simp: reply_snapshot_def split: if_splits)

lemma prepared_state_ok:
  "prepared_state m s = (Ok st, s') \<Longrightarrow> s' = s \<and> st = Sending \<and> m_state m \<in> {Queued, Sending}"
  by (cases "m_state m") (auto simp: prepared_state_def)

lemma queue_message_ok:
  assumes "queue_message lib nid cid text reply now s = (Ok r, s')"
  obtains rep cv ct m where
    "trim text \<noteq> []" "m = queued_message lib nid cid (trim text) rep now"
    "conversation_by_id cid s = Some cv" "can_send (cv_status cv)"
    "contact_by_installation_id (cv_contact_installation_id cv) s = Some ct"
    "ct_verification ct = Verified" "\<not> ct_blocked ct"
    "s' = put_message (m\<lparr> m_state := Sending \<rparr>) (put_conversation (runtime_conversation_summary_on_outgoing
        (Some (cv_unread_count cv)) (cv_id cv) (ct_installation_id ct) (trim text) now) (put_message m s))"
    "fr_value r = \<lparr> mqr_effect = message_effect (m\<lparr> m_state := Sending \<rparr>) (ct_installation_id ct),
        mqr_message_id = nid, mqr_created_at = now, mqr_transitions = [Queued, Sending] \<rparr>"
proof -
  have n: "trim text \<noteq> []" "normalize_message_text text = Ok (trim text)"
    using assms by (auto simp: queue_message_def normalize_message_text_def Let_def split: if_splits)
  from assms obtain rep cv ct where
    a: "fst (reply_snapshot cid reply s) = Ok rep" "conversation_by_id cid s = Some cv" "can_send (cv_status cv)"
      "contact_by_installation_id (cv_contact_installation_id cv) s = Some ct"
      "ct_verification ct = Verified" "\<not> ct_blocked ct"
    unfolding queue_message_def n(2) seq_lift_Ok
    by (elim seq_okE) (auto dest!: delivery_contact_ok required_conversation_ok dest: reply_snapshot_ok)
  have rs: "reply_snapshot cid reply s = (Ok rep, s)"
    using a(1) reply_snapshot_ok by (metis prod.collapse)
  have rk: "seq (reply_snapshot cid reply) k s = k rep s" for k :: "message_reply option \<Rightarrow> 'x store_action"
    by (simp add: seq_def rs)
  let ?m = "queued_message lib nid cid (trim text) rep now"
  have q: "m_state ?m = Queued" by (simp add: queued_message_def)
  show ?thesis
    using that [OF n(1) refl a(2-6)] assms
    by (auto simp: queue_message_def n(2) rk required_conversation_def delivery_contact_def a prepared_state_def q
        Let_def seq_assoc changed_def)
qed

lemma prepare_existing_ok:
  assumes "prepare_existing lib m manual s = (Ok r, s')"
  obtains cv ct u where
    "uuid_parse lib (m_id m) = Some u" "m_state m \<in> {Queued, Sending}"
    "conversation_by_id (m_conversation_id m) s = Some cv" "can_send (cv_status cv)"
    "contact_by_installation_id (cv_contact_installation_id cv) s = Some ct"
    "ct_verification ct = Verified" "\<not> ct_blocked ct"
    "s' = (if m_state m = Queued then put_message (m\<lparr> m_state := Sending \<rparr>) s else s)"
    "fr_value r = \<lparr> mrr_effect = message_effect (m\<lparr> m_state := Sending \<rparr>) (ct_installation_id ct),
        mrr_message_id = u, mrr_transitions = (if m_state m = Queued then [Sending] else []) \<rparr>"
proof -
  from assms obtain u cv ct where
    a: "uuid_parse lib (m_id m) = Some u" "m_state m \<in> {Queued, Sending}"
      "conversation_by_id (m_conversation_id m) s = Some cv" "can_send (cv_status cv)"
      "contact_by_installation_id (cv_contact_installation_id cv) s = Some ct"
      "ct_verification ct = Verified" "\<not> ct_blocked ct"
    unfolding prepare_existing_def Let_def parse_message_id_def
    by (cases "uuid_parse lib (m_id m)"; elim seq_okE)
      (auto dest!: delivery_contact_ok required_conversation_ok prepared_state_ok)
  show ?thesis
    using that [OF a] a(2) assms
    by (auto simp: prepare_existing_def parse_message_id_def required_conversation_def delivery_contact_def
        prepared_state_def a(1,3-7) Let_def seq_assoc changed_def)
qed

lemma retry_message_ok:
  assumes "retry_message lib i now s = (Ok r, s')"
  obtains m q u and ct :: contact_record where
    "message_by_id i s = Some m" "m_outgoing m" "m_state m \<in> {Failed, Queued}"
    "q = m\<lparr> m_state := Queued, m_next_attempt_at := now, m_ack_deadline := None, m_last_transport_error := None \<rparr>"
    "s' = put_message (q\<lparr> m_state := Sending \<rparr>) (put_message q s)"
    "fr_value r = \<lparr> mrr_effect = message_effect (q\<lparr> m_state := Sending \<rparr>) (ct_installation_id ct),
        mrr_message_id = u, mrr_transitions = [Queued, Sending] \<rparr>"
proof -
  from assms obtain m where m: "message_by_id i s = Some m" "m_outgoing m" "m_state m \<in> {Failed, Queued}"
    by (cases "message_by_id i s") (auto simp: retry_message_def required_message_def seq_assoc split: if_splits)
  let ?q = "m\<lparr> m_state := Queued, m_next_attempt_at := now, m_ack_deadline := None, m_last_transport_error := None \<rparr>"
  from assms m obtain r0 where r0: "prepare_existing lib ?q True (put_message ?q s) = (Ok r0, s')"
      "r = r0\<lparr> fr_value := (fr_value r0)\<lparr> mrr_transitions := Queued # mrr_transitions (fr_value r0) \<rparr> \<rparr>"
    by (auto simp: retry_message_def required_message_def seq_assoc Let_def elim!: seq_okE)
  from r0(1) show ?thesis
  proof (cases rule: prepare_existing_ok)
    case (1 cv ct u)
    show ?thesis by (rule that [OF m refl, of ct u]) (use 1(8,9) r0(2) in simp_all)
  qed
qed

lemma apply_outcome_ok:
  assumes "apply_outcome i outcome t e s = (Ok r, s')"
  obtains m st where
    "message_by_id i s = Some m" "m_outgoing m"
    "message_state_after_transport_outcome (m_state m) outcome = Some st"
    "fr_value r = (if st = m_state m then m else outcome_fields t e (m\<lparr> m_state := st \<rparr>))"
    "s' = (if st = m_state m then s else put_message (fr_value r) s)"
proof -
  from assms obtain m where m: "message_by_id i s = Some m" "m_outgoing m"
    by (cases "message_by_id i s") (auto simp: apply_outcome_def required_message_def seq_assoc split: if_splits)
  from assms m obtain st where st: "message_state_after_transport_outcome (m_state m) outcome = Some st"
    by (cases "message_state_after_transport_outcome (m_state m) outcome")
      (auto simp: apply_outcome_def required_message_def seq_assoc)
  show ?thesis
    using that [OF m st] assms
    by (auto simp: apply_outcome_def required_message_def seq_assoc m st Let_def unchanged_def changed_def split: if_splits)
qed

lemma outcome_fields_simps [simp]:
  "m_id (outcome_fields t e m) = m_id m" "m_outgoing (outcome_fields t e m) = m_outgoing m"
  "m_state (outcome_fields t e m) = m_state m"
  "m_body (outcome_fields t e m) = m_body m" "m_conversation_id (outcome_fields t e m) = m_conversation_id m"
  by (cases "m_state m"; simp add: outcome_fields_def)+

lemma delete_with_context_ok:
  assumes "delete_with_context lib i s = (Ok r, s')"
  obtains m where "message_by_id i s = Some m" "s' = delete_message i s"
  using assms
  by (cases "message_by_id i s")
    (auto simp: delete_with_context_def required_message_def seq_assoc parse_message_id_def elim!: seq_okE)

section \<open>The invariant is kept\<close>

lemma begin_inv: "operations_inv ops \<Longrightarrow> begin_message_delivery oid mid d now ops = (r, ops') \<Longrightarrow> operations_inv ops'"
  using begin_delivery_write table_write_inv by (metis snd_conv)

lemma begin_enqueue_inv:
  assumes "distinct (map row_message_id (messages_t s))" and "operations_inv (operations_t s)"
    and "insert mid (outbound_ids s) = in_flight s" and "deliveries (operations_t s) \<subseteq> in_flight s"
    and "on_operations (begin_message_delivery oid mid d now) s = (Ok r, s')"
  shows "delivery_inv (enqueue_outbound_delivery mid a q t s')"
proof -
  obtain ops' where o: "begin_message_delivery oid mid d now (operations_t s) = (Ok r, ops')"
      "s' = s\<lparr> operations_t := ops' \<rparr>"
    using on_operations_ok [OF assms(5)] by blast
  have "deliveries ops' \<subseteq> insert mid (deliveries (operations_t s))" by (rule deliveries_begin [OF o(1)])
  then have "deliveries ops' \<subseteq> in_flight s" using assms(3,4) by blast
  moreover have "operations_inv ops'" by (rule begin_inv [OF assms(2) o(1)])
  ultimately show ?thesis using assms(1,3) o(2) by (simp add: delivery_inv_def)
qed

lemma queue_delivery_inv:
  assumes i: "delivery_inv (cl_store c)"
    and "feature_queue_message_delivery lib nid oid d cid text reply now c = (Ok r, c')"
  shows "delivery_inv (cl_store c')"
proof -
  let ?s = "cl_store c"
  from assms(2) obtain q s1 s2 op where q: "queue_message lib nid cid text reply now ?s = (Ok q, s1)"
    and b: "on_operations (begin_message_delivery oid (mse_message_id (mqr_effect (fr_value q))) d now) s1 = (Ok op, s2)"
    and c': "cl_store c' = enqueue_outbound_delivery (mse_message_id (mqr_effect (fr_value q)))
        (mse_recipient_installation_id (mqr_effect (fr_value q)))
        (sint (delivery_sequence (mqr_message_id (fr_value q)))) (tdiv (mqr_created_at (fr_value q)) 1000) s2"
    unfolding feature_queue_message_delivery_def Let_def
    by (elim seq_okE) (auto simp: publish_simp on_store_def split: prod.splits)
  from q show ?thesis
  proof (cases rule: queue_message_ok)
    case (1 rep cv ct m)
    then have m: "m_outgoing m" "m_state m = Queued" "mse_message_id (mqr_effect (fr_value q)) = m_id m"
      by (simp_all add: queued_message_def message_effect_def)
    show ?thesis unfolding c'
      by (rule begin_enqueue_inv [OF _ _ _ _ b]) (use i m 1(8) in \<open>auto simp: delivery_inv_def in_flight_put\<close>)
  qed
qed

lemma retry_delivery_inv:
  assumes i: "delivery_inv (cl_store c)"
    and "feature_retry_message lib oid d mid now c = (Ok r, c')"
  shows "delivery_inv (cl_store c')"
proof -
  let ?s = "cl_store c"
  from assms(2) obtain q s1 s2 op where q: "retry_message lib mid now ?s = (Ok q, s1)"
    and b: "on_operations (begin_message_delivery oid (mse_message_id (mrr_effect (fr_value q))) d now) s1 = (Ok op, s2)"
    and c': "cl_store c' = enqueue_outbound_delivery (mse_message_id (mrr_effect (fr_value q)))
        (mse_recipient_installation_id (mrr_effect (fr_value q)))
        (sint (delivery_sequence (mrr_message_id (fr_value q)))) (tdiv now 1000) s2"
    unfolding feature_retry_message_def Let_def
    by (elim seq_okE) (auto simp: publish_simp on_store_def split: prod.splits)
  from q show ?thesis
  proof (cases rule: retry_message_ok)
    case (1 m0 m u ct)
    then have m: "m_outgoing m" "m_state m = Queued" "mse_message_id (mrr_effect (fr_value q)) = m_id m"
      by (simp_all add: message_effect_def)
    show ?thesis unfolding c'
      by (rule begin_enqueue_inv [OF _ _ _ _ b]) (use i m 1(5) in \<open>auto simp: delivery_inv_def in_flight_put\<close>)
  qed
qed

lemma end_inv:
  assumes "operations_inv ops"
  shows "operations_inv (snd (complete_message_delivery i now ops))"
    and "operations_inv (snd (retry_message_delivery i t code now ops))"
    and "operations_inv (snd (fail_message_delivery i code now ops))"
    and "operations_inv (snd (cancel_active_delivery i now ops))"
  by (rule operations_step_inv [OF assms], rule operations_step.intros [where seed = "\<lambda>_ _. 0"])+

lemma map_update_ids: "ob_message_id ` set (map (\<lambda>r. if ob_message_id r = i then f r else r) rows) = ob_message_id ` set rows"
  if "\<And>r. ob_message_id (f r) = ob_message_id r"
proof -
  have "map ob_message_id (map (\<lambda>r. if ob_message_id r = i then f r else r) rows) = map ob_message_id rows"
    by (simp add: that)
  then show ?thesis by (metis set_map)
qed

lemma requeue_ok:
  assumes "requeue_outbound_delivery i t e s = (Ok u, s')"
  shows "i \<in> outbound_ids s \<and> outbound_ids s' = outbound_ids s \<and> messages_t s' = messages_t s \<and>
    operations_t s' = operations_t s \<and> in_flight s' = in_flight s"
proof -
  let ?f = "\<lambda>r. r\<lparr> ob_state := ''QUEUED'', ob_next_attempt_at := t, ob_ack_deadline := None,
    ob_last_error := Some e, ob_claimed_until := None, ob_last_error_code := None \<rparr>"
  have s': "i \<in> outbound_ids s"
    "s' = s\<lparr> outbound_t := map (\<lambda>r. if ob_message_id r = i then ?f r else r) (outbound_t s) \<rparr>"
    using assms by (auto simp: requeue_outbound_delivery_def outbound_ids_def split: if_splits)
  have "outbound_ids s' = outbound_ids s"
    unfolding outbound_ids_def s'(2) using map_update_ids [of ?f i "outbound_t s"] by simp
  then show ?thesis using s'(1) by (simp add: s'(2) in_flight_def message_by_id_def)
qed

lemma outcome_bookkeeping_ok:
  assumes i: "delivery_inv s" and b: "outcome_bookkeeping mid outcome t e now s = (Ok ch, s')"
  shows "messages_t s' = messages_t s \<and> operations_inv (operations_t s') \<and>
    (if outcome \<in> {PeerUnavailable, RetryableFailure}
     then mid \<in> outbound_ids s \<and> outbound_ids s' = outbound_ids s \<and> deliveries (operations_t s') \<subseteq> deliveries (operations_t s)
     else outbound_ids s' = outbound_ids s - {mid} \<and> deliveries (operations_t s') \<subseteq> deliveries (operations_t s) - {mid})"
proof -
  have o: "operations_inv (operations_t s)" using i by (simp add: delivery_inv_def)
  have retry: "operations_inv ops' \<and> deliveries ops' \<subseteq> deliveries (operations_t s)"
    if "retry_message_delivery mid x code now (operations_t s) = (r, ops')" for x code r ops'
    using deliveries_end(1) [OF o that [unfolded retry_message_delivery_def]] end_inv(2) [OF o, of mid x code now] that
    by (simp add: schedule_retry_def)
  have fin: "operations_inv ops' \<and> deliveries ops' \<subseteq> deliveries (operations_t s) - {mid}"
    if "complete_message_delivery mid now (operations_t s) = (r, ops') \<or>
        fail_message_delivery mid code now (operations_t s) = (r, ops')" for code r ops'
    using that deliveries_end [OF o, of "complete_operation now" mid r ops']
      deliveries_end [OF o, of "fail_permanently code now" mid r ops'] end_inv(1) [OF o, of mid now] end_inv(3) [OF o, of mid code now]
    unfolding complete_message_delivery_def fail_message_delivery_def
    by (auto simp: complete_operation_def fail_permanently_def operation_is_terminal_def)
  show ?thesis
  proof (cases "outcome \<in> {PeerUnavailable, RetryableFailure}")
    case True
    with b obtain s1 x y r ops' where "requeue_outbound_delivery mid x y s = (Ok (), s1)"
        "retry_message_delivery mid x CodeTransportUnavailable now (operations_t s1) = (Ok r, ops')"
        "s' = s1\<lparr> operations_t := ops' \<rparr>"
      by (auto simp: outcome_bookkeeping_def Let_def elim!: seq_okE dest!: on_operations_ok)
    with True show ?thesis using requeue_ok [of mid x y s "()" s1] retry by auto
  next
    case False
    show ?thesis
    proof (cases "outcome \<in> {OutcomePermanentFailure, PeerAuthenticationFailed, PeerRejected}")
      case True
      with False b obtain r ops' where
        "fail_message_delivery mid (outcome_error_code outcome) now (operations_t s) = (Ok r, ops')"
        "s' = (complete_outbound_delivery mid s)\<lparr> operations_t := ops' \<rparr>"
        by (auto simp: outcome_bookkeeping_def elim!: seq_okE dest!: on_operations_ok)
      with False show ?thesis using fin by auto
    next
      case other: False
      with False b obtain r ops' where "complete_message_delivery mid now (operations_t s) = (Ok r, ops')"
        "s' = (complete_outbound_delivery mid s)\<lparr> operations_t := ops' \<rparr>"
        by (auto simp: outcome_bookkeeping_def elim!: seq_okE dest!: on_operations_ok)
      with False show ?thesis using fin by auto
    qed
  qed
qed

lemma outcome_state:
  assumes "message_state_after_transport_outcome st outcome = Some st'"
  shows "if outcome \<in> {PeerUnavailable, RetryableFailure} then st' = Queued else st' \<notin> {Queued, Sending}"
  using assms by (cases outcome; cases st) (simp_all add: message_state_after_transport_outcome_def)

lemma outcome_delivery_inv:
  assumes i: "delivery_inv (cl_store c)"
    and f: "feature_apply_message_delivery_outcome lib mid outcome t e now c = (Ok r, c')"
  shows "delivery_inv (cl_store c')"
proof -
  let ?s = "cl_store c"
  from f obtain ch s1 r1 s2 where b: "outcome_bookkeeping mid outcome t e now ?s = (Ok ch, s1)"
    and a: "apply_outcome mid outcome t e s1 = (Ok r1, s2)" and c': "cl_store c' = s2"
    unfolding feature_apply_message_delivery_outcome_def
    by (elim seq_okE) (auto simp: on_store_def parse_message_id_def split: prod.splits if_splits elim!: seq_okE)
  note k = outcome_bookkeeping_ok [OF i b]
  have fl: "in_flight s1 = in_flight ?s" using k by (auto simp: in_flight_def message_by_id_def)
  from a show ?thesis
  proof (cases rule: apply_outcome_ok)
    case (1 m st)
    have id: "m_id m = mid" using 1(1) by (rule messages_table.get_key)
    have fr: "m_id (fr_value r1) = mid" "m_outgoing (fr_value r1)" "m_state (fr_value r1) = st"
      using 1 id by simp_all
    note st = outcome_state [OF 1(3)]
    have "mid \<in> in_flight s1 \<longleftrightarrow> m_state m \<in> {Queued, Sending}"
      using 1(1,2) by (simp add: in_flight_def)
    then have "in_flight s2 = (if outcome \<in> {PeerUnavailable, RetryableFailure} then insert mid (in_flight ?s) else in_flight ?s - {mid})"
      using 1(5) st fr fl by (auto simp: in_flight_put split: if_splits)
    moreover have "distinct (map row_message_id (messages_t s2))" "operations_t s2 = operations_t s1"
        "outbound_ids s2 = outbound_ids s1"
      using 1(5) k i by (auto simp: delivery_inv_def)
    ultimately show ?thesis using k i unfolding c' delivery_inv_def by (auto split: if_splits)
  qed
qed

lemma delete_delivery_inv:
  assumes i: "delivery_inv (cl_store c)"
    and f: "feature_delete_message_delivery lib mid now c = (Ok r, c')"
  shows "delivery_inv (cl_store c')"
proof -
  let ?s = "cl_store c"
  have o: "operations_inv (operations_t ?s)" using i by (simp add: delivery_inv_def)
  from f obtain r1 s1 r2 ops' where d: "delete_with_context lib mid ?s = (Ok r1, s1)"
    and q: "cancel_active_delivery mid now (operations_t s1) = (r2, ops')"
    and c': "cl_store c' = complete_outbound_delivery mid (s1\<lparr> operations_t := ops' \<rparr>)"
    unfolding feature_delete_message_delivery_def
    by (elim seq_okE) (auto simp: on_store_def on_operations_def split: prod.splits)
  have s1: "s1 = delete_message mid ?s" using d by (rule delete_with_context_ok)
  have ops': "operations_inv ops'" using end_inv(4) [OF o, of mid now] q s1 by simp
  obtain r3 where "end_message_delivery (\<lambda>op. op\<lparr> op_state := OpCancelled, op_updated_at := now, op_retry_at := None,
       op_error_code := None \<rparr>) mid (operations_t ?s) = (r3, ops')"
    using cancel_is_end [of mid now "operations_t ?s"] q s1 by (metis operations_fields(3) prod.collapse snd_conv)
  from deliveries_end [OF o this] have "deliveries ops' \<subseteq> deliveries (operations_t ?s) - {mid}"
    by (auto simp: operation_is_terminal_def)
  then show ?thesis using i ops' unfolding c' s1 by (auto simp: delivery_inv_def)
qed

lemma pending_in_flight:
  assumes "delivery_inv s" and "m \<in> set (pending_messages s)" and "m_outgoing m"
  shows "message_by_id (m_id m) s = Some m" and "m_state m \<in> {Queued, Sending}" and "m_id m \<in> in_flight s"
proof -
  have p: "m \<in> mr_message ` set (messages_t s)" "m_state m \<in> {Queued, Sending}"
    using assms(2) by (auto simp: pending_messages_def)
  then show "message_by_id (m_id m) s = Some m" using message_row_in [of s] assms(1) by (simp add: delivery_inv_def)
  with p(2) assms(3) show "m_state m \<in> {Queued, Sending}" "m_id m \<in> in_flight s" by (auto simp: in_flight_def)
qed

lemma prepare_all_ok:
  assumes "delivery_inv s" and "\<And>m. m \<in> set ms \<Longrightarrow> m_outgoing m \<and> m_id m \<in> in_flight s"
    and "prepare_all lib ms s = (Ok rs, s')"
  shows "delivery_inv s' \<and> in_flight s' = in_flight s \<and> (\<forall>j. j \<notin> m_id ` set ms \<longrightarrow> message_by_id j s' = message_by_id j s) \<and>
    (\<forall>r \<in> set rs. mse_message_id (mrr_effect (fr_value r)) \<in> in_flight s)"
  using assms
proof (induction ms arbitrary: s rs)
  case (Cons m ms)
  from Cons.prems(3) obtain r s1 rs' where p: "prepare_existing lib m False s = (Ok r, s1)"
    and rest: "prepare_all lib ms s1 = (Ok rs', s')" and rs: "rs = r # rs'"
    by (auto elim!: seq_okE)
  have m: "m_outgoing m" "m_id m \<in> in_flight s" using Cons.prems(2) [of m] by simp_all
  have s1: "delivery_inv s1 \<and> in_flight s1 = in_flight s \<and> (\<forall>j. j \<noteq> m_id m \<longrightarrow> message_by_id j s1 = message_by_id j s) \<and>
      mse_message_id (mrr_effect (fr_value r)) = m_id m"
    using p
  proof (cases rule: prepare_existing_ok)
    case (1 cv ct u)
    have "in_flight (put_message (m\<lparr> m_state := Sending \<rparr>) s) = in_flight s"
      using m by (auto simp: in_flight_put)
    then show ?thesis
      using 1(8,9) Cons.prems(1) by (auto simp: delivery_inv_def message_effect_def table_simps)
  qed
  then have "delivery_inv s' \<and> in_flight s' = in_flight s1 \<and>
      (\<forall>j. j \<notin> m_id ` set ms \<longrightarrow> message_by_id j s' = message_by_id j s1) \<and>
      (\<forall>r \<in> set rs'. mse_message_id (mrr_effect (fr_value r)) \<in> in_flight s1)"
    using Cons.prems(2) by (intro Cons.IH rest) auto
  then show ?case using s1 m rs by auto
qed simp

lemma deliver_prepared_ok:
  assumes "delivery_inv (cl_store c)" and "mse_message_id (mrr_effect (fr_value p)) \<in> in_flight (cl_store c)"
    and "deliver_prepared lib now p c = (Ok r, c')"
  shows "delivery_inv (cl_store c') \<and> in_flight (cl_store c') = in_flight (cl_store c) \<and>
    messages_t (cl_store c') = messages_t (cl_store c)"
proof -
  from assms(3) obtain op s1 where
    b: "on_operations (begin_message_delivery (''message-delivery:'' @ mse_message_id (mrr_effect (fr_value p)))
         (mse_message_id (mrr_effect (fr_value p))) (''message_delivery:'' @ mse_message_id (mrr_effect (fr_value p))) now)
         (cl_store c) = (Ok op, s1)"
    and c': "cl_store c' = enqueue_outbound_delivery (mse_message_id (mrr_effect (fr_value p)))
      (mse_recipient_installation_id (mrr_effect (fr_value p)))
      (sint (delivery_sequence (mrr_message_id (fr_value p)))) (tdiv now 1000) s1"
    unfolding deliver_prepared_def Let_def
    by (elim seq_okE) (auto simp: publish_simp on_store_def split: prod.splits)
  obtain ops' where s1: "s1 = (cl_store c)\<lparr> operations_t := ops' \<rparr>" using on_operations_ok [OF b] by blast
  have "delivery_inv (cl_store c')"
    unfolding c' by (rule begin_enqueue_inv [OF _ _ _ _ b]) (use assms(1,2) in \<open>auto simp: delivery_inv_def\<close>)
  then show ?thesis unfolding c' s1 by simp
qed

lemma deliver_all_ok:
  assumes "delivery_inv (cl_store c)" and "\<forall>p \<in> set ps. mse_message_id (mrr_effect (fr_value p)) \<in> in_flight (cl_store c)"
    and "deliver_all lib now ps c = (Ok r, c')"
  shows "delivery_inv (cl_store c') \<and> messages_t (cl_store c') = messages_t (cl_store c)"
  using assms
proof (induction ps arbitrary: c r)
  case (Cons p ps)
  from Cons.prems(3) obtain e c1 es where d: "deliver_prepared lib now p c = (Ok e, c1)"
    and rest: "deliver_all lib now ps c1 = (Ok es, c')" by (auto elim!: seq_okE)
  note c1 = deliver_prepared_ok [OF Cons.prems(1) _ d]
  then have "delivery_inv (cl_store c') \<and> messages_t (cl_store c') = messages_t (cl_store c1)"
    using Cons.prems(2) by (intro Cons.IH [OF _ _ rest]) auto
  then show ?case using c1 Cons.prems(2) by simp
qed simp

lemma prepare_pending_delivery_ok:
  assumes i: "delivery_inv (cl_store c)"
    and f: "feature_prepare_pending_message_deliveries lib now c = (Ok es, c')"
  shows "delivery_inv (cl_store c')"
    and "j \<notin> in_flight (cl_store c) \<Longrightarrow> message_by_id j (cl_store c') = message_by_id j (cl_store c)"
proof -
  let ?s = "cl_store c"
  let ?ms = "filter (\<lambda>m. m_outgoing m \<and> m_state m \<in> {Queued, Sending}) (pending_messages ?s)"
  from f obtain ps c1 where o: "on_store (prepare_pending lib) c = (Ok ps, c1)"
    and d1: "deliver_all lib now ps c1 = (Ok es, c')"
    unfolding feature_prepare_pending_message_deliveries_def by (rule seq_okE)
  from on_store_ok [OF o] obtain s1 where "prepare_pending lib ?s = (Ok ps, s1)" and c1: "c1 = c\<lparr> cl_store := s1 \<rparr>"
    by blast
  then have p: "prepare_all lib ?ms ?s = (Ok ps, s1)" by (simp add: prepare_pending_def)
  note d = d1 [unfolded c1]
  have fl: "m_outgoing m \<and> m_id m \<in> in_flight ?s" if "m \<in> set ?ms" for m
    using that pending_in_flight(3) [OF i, of m] by simp
  from prepare_all_ok [OF i fl p]
  have s1: "delivery_inv s1" "in_flight s1 = in_flight ?s"
    and keep: "\<And>j. j \<notin> m_id ` set ?ms \<Longrightarrow> message_by_id j s1 = message_by_id j ?s"
    and ids: "\<forall>r \<in> set ps. mse_message_id (mrr_effect (fr_value r)) \<in> in_flight ?s"
    by (iprover)+
  have c': "delivery_inv (cl_store c') \<and> messages_t (cl_store c') = messages_t (cl_store (c\<lparr> cl_store := s1 \<rparr>))"
    by (rule deliver_all_ok [OF _ _ d]) (use s1 ids in simp_all)
  then show "delivery_inv (cl_store c')" by (rule conjunct1)
  assume "j \<notin> in_flight ?s"
  then have "j \<notin> m_id ` set ?ms"
  proof (rule contrapos_nn)
    assume "j \<in> m_id ` set ?ms"
    then obtain m where "j = m_id m" "m \<in> set ?ms" by (rule imageE)
    then show "j \<in> in_flight ?s" using fl [of m] by (simp only:)
  qed
  then have "message_by_id j s1 = message_by_id j ?s" by (rule keep)
  moreover have "message_by_id j (cl_store c') = message_by_id j s1"
    by (rule message_by_id_cong) (use c' in simp)
  ultimately show "message_by_id j (cl_store c') = message_by_id j ?s" by simp
qed

section \<open>The delivery system\<close>

text \<open>A step is a successful call of the facade (a failed one is rolled back), the arrival of a new
  incoming message, or any change of other tables, of the clock or of the session.\<close>

inductive delivery_step :: "uuid_lib \<Rightarrow> client \<Rightarrow> client \<Rightarrow> bool" for lib where
  queue_step: "feature_queue_message_delivery lib nid oid d cid text reply now c = (Ok r, c') \<Longrightarrow>
    message_by_id (uuid_text lib nid) (cl_store c) = None \<Longrightarrow> delivery_step lib c c'"
| retry_step: "feature_retry_message lib oid d mid now c = (Ok r, c') \<Longrightarrow> delivery_step lib c c'"
| flush_step: "feature_prepare_pending_message_deliveries lib now c = (Ok es, c') \<Longrightarrow> delivery_step lib c c'"
| outcome_step: "feature_apply_message_delivery_outcome lib mid outcome t e now c = (Ok r2, c') \<Longrightarrow> delivery_step lib c c'"
| delete_step: "feature_delete_message_delivery lib mid now c = (Ok r3, c') \<Longrightarrow> delivery_step lib c c'"
| incoming_step: "\<not> m_outgoing m \<Longrightarrow> message_by_id (m_id m) (cl_store c) = None \<Longrightarrow>
    delivery_step lib c (c\<lparr> cl_store := put_message m (cl_store c) \<rparr>)"
| other_step: "messages_t (cl_store c') = messages_t (cl_store c) \<Longrightarrow> outbound_t (cl_store c') = outbound_t (cl_store c) \<Longrightarrow>
    operations_t (cl_store c') = operations_t (cl_store c) \<Longrightarrow> delivery_step lib c c'"

inductive_cases delivery_stepE: "delivery_step lib c c'"

definition no_messages :: "client \<Rightarrow> bool" where
  "no_messages c \<longleftrightarrow> messages_t (cl_store c) = [] \<and> outbound_t (cl_store c) = [] \<and> operations_t (cl_store c) = []"

lemma delivery_step_inv: "delivery_step lib c c' \<Longrightarrow> delivery_inv (cl_store c) \<Longrightarrow> delivery_inv (cl_store c')"
proof (induction rule: delivery_step.induct)
  case (incoming_step m c)
  then have "m_id m \<notin> in_flight (cl_store c)" by (simp add: in_flight_def)
  with incoming_step show ?case by (auto simp: delivery_inv_def in_flight_put)
next
  case (other_step c' c)
  then show ?case by (simp add: delivery_inv_def outbound_ids_def in_flight_def message_by_id_def)
qed (auto intro: queue_delivery_inv retry_delivery_inv prepare_pending_delivery_ok outcome_delivery_inv delete_delivery_inv)

interpretation delivery_system: invariant_system no_messages "delivery_step lib" "\<lambda>c. delivery_inv (cl_store c)"
  by unfold_locales
    (simp add: no_messages_def delivery_inv_def operations_inv_def outbound_ids_def in_flight_def message_by_id_def
       lookup_def deliveries_def, rule delivery_step_inv)

section \<open>Other messages are left alone\<close>

lemma queue_other_messages:
  assumes "feature_queue_message_delivery lib nid oid d cid text reply now c = (Ok r, c')" and "j \<noteq> uuid_text lib nid"
  shows "message_by_id j (cl_store c') = message_by_id j (cl_store c)"
proof -
  from assms(1) obtain q s1 s2 op i a n t where q: "queue_message lib nid cid text reply now (cl_store c) = (Ok q, s1)"
    and b: "on_operations (begin_message_delivery oid i d now) s1 = (Ok op, s2)"
    and c': "cl_store c' = enqueue_outbound_delivery i a n t s2"
    unfolding feature_queue_message_delivery_def Let_def
    by (elim seq_okE) (auto simp: publish_simp on_store_def split: prod.splits)
  have m: "messages_t (cl_store c') = messages_t s1" using on_operations_ok [OF b] c' by auto
  from q show ?thesis
  proof (cases rule: queue_message_ok)
    case (1 rep cv ct m)
    then have "message_by_id j s1 = message_by_id j (cl_store c)"
      using assms(2) by (simp add: table_simps queued_message_def message_by_id_cong [of "put_conversation cc ss" ss for cc ss])
    then show ?thesis using message_by_id_cong [OF m] by simp
  qed
qed

lemma retry_other_messages:
  assumes "feature_retry_message lib oid d mid now c = (Ok r, c')"
  obtains m where "message_by_id mid (cl_store c) = Some m" "m_state m \<in> {Failed, Queued}"
    "\<And>j. j \<noteq> mid \<Longrightarrow> message_by_id j (cl_store c') = message_by_id j (cl_store c)"
proof -
  from assms obtain q s1 s2 op i a n t where q: "retry_message lib mid now (cl_store c) = (Ok q, s1)"
    and b: "on_operations (begin_message_delivery oid i d now) s1 = (Ok op, s2)"
    and c': "cl_store c' = enqueue_outbound_delivery i a n t s2"
    unfolding feature_retry_message_def Let_def
    by (elim seq_okE) (auto simp: publish_simp on_store_def split: prod.splits)
  have m: "messages_t (cl_store c') = messages_t s1" using on_operations_ok [OF b] c' by auto
  from q show ?thesis
  proof (cases rule: retry_message_ok)
    case (1 m q u ct)
    have "m_id m = mid" using 1(1) by (rule messages_table.get_key)
    then have "message_by_id j s1 = message_by_id j (cl_store c)" if "j \<noteq> mid" for j
      using that 1(4,5) by (simp add: table_simps)
    then show ?thesis using that [OF 1(1,3)] message_by_id_cong [OF m] by simp
  qed
qed

lemma outcome_messages:
  assumes "delivery_inv (cl_store c)"
    and "feature_apply_message_delivery_outcome lib mid outcome t e now c = (Ok r, c')"
  obtains m st m' where "message_by_id mid (cl_store c) = Some m" "m_outgoing m"
    "message_state_after_transport_outcome (m_state m) outcome = Some st"
    "outcome \<in> {PeerUnavailable, RetryableFailure} \<Longrightarrow> mid \<in> in_flight (cl_store c)"
    "message_by_id mid (cl_store c') = Some m'" "m_state m' = st" "m_body m' = m_body m" "m_outgoing m'"
    "\<And>j. j \<noteq> mid \<Longrightarrow> message_by_id j (cl_store c') = message_by_id j (cl_store c)"
proof -
  let ?s = "cl_store c"
  from assms(2) obtain ch s1 r1 s2 where b: "outcome_bookkeeping mid outcome t e now ?s = (Ok ch, s1)"
    and a: "apply_outcome mid outcome t e s1 = (Ok r1, s2)" and c': "cl_store c' = s2"
    unfolding feature_apply_message_delivery_outcome_def
    by (elim seq_okE) (auto simp: on_store_def parse_message_id_def split: prod.splits if_splits elim!: seq_okE)
  note k = outcome_bookkeeping_ok [OF assms(1) b]
  have s1: "message_by_id j s1 = message_by_id j ?s" for j using k by (intro message_by_id_cong) simp
  have fl: "outcome \<in> {PeerUnavailable, RetryableFailure} \<Longrightarrow> mid \<in> in_flight ?s"
    using k assms(1) by (auto simp: delivery_inv_def split: if_splits)
  from a show ?thesis
  proof (cases rule: apply_outcome_ok)
    case (1 m st)
    have id: "m_id m = mid" using 1(1) by (rule messages_table.get_key)
    let ?m = "fr_value r1"
    have m': "m_id ?m = mid" "m_state ?m = st" "m_body ?m = m_body m" "m_outgoing ?m" using 1 id by simp_all
    have "message_by_id mid s2 = Some ?m" using 1(1,4,5) m'(1) by (auto simp: table_simps)
    moreover have "message_by_id j s2 = message_by_id j ?s" if "j \<noteq> mid" for j
      using that 1(5) m'(1) s1 by (simp add: table_simps)
    ultimately show ?thesis using that [of m st ?m] 1(1-3) s1 fl m' c' by simp
  qed
qed

lemma delete_messages:
  assumes "feature_delete_message_delivery lib mid now c = (Ok r, c')"
  shows "message_by_id j (cl_store c') = (if j = mid then None else message_by_id j (cl_store c))"
proof -
  from assms obtain r1 s1 r2 ops' where d: "delete_with_context lib mid (cl_store c) = (Ok r1, s1)"
    and c': "cl_store c' = complete_outbound_delivery mid (s1\<lparr> operations_t := ops' \<rparr>)"
    unfolding feature_delete_message_delivery_def
    by (elim seq_okE) (auto simp: on_store_def on_operations_def split: prod.splits)
  have s1: "s1 = delete_message mid (cl_store c)" using d by (rule delete_with_context_ok)
  have "message_by_id j (cl_store c') = message_by_id j s1"
    by (rule message_by_id_cong) (simp add: c')
  then show ?thesis by (simp add: s1 table_simps)
qed

section \<open>Properties\<close>



lemma seq_on_store:
  "seq (on_store act) k c =
     (case act (cl_store c) of (Inl e, s) \<Rightarrow> (Inl e, c\<lparr> cl_store := s \<rparr>) | (Inr x, s) \<Rightarrow> k x (c\<lparr> cl_store := s \<rparr>))"
  by (simp add: seq_def on_store_def split: prod.splits sum.splits)

definition sendable :: "client_store \<Rightarrow> string \<Rightarrow> conversation_summary \<Rightarrow> contact_record \<Rightarrow> bool" where
  "sendable s cid cv ct \<longleftrightarrow> conversation_by_id cid s = Some cv \<and> can_send (cv_status cv) \<and>
     contact_by_installation_id (cv_contact_installation_id cv) s = Some ct \<and>
     ct_verification ct = Verified \<and> \<not> ct_blocked ct"

lemma queue_message_run:
  fixes lib :: uuid_lib and nid :: "128 word" and now :: int
  assumes "sendable s cid cv ct" and "trim text \<noteq> []"
  defines "m \<equiv> queued_message lib nid cid (trim text) None now"
  shows "queue_message lib nid cid text None now s =
    (Ok (changed \<lparr> mqr_effect = message_effect (m\<lparr> m_state := Sending \<rparr>) (ct_installation_id ct),
        mqr_message_id = nid, mqr_created_at = now, mqr_transitions = [Queued, Sending] \<rparr>
        (message_change (m\<lparr> m_state := Sending \<rparr>))),
     put_message (m\<lparr> m_state := Sending \<rparr>) (put_conversation (runtime_conversation_summary_on_outgoing
        (Some (cv_unread_count cv)) (cv_id cv) (ct_installation_id ct) (trim text) now) (put_message m s)))"
  using assms(1,2)
  by (simp add: sendable_def queue_message_def normalize_message_text_def reply_snapshot_def required_conversation_def
      delivery_contact_def prepared_state_def seq_assoc Let_def m_def queued_message_def)

lemma begin_fresh_run:
  fixes now :: int
  assumes "trim oid \<noteq> []" and "trim d \<noteq> []" and "operation_by_id oid ops = None"
    and "active_message_delivery mid ops = None"
  defines "op \<equiv> begin_attempt now (with_command_descriptor d (pending_operation oid OpMessageDelivery mid now))"
  shows "begin_message_delivery oid mid d now ops = (Ok (changed op (operation_changes oid)), put_operation op ops)"
  using assms(1-4)
  by (simp add: begin_message_delivery_def parse_id_def ensure_message_entity_def op_def begin_attempt_def
      with_command_descriptor_def pending_operation_def)

definition queued_store ::
  "uuid_lib \<Rightarrow> 128 word \<Rightarrow> string \<Rightarrow> string \<Rightarrow> string \<Rightarrow> string \<Rightarrow> int \<Rightarrow> conversation_summary \<Rightarrow> contact_record \<Rightarrow>
     client_store \<Rightarrow> client_store" where
  "queued_store lib nid oid d cid text now cv ct s =
     (let m = queued_message lib nid cid (trim text) None now;
          s1 = put_message (m\<lparr> m_state := Sending \<rparr>) (put_conversation (runtime_conversation_summary_on_outgoing
                 (Some (cv_unread_count cv)) (cv_id cv) (ct_installation_id ct) (trim text) now) (put_message m s))
      in enqueue_outbound_delivery (uuid_text lib nid) (ct_installation_id ct) (sint (delivery_sequence nid))
           (tdiv now 1000)
           (s1\<lparr> operations_t := put_operation (begin_attempt now (with_command_descriptor d
                  (pending_operation oid OpMessageDelivery (uuid_text lib nid) now))) (operations_t s) \<rparr>))"

lemma queue_delivery_run:
  assumes "sendable (cl_store c) cid cv ct" and "trim text \<noteq> []"
    and "trim oid \<noteq> []" and "trim d \<noteq> []" and "operation_by_id oid (operations_t (cl_store c)) = None"
    and "active_message_delivery (uuid_text lib nid) (operations_t (cl_store c)) = None"
  shows "\<exists>r. feature_queue_message_delivery lib nid oid d cid text None now c =
      (Ok r, c\<lparr> cl_store := queued_store lib nid oid d cid text now cv ct (cl_store c),
         cl_session := push_event (Changed (Some ''conversations''))
           (push_event (MessageStateChanged (Some (uuid_text lib nid)) (Some cid) (Some Sending))
           (push_event (MessageStateChanged (Some (uuid_text lib nid)) (Some cid) (Some Queued)) (cl_session c))) \<rparr>) \<and>
    fr_value r = message_effect ((queued_message lib nid cid (trim text) None now)\<lparr> m_state := Sending \<rparr>) (ct_installation_id ct)"
proof -
  let ?m = "queued_message lib nid cid (trim text) None now"
  have i: "m_id ?m = uuid_text lib nid" "m_conversation_id ?m = cid" by (simp_all add: queued_message_def)
  note q = queue_message_run [OF assms(1,2), of lib nid now]
  note b = begin_fresh_run [OF assms(3-6), of now]
  show ?thesis
    unfolding feature_queue_message_delivery_def Let_def
    by (simp add: seq_on_store q changed_def message_effect_def i on_operations_def b seq_publish queued_store_def Let_def)
qed

text \<open>C25: Sending works: for a conversation that can send, with a verified contact that is not blocked,
  a text that is not blank and a fresh operation id, the call succeeds. It stores the trimmed text as
  a message that is being sent, starts exactly one running operation for it, queues one outbound row
  for the contact, updates the preview without touching the unread counter, and announces the states
  queued and sending in this order.\<close>

theorem queue_message_delivers:
  assumes "reachable no_messages (delivery_step lib) c" and "sendable (cl_store c) cid cv ct"
    and "trim text \<noteq> []" and "trim oid \<noteq> []" and "trim d \<noteq> []"
    and "operation_by_id oid (operations_t (cl_store c)) = None"
    and "message_by_id (uuid_text lib nid) (cl_store c) = None" and "transaction_depth (cl_session c) = 0"
  shows "\<exists>r c' m op. feature_queue_message_delivery lib nid oid d cid text None now c = (Ok r, c') \<and>
    message_by_id (uuid_text lib nid) (cl_store c') = Some m \<and> m_body m = trim text \<and> m_state m = Sending \<and>
    fr_value r = message_effect m (ct_installation_id ct) \<and>
    active_message_delivery (uuid_text lib nid) (operations_t (cl_store c')) = Some op \<and>
    op_id op = oid \<and> op_state op = OpRunning \<and> op_attempt_count op = 1 \<and>
    map ob_contact_installation_id (filter (\<lambda>b. ob_message_id b = uuid_text lib nid) (outbound_t (cl_store c'))) =
      [ct_installation_id ct] \<and>
    (\<exists>cv'. conversation_by_id cid (cl_store c') = Some cv' \<and> cv_last_message_preview cv' = trim text \<and>
       cv_unread_count cv' = cv_unread_count cv) \<and>
    events (cl_session c') = events (cl_session c) @
      [MessageStateChanged (Some (uuid_text lib nid)) (Some cid) (Some Queued),
       MessageStateChanged (Some (uuid_text lib nid)) (Some cid) (Some Sending), Changed (Some ''conversations'')]"
proof -
  let ?s = "cl_store c" and ?i = "uuid_text lib nid"
  let ?m = "(queued_message lib nid cid (trim text) None now)\<lparr> m_state := Sending \<rparr>"
  let ?op = "begin_attempt now (with_command_descriptor d (pending_operation oid OpMessageDelivery ?i now))"
  let ?s' = "queued_store lib nid oid d cid text now cv ct ?s"
  have inv: "delivery_inv ?s" using assms(1) by (rule delivery_system.reachable_inv)
  have nf: "?i \<notin> in_flight ?s" using assms(7) by (simp add: in_flight_def)
  then have "?i \<notin> deliveries (operations_t ?s)" using inv by (auto simp: delivery_inv_def)
  then have na: "active_message_delivery ?i (operations_t ?s) = None"
    using inv active_iff [of "operations_t ?s" ?i]
    by (cases "active_message_delivery ?i (operations_t ?s)") (auto simp: delivery_inv_def deliveries_iff)
  from queue_delivery_run [OF assms(2-6) na, of now] obtain r where
    q: "feature_queue_message_delivery lib nid oid d cid text None now c =
      (Ok r, c\<lparr> cl_store := ?s', cl_session := push_event (Changed (Some ''conversations''))
           (push_event (MessageStateChanged (Some ?i) (Some cid) (Some Sending))
           (push_event (MessageStateChanged (Some ?i) (Some cid) (Some Queued)) (cl_session c))) \<rparr>)"
    and e: "fr_value r = message_effect ?m (ct_installation_id ct)"
    by (elim exE conjE)
  define c' where "c' = c\<lparr> cl_store := ?s', cl_session := push_event (Changed (Some ''conversations''))
           (push_event (MessageStateChanged (Some ?i) (Some cid) (Some Sending))
           (push_event (MessageStateChanged (Some ?i) (Some cid) (Some Queued)) (cl_session c))) \<rparr>"
  have r: "feature_queue_message_delivery lib nid oid d cid text None now c = (Ok r, c')" "cl_store c' = ?s'"
      "fr_value r = message_effect ?m (ct_installation_id ct)"
      "cl_session c' = push_event (Changed (Some ''conversations''))
           (push_event (MessageStateChanged (Some ?i) (Some cid) (Some Sending))
           (push_event (MessageStateChanged (Some ?i) (Some cid) (Some Queued)) (cl_session c)))"
    using q e by (simp_all add: c'_def)
  have id: "m_id ?m = ?i" "cv_id cv = cid" using assms(2)
    by (auto simp: queued_message_def sendable_def dest: conversations_table.get_key)
  have no: "?i \<notin> ob_message_id ` set (outbound_t ?s)" using inv nf by (auto simp: delivery_inv_def outbound_ids_def)
  then have out: "filter (\<lambda>b. ob_message_id b = ?i) (outbound_t ?s) = []"
    unfolding filter_empty_conv by (metis image_eqI)
  have "delivery_inv ?s'" using queue_delivery_inv [OF inv r(1)] r(2) by simp
  then have "operations_inv (operations_t ?s')" by (simp add: delivery_inv_def)
  moreover have ops': "operations_t ?s' = put_operation ?op (operations_t ?s)"
    by (simp add: queued_store_def Let_def)
  ultimately have a: "active_message_delivery ?i (operations_t ?s') = Some ?op"
    by (auto simp: active_iff is_delivery_def begin_attempt_def with_command_descriptor_def pending_operation_def
        operation_is_terminal_def put_operation_def upsert_def)
  have m': "message_by_id ?i ?s' = Some ?m"
    by (simp add: queued_store_def Let_def message_by_id_cong [of "enqueue_outbound_delivery i a q t ss" ss for i a q t ss]
        message_by_id_cong [of "ss\<lparr> operations_t := oo \<rparr>" ss for ss oo] table_simps queued_message_def)
  have o': "map ob_contact_installation_id (filter (\<lambda>b. ob_message_id b = ?i) (outbound_t ?s')) = [ct_installation_id ct]"
    using no out by (simp add: queued_store_def Let_def enqueue_outbound_delivery_def)
  have cv': "\<exists>cv'. conversation_by_id cid ?s' = Some cv' \<and> cv_last_message_preview cv' = trim text \<and>
       cv_unread_count cv' = cv_unread_count cv"
    by (simp add: queued_store_def Let_def conversation_by_id_def enqueue_outbound_delivery_def put_conversation_def
        table_simps runtime_conversation_summary_on_outgoing_def id)
  show ?thesis
    using r a m' o' cv' assms(8)
    by (intro exI [of _ r] exI [of _ c'] exI [of _ ?m] exI [of _ ?op])
      (simp add: queued_message_def push_event_def begin_attempt_def with_command_descriptor_def pending_operation_def
        u32_saturating_add_def u32_max_def)
qed

section \<open>A blocked contact\<close>

lemma prepare_existing_blocked:
  assumes "conversation_by_id (m_conversation_id m) s = Some cv"
    and "contact_by_installation_id (cv_contact_installation_id cv) s = Some ct" and "ct_blocked ct"
  shows "\<exists>e s'. prepare_existing lib m manual s = (Err e, s')"
  using assms
  by (cases "uuid_parse lib (m_id m)")
    (auto simp: prepare_existing_def parse_message_id_def required_conversation_def delivery_contact_def seq_assoc)

lemma put_message_lookups [simp]:
  "conversation_by_id i (put_message m s) = conversation_by_id i s"
  "contact_by_installation_id j (put_message m s) = contact_by_installation_id j s"
proof -
  have "decode_contact (put_message m s) r = decode_contact s r" for r
    by (simp add: decode_contact_def Let_def split: option.splits)
  then have "decode_contact (put_message m s) = decode_contact s" by (rule ext)
  then show "contact_by_installation_id j (put_message m s) = contact_by_installation_id j s"
    by (simp add: contact_by_installation_id_def)
qed (simp add: conversation_by_id_def)

lemma prepare_all_blocked:
  assumes "m \<in> set ms" and "conversation_by_id (m_conversation_id m) s = Some cv"
    and "contact_by_installation_id (cv_contact_installation_id cv) s = Some ct" and "ct_blocked ct"
  shows "\<exists>e s'. prepare_all lib ms s = (Err e, s')"
  using assms
proof (induction ms arbitrary: s)
  case (Cons a ms)
  show ?case
  proof (cases "prepare_existing lib a False s")
    case (Pair r s1)
    show ?thesis
    proof (cases r)
      case (Inl e)
      then show ?thesis using Pair by (simp add: seq_def)
    next
      case (Inr x)
      then have p: "prepare_existing lib a False s = (Ok x, s1)" using Pair by simp
      then have "a \<noteq> m" using prepare_existing_blocked [OF Cons.prems(2-4), of lib False] by auto
      moreover from p have "s1 = s \<or> (\<exists>m'. s1 = put_message m' s)"
        by (elim prepare_existing_ok) (auto split: if_splits)
      ultimately have "\<exists>e s'. prepare_all lib ms s1 = (Err e, s')"
        using Cons.prems by (intro Cons.IH) auto
      then show ?thesis by (auto simp: seq_def p)
    qed
  qed
qed simp

text \<open>C33: One blocked contact stops all deliveries: if any message that is due goes to a blocked
  contact, preparing the pending deliveries fails as a whole, so no other message is sent either.\<close>

theorem blocked_contact_stops_flush:
  assumes "m \<in> set (pending_messages (cl_store c))" and "m_outgoing m"
    and "conversation_by_id (m_conversation_id m) (cl_store c) = Some cv"
    and "contact_by_installation_id (cv_contact_installation_id cv) (cl_store c) = Some ct" and "ct_blocked ct"
  shows "\<exists>e c'. feature_prepare_pending_message_deliveries lib now c = (Err e, c')"
proof -
  let ?ms = "filter (\<lambda>m. m_outgoing m \<and> m_state m \<in> {Queued, Sending}) (pending_messages (cl_store c))"
  have "m \<in> set ?ms" using assms(1,2) by (auto simp: pending_messages_def)
  from prepare_all_blocked [OF this assms(3-5)] obtain e s' where "prepare_all lib ?ms (cl_store c) = (Err e, s')"
    by blast
  then show ?thesis
    by (simp add: feature_prepare_pending_message_deliveries_def prepare_pending_def seq_on_store)
qed

section \<open>Samples\<close>

definition sample_uuid_lib :: uuid_lib where
  "sample_uuid_lib = \<lparr> uuid_parse = (\<lambda>t. if t = ''m1'' then Some 1 else if t = ''m2'' then Some 2 else None),
     uuid_text = (\<lambda>u. if u = 1 then ''m1'' else ''m2'') \<rparr>"

definition sample_conversation :: "string \<Rightarrow> string \<Rightarrow> conversation_summary" where
  "sample_conversation cid contact = \<lparr> cv_id = cid, cv_contact_installation_id = contact, cv_status = ConvActive,
     cv_last_message_preview = [], cv_last_message_at = 0, cv_unread_count = 0 \<rparr>"

definition sample_contact_row :: "string \<Rightarrow> bool \<Rightarrow> contact_row" where
  "sample_contact_row i blocked = \<lparr> co_installation_id = i, co_nickname = ''nick'', co_public_key = ''pk'',
     co_fingerprint = ''fp'', co_verification = Verified, co_local_alias = None, co_muted = False,
     co_blocked = blocked, co_transport_policy = PeerOnly, co_last_seen_at = None \<rparr>"

definition sample_client :: client where
  "sample_client = \<lparr> cl_store = \<lparr> messages_t = [],
       conversations_t = [sample_conversation ''c1'' ''ann'', sample_conversation ''c2'' ''bob''],
       contacts_t = [sample_contact_row ''ann'' False, sample_contact_row ''bob'' True],
       endpoints_t = [], capability_outbox_t = [], outbound_t = [], operations_t = [], unixepoch = 100 \<rparr>,
     cl_session = session_new \<rparr>"

definition sample_ann :: contact_record where
  "sample_ann = decode_contact (cl_store sample_client) (sample_contact_row ''ann'' False)"

lemmas sample_delivery_defs = sample_client_def sample_conversation_def sample_contact_row_def

lemma sample_sendable: "sendable (cl_store sample_client) ''c1'' (sample_conversation ''c1'' ''ann'') sample_ann"
  by (simp add: sendable_def sample_delivery_defs conversation_by_id_def contact_by_installation_id_def table_simps
      can_send_def sample_ann_def decode_contact_def Let_def)

lemma sample_reachable: "reachable no_messages (delivery_step lib) sample_client"
  by (rule reach_init) (simp add: no_messages_def sample_client_def)

lemma trim_samples: "trim ''hi'' = ''hi''" "trim ''op'' = ''op''" "trim ''send'' = ''send''"
  by code_simp+

definition sent_client :: client where
  "sent_client = snd (feature_queue_message_delivery sample_uuid_lib 1 ''op'' ''send'' ''c1'' ''hi'' None 5000 sample_client)"

lemma sample_fresh:
  "operation_by_id ''op'' (operations_t (cl_store sample_client)) = None"
  "active_message_delivery (uuid_text sample_uuid_lib 1) (operations_t (cl_store sample_client)) = None"
  "message_by_id (uuid_text sample_uuid_lib 1) (cl_store sample_client) = None"
  by (simp_all add: sample_client_def operation_by_id_def table_simps active_message_delivery_def pending_operations_def
      message_by_id_def)

lemma sample_run:
  "\<exists>r. feature_queue_message_delivery sample_uuid_lib 1 ''op'' ''send'' ''c1'' ''hi'' None 5000 sample_client = (Ok r, sent_client)"
  using queue_delivery_run [OF sample_sendable _ _ _ sample_fresh(1,2), of "''hi''" "''send''" 5000]
  unfolding sent_client_def by (auto simp: trim_samples)

lemma sent_reachable: "reachable no_messages (delivery_step sample_uuid_lib) sent_client"
proof -
  obtain r where "feature_queue_message_delivery sample_uuid_lib 1 ''op'' ''send'' ''c1'' ''hi'' None 5000 sample_client = (Ok r, sent_client)"
    using sample_run by blast
  then have "delivery_step sample_uuid_lib sample_client sent_client"
    by (rule queue_step) (rule sample_fresh)
  with sample_reachable show ?thesis by (rule reach_step)
qed

lemma sent_store: "cl_store sent_client = queued_store sample_uuid_lib 1 ''op'' ''send'' ''c1'' ''hi'' 5000
    (sample_conversation ''c1'' ''ann'') sample_ann (cl_store sample_client)"
  using queue_delivery_run [OF sample_sendable _ _ _ sample_fresh(1,2), of "''hi''" "''send''" 5000]
  unfolding sent_client_def by (auto simp: trim_samples)


theorem queue_message_delivers_witness:
  "\<exists>r c'. feature_queue_message_delivery sample_uuid_lib 1 ''op'' ''send'' ''c1'' ''hi'' None 5000 sample_client = (Ok r, c')"
proof -
  have "transaction_depth (cl_session sample_client) = 0" by (simp add: sample_client_def session_new_def)
  from queue_message_delivers [OF sample_reachable sample_sendable _ _ _ sample_fresh(1,3) this, of "''hi''" "''send''" 5000]
  show ?thesis by (auto simp: trim_samples)
qed

definition sample_message :: "string \<Rightarrow> string \<Rightarrow> message_state \<Rightarrow> chat_message" where
  "sample_message i cid st = \<lparr> m_id = i, m_conversation_id = cid, m_outgoing = True, m_body = ''x'', m_reply_to = None,
     m_state = st, m_created_at = 1, m_attempt_count = 0, m_last_attempt_at = None, m_next_attempt_at = 1,
     m_ack_deadline = None, m_last_transport_error = None \<rparr>"

definition stuck_client :: client where
  "stuck_client = sample_client\<lparr> cl_store := (cl_store sample_client)\<lparr> messages_t :=
     [\<lparr> mr_message = sample_message ''m1'' ''c1'' Queued, mr_wire_ciphertext = None, mr_ciphertext_hash = None \<rparr>,
      \<lparr> mr_message = sample_message ''m2'' ''c2'' Queued, mr_wire_ciphertext = None, mr_ciphertext_hash = None \<rparr>] \<rparr> \<rparr>"

theorem blocked_contact_stops_flush_witness:
  "\<exists>e c'. feature_prepare_pending_message_deliveries sample_uuid_lib 7000 stuck_client = (Err e, c')"
proof (rule blocked_contact_stops_flush)
  show "sample_message ''m2'' ''c2'' Queued \<in> set (pending_messages (cl_store stuck_client))"
    by (simp add: pending_messages_def stuck_client_def sample_message_def sample_client_def)
  show "m_outgoing (sample_message ''m2'' ''c2'' Queued)" by (simp add: sample_message_def)
  show "conversation_by_id (m_conversation_id (sample_message ''m2'' ''c2'' Queued)) (cl_store stuck_client) =
      Some (sample_conversation ''c2'' ''bob'')"
    by (simp add: stuck_client_def sample_delivery_defs sample_message_def conversation_by_id_def table_simps)
  show "contact_by_installation_id (cv_contact_installation_id (sample_conversation ''c2'' ''bob'')) (cl_store stuck_client) =
      Some (decode_contact (cl_store stuck_client) (sample_contact_row ''bob'' True))"
    by (simp add: stuck_client_def sample_delivery_defs contact_by_installation_id_def table_simps)
  show "ct_blocked (decode_contact (cl_store stuck_client) (sample_contact_row ''bob'' True))"
    by (simp add: decode_contact_def sample_contact_row_def Let_def)
qed

definition persisted_client :: client where
  "persisted_client =
     snd (feature_apply_message_delivery_outcome sample_uuid_lib ''m1'' PeerPersisted None None 6000 sent_client)"

lemma sent_message: "message_by_id ''m1'' (cl_store sent_client) =
    Some ((queued_message sample_uuid_lib 1 ''c1'' ''hi'' None 5000)\<lparr> m_state := Sending \<rparr>)"
  by (simp add: sent_store queued_store_def Let_def trim_samples sample_uuid_lib_def
      message_by_id_cong [of "enqueue_outbound_delivery i a q t ss" ss for i a q t ss]
      message_by_id_cong [of "ss\<lparr> operations_t := oo \<rparr>" ss for ss oo] table_simps queued_message_def)

lemma persisted_run:
  "\<exists>r. feature_apply_message_delivery_outcome sample_uuid_lib ''m1'' PeerPersisted None None 6000 sent_client =
     (Ok r, persisted_client)"
proof -
  let ?a = "outcome_bookkeeping ''m1'' PeerPersisted None None 6000 (cl_store sent_client)"
  obtain ch s1 where a: "?a = (Ok ch, s1)" and m: "messages_t s1 = messages_t (cl_store sent_client)"
    by (cases "active_message_delivery ''m1'' (operations_t (cl_store sent_client))")
      (simp_all add: outcome_bookkeeping_def complete_message_delivery_def end_message_delivery_def on_operations_def seq_def)
  let ?m = "(queued_message sample_uuid_lib 1 ''c1'' ''hi'' None 5000)\<lparr> m_state := Sending \<rparr>"
  have "message_by_id ''m1'' s1 = Some ?m" using sent_message message_by_id_cong [OF m] by simp
  then show ?thesis
    by (simp add: persisted_client_def feature_apply_message_delivery_outcome_def seq_on_store a apply_outcome_def
        required_message_def seq_assoc message_state_after_transport_outcome_def queued_message_def Let_def
        outcome_fields_def parse_message_id_def sample_uuid_lib_def changed_def)
qed


end
