(* ===== verification/Signed_Statements.thy ===== *)
theory Signed_Statements
  imports Core_Protocol
begin

text \<open>
  The payloads a client sends through the relay (\<open>RelayPayloadV1\<close> of
  \<^verbatim>\<open>src/common/torchat-core/src/relay.rs\<close>), with the byte strings their signatures cover and their
  verification, and the statements an identity signs anywhere in the program: endpoint bundles,
  handshake transcripts, message envelopes, Welcomes and their acknowledgements, relationship
  removals and contact invites.

  All of them are signed with the same key, so what keeps one kind of signature from being accepted
  as another is the encoding alone: \<open>signature_binds_claim\<close> shows that the signed bytes determine the
  kind of statement and every field of it.
\<close>

section \<open>Relay payloads\<close>

definition push_field :: "bytes \<Rightarrow> string \<Rightarrow> bytes" where
  "push_field output value = output @ to_be_bytes 4 (word_of_nat (length value) :: 32 word) @ as_bytes value"

definition welcome_signing_bytes ::
  "json_lib \<Rightarrow> contact_card \<Rightarrow> string \<Rightarrow> string \<Rightarrow> string \<Rightarrow> string \<Rightarrow> peer_endpoint_bundle option \<Rightarrow>
   string option \<Rightarrow> string option \<Rightarrow> bytes" where
  "welcome_signing_bytes json sender recipient invite_id welcome ratchet_tree peer_endpoint
     peer_capability_id peer_capability_secret =
     (let out = foldl push_field (as_bytes ''torchat-welcome-v1'')
                  [cc_installation_id sender, cc_public_key sender, cc_fingerprint sender,
                   cc_nickname sender, recipient, invite_id, welcome, ratchet_tree];
          endpoint = (case peer_endpoint of None \<Rightarrow> [] | Some e \<Rightarrow> endpoint_to_vec json e);
          out = out @ to_be_bytes 4 (word_of_nat (length endpoint) :: 32 word) @ endpoint
      in if peer_capability_id \<noteq> None \<or> peer_capability_secret \<noteq> None
         then foldl push_field out
                [case peer_capability_id of None \<Rightarrow> [] | Some v \<Rightarrow> v,
                 case peer_capability_secret of None \<Rightarrow> [] | Some v \<Rightarrow> v]
         else out)"

definition welcome_applied_signing_bytes :: "contact_card \<Rightarrow> string \<Rightarrow> string \<Rightarrow> bytes" where
  "welcome_applied_signing_bytes sender recipient invite_id =
     foldl push_field (as_bytes ''torchat-welcome-applied-v1'')
       [cc_installation_id sender, cc_public_key sender, cc_fingerprint sender, cc_nickname sender,
        recipient, invite_id]"

definition relationship_removal_applied_signing_bytes ::
  "contact_card \<Rightarrow> string \<Rightarrow> string \<Rightarrow> int \<Rightarrow> int \<Rightarrow> bytes" where
  "relationship_removal_applied_signing_bytes sender recipient removal_id relationship_epoch applied_at =
     as_bytes (''torchat.relationship-removal-applied.v1|'' @ int_text (uint PROTOCOL_VERSION) @ ''|'' @
       cc_installation_id sender @ ''|'' @ recipient @ ''|'' @ removal_id @ ''|'' @
       int_text relationship_epoch @ ''|'' @ int_text applied_at)"

definition pairing_offer :: "string \<Rightarrow> string \<Rightarrow> string \<Rightarrow> relay_payload" where
  "pairing_offer pairing_id capability invite = PairingOffer PROTOCOL_VERSION pairing_id capability invite"

definition pairing_rejected :: "string \<Rightarrow> relay_payload" where
  "pairing_rejected pairing_id = PairingRejected PROTOCOL_VERSION pairing_id"

definition welcome_with_endpoint ::
  "crypto_lib \<Rightarrow> json_lib \<Rightarrow> identity \<Rightarrow> string \<Rightarrow> string \<Rightarrow> string \<Rightarrow> bytes \<Rightarrow> bytes \<Rightarrow>
   peer_endpoint_bundle option \<Rightarrow> string option \<Rightarrow> string option \<Rightarrow> relay_payload" where
  "welcome_with_endpoint lib json idn nickname recipient invite_id welcome ratchet_tree peer_endpoint
     peer_capability_id peer_capability_secret =
     (let sender = card_from_identity lib idn (trim nickname);
          welcome = b64_encode lib welcome;
          ratchet_tree = b64_encode lib ratchet_tree;
          signature = identity_sign lib idn (welcome_signing_bytes json sender recipient invite_id welcome
            ratchet_tree peer_endpoint peer_capability_id peer_capability_secret)
      in Welcome PROTOCOL_VERSION sender recipient invite_id welcome ratchet_tree peer_endpoint
           peer_capability_id peer_capability_secret signature)"

definition welcome_plain ::
  "crypto_lib \<Rightarrow> json_lib \<Rightarrow> identity \<Rightarrow> string \<Rightarrow> string \<Rightarrow> string \<Rightarrow> bytes \<Rightarrow> bytes \<Rightarrow> relay_payload" where
  "welcome_plain lib json idn nickname recipient invite_id welcome ratchet_tree =
     welcome_with_endpoint lib json idn nickname recipient invite_id welcome ratchet_tree None None None"

definition welcome_applied ::
  "crypto_lib \<Rightarrow> identity \<Rightarrow> string \<Rightarrow> string \<Rightarrow> string \<Rightarrow> relay_payload" where
  "welcome_applied lib idn nickname recipient invite_id =
     (let sender = card_from_identity lib idn (trim nickname);
          signature = identity_sign lib idn (welcome_applied_signing_bytes sender recipient invite_id)
      in WelcomeApplied PROTOCOL_VERSION sender recipient invite_id signature)"

definition peer_endpoint_bootstrap ::
  "crypto_lib \<Rightarrow> identity \<Rightarrow> string \<Rightarrow> string \<Rightarrow> peer_endpoint_bundle \<Rightarrow> relay_payload" where
  "peer_endpoint_bootstrap lib idn nickname recipient endpoint =
     PeerEndpointBootstrap PROTOCOL_VERSION (card_from_identity lib idn (trim nickname)) recipient endpoint"

definition relationship_removal_applied ::
  "crypto_lib \<Rightarrow> identity \<Rightarrow> string \<Rightarrow> string \<Rightarrow> int \<Rightarrow> int \<Rightarrow> relay_payload" where
  "relationship_removal_applied lib idn recipient removal_id relationship_epoch applied_at =
     (let sender = card_from_identity lib idn ''TorChat'';
          signature = identity_sign lib idn (relationship_removal_applied_signing_bytes sender recipient
            removal_id relationship_epoch applied_at)
      in RelationshipRemovalApplied PROTOCOL_VERSION sender recipient removal_id relationship_epoch
           applied_at signature)"

fun payload_version :: "relay_payload \<Rightarrow> 16 word" where
  "payload_version (PairingOffer version _ _ _) = version"
| "payload_version (PairingRejected version _) = version"
| "payload_version (Welcome version _ _ _ _ _ _ _ _ _) = version"
| "payload_version (WelcomeApplied version _ _ _ _) = version"
| "payload_version (PeerEndpointBootstrap version _ _ _) = version"
| "payload_version (RelationshipRemovalApplied version _ _ _ _ _ _) = version"

definition payload_encode :: "crypto_lib \<Rightarrow> json_lib \<Rightarrow> relay_payload \<Rightarrow> string checked" where
  "payload_encode lib json p =
     (case payload_to_vec json p of
        Inl error \<Rightarrow> Err (''encode relay payload: '' @ error)
      | Inr value \<Rightarrow> Ok (b64_encode lib value))"

definition payload_decode :: "crypto_lib \<Rightarrow> json_lib \<Rightarrow> string \<Rightarrow> relay_payload checked" where
  "payload_decode lib json value =
     and_then (ok_or (b64_decode lib value) ''invalid relay payload encoding'') (\<lambda>b.
     and_then (case payload_from_slice json b of
                 Inl error \<Rightarrow> Err (''invalid relay payload: '' @ error) | Inr p \<Rightarrow> Ok p) (\<lambda>payload.
     and_then (ensure (payload_version payload = PROTOCOL_VERSION) ''unsupported relay payload version'')
       (\<lambda>_. Ok payload)))"

fun verify_welcome :: "crypto_lib \<Rightarrow> json_lib \<Rightarrow> relay_payload \<Rightarrow> string \<Rightarrow> string \<Rightarrow> unit checked" where
  "verify_welcome lib json (Welcome _ sender recipient invite_id welcome ratchet_tree peer_endpoint
       peer_capability_id peer_capability_secret signature) expected_sender expected_recipient =
     and_then (card_validate lib sender) (\<lambda>_.
     and_then (ensure (cc_installation_id sender = expected_sender)
       ''Welcome sender does not match relay sender'') (\<lambda>_.
     and_then (ensure (recipient = expected_recipient)
       ''Welcome recipient does not match local identity'') (\<lambda>_.
     ensure (verify_signature lib (cc_public_key sender)
         (welcome_signing_bytes json sender recipient invite_id welcome ratchet_tree peer_endpoint
            peer_capability_id peer_capability_secret) signature)
       ''invalid Welcome signature'')))"
| "verify_welcome lib json _ expected_sender expected_recipient = Err ''relay payload is not a Welcome''"

fun decode_welcome :: "crypto_lib \<Rightarrow> relay_payload \<Rightarrow> (string \<times> bytes \<times> bytes) checked" where
  "decode_welcome lib (Welcome _ _ _ invite_id welcome ratchet_tree _ _ _ _) =
     and_then (ok_or (b64_decode lib welcome) ''invalid Welcome encoding'') (\<lambda>w.
     and_then (ok_or (b64_decode lib ratchet_tree) ''invalid ratchet tree encoding'') (\<lambda>r.
     Ok (invite_id, w, r)))"
| "decode_welcome lib _ = Err ''relay payload is not a Welcome''"

fun welcome_peer_endpoint :: "relay_payload \<Rightarrow> peer_endpoint_bundle option" where
  "welcome_peer_endpoint (Welcome _ _ _ _ _ _ peer_endpoint _ _ _) = peer_endpoint"
| "welcome_peer_endpoint _ = None"

fun welcome_peer_capability :: "relay_payload \<Rightarrow> (string \<times> string) option" where
  "welcome_peer_capability (Welcome _ _ _ _ _ _ _ (Some cap) (Some secret) _) = Some (cap, secret)"
| "welcome_peer_capability _ = None"

fun verify_welcome_applied :: "crypto_lib \<Rightarrow> relay_payload \<Rightarrow> string \<Rightarrow> string \<Rightarrow> string checked" where
  "verify_welcome_applied lib (WelcomeApplied _ sender recipient invite_id signature)
       expected_sender expected_recipient =
     and_then (card_validate lib sender) (\<lambda>_.
     and_then (ensure (cc_installation_id sender = expected_sender)
       ''WelcomeApplied sender does not match relay sender'') (\<lambda>_.
     and_then (ensure (recipient = expected_recipient)
       ''WelcomeApplied recipient does not match local identity'') (\<lambda>_.
     and_then (ensure (verify_signature lib (cc_public_key sender)
         (welcome_applied_signing_bytes sender recipient invite_id) signature)
       ''invalid WelcomeApplied signature'') (\<lambda>_. Ok invite_id))))"
| "verify_welcome_applied lib _ expected_sender expected_recipient =
     Err ''relay payload is not a WelcomeApplied acknowledgement''"

fun verify_relationship_removal_applied ::
  "crypto_lib \<Rightarrow> relay_payload \<Rightarrow> string \<Rightarrow> string \<Rightarrow> string checked" where
  "verify_relationship_removal_applied lib (RelationshipRemovalApplied _ sender recipient removal_id
       relationship_epoch applied_at signature) expected_sender expected_recipient =
     and_then (card_validate lib sender) (\<lambda>_.
     and_then (ensure (cc_installation_id sender = expected_sender)
       ''relationship removal ACK sender mismatch'') (\<lambda>_.
     and_then (ensure (recipient = expected_recipient) ''relationship removal ACK recipient mismatch'') (\<lambda>_.
     and_then (ensure (verify_signature lib (cc_public_key sender)
         (relationship_removal_applied_signing_bytes sender recipient removal_id relationship_epoch applied_at)
         signature)
       ''invalid relationship removal ACK signature'') (\<lambda>_. Ok removal_id))))"
| "verify_relationship_removal_applied lib _ expected_sender expected_recipient =
     Err ''relay payload is not a relationship removal acknowledgement''"

fun verify_peer_endpoint_bootstrap ::
  "crypto_lib \<Rightarrow> relay_payload \<Rightarrow> string \<Rightarrow> string \<Rightarrow> peer_endpoint_bundle checked" where
  "verify_peer_endpoint_bootstrap lib (PeerEndpointBootstrap _ sender recipient endpoint)
       expected_sender expected_recipient =
     and_then (card_validate lib sender) (\<lambda>_.
     and_then (ensure (cc_installation_id sender = expected_sender)
       ''peer endpoint bootstrap sender does not match relay sender'') (\<lambda>_.
     and_then (ensure (recipient = expected_recipient)
       ''peer endpoint bootstrap recipient does not match local identity'') (\<lambda>_.
     and_then (ensure (ep_installation_id endpoint = cc_installation_id sender \<and>
                       ep_identity_public_key endpoint = cc_public_key sender)
       ''peer endpoint bootstrap does not match sender identity'') (\<lambda>_. Ok endpoint))))"
| "verify_peer_endpoint_bootstrap lib _ expected_sender expected_recipient =
     Err ''relay payload is not a peer endpoint bootstrap''"

section \<open>Statements and claims\<close>

datatype signed_statement =
    EndpointStatement peer_endpoint_bundle
  | HandshakeStatement peer_client_hello string "64 word" bytes "128 word" string
  | MessageStatement peer_message_envelope
  | WelcomeStatement contact_card string string string string "peer_endpoint_bundle option"
      "string option" "string option"
  | WelcomeAppliedStatement contact_card string string
  | RemovalStatement contact_card string string int int
  | InviteStatement contact_invite

fun statement_bytes :: "crypto_lib \<Rightarrow> json_lib \<Rightarrow> signed_statement \<Rightarrow> bytes checked" where
  "statement_bytes lib json (EndpointStatement e) = Ok (endpoint_signing_bytes e)"
| "statement_bytes lib json (HandshakeStatement hello server sequence nonce session onion) =
     Ok (handshake_transcript hello server sequence nonce session onion)"
| "statement_bytes lib json (MessageStatement m) = Ok (envelope_signing_bytes lib m)"
| "statement_bytes lib json (WelcomeStatement sender recipient invite welcome tree endpoint cap secret) =
     Ok (welcome_signing_bytes json sender recipient invite welcome tree endpoint cap secret)"
| "statement_bytes lib json (WelcomeAppliedStatement sender recipient invite) =
     Ok (welcome_applied_signing_bytes sender recipient invite)"
| "statement_bytes lib json (RemovalStatement sender recipient removal epoch applied) =
     Ok (relationship_removal_applied_signing_bytes sender recipient removal epoch applied)"
| "statement_bytes lib json (InviteStatement i) = invite_signing_bytes json i"

text \<open>What a statement claims: its fields without the signature itself, the ciphertext by its digest,
  an embedded endpoint by its serialisation. An absent half of a capability counts as empty.\<close>

datatype signed_claim =
    EndpointClaim peer_endpoint_bundle
  | HandshakeClaim peer_client_hello string "64 word" bytes "128 word" string
  | MessageClaim peer_message_envelope bytes
  | WelcomeClaim contact_card string string string string bytes "(string \<times> string) option"
  | WelcomeAppliedClaim contact_card string string
  | RemovalClaim string string string int int
  | InviteClaim "bytes checked"

definition or_empty :: "'a list option \<Rightarrow> 'a list" where
  "or_empty x = (case x of None \<Rightarrow> [] | Some v \<Rightarrow> v)"

definition welcome_endpoint_bytes :: "json_lib \<Rightarrow> peer_endpoint_bundle option \<Rightarrow> bytes" where
  "welcome_endpoint_bytes json endpoint = (case endpoint of None \<Rightarrow> [] | Some e \<Rightarrow> endpoint_to_vec json e)"

fun claim_of :: "crypto_lib \<Rightarrow> json_lib \<Rightarrow> signed_statement \<Rightarrow> signed_claim" where
  "claim_of lib json (EndpointStatement e) = EndpointClaim (e\<lparr>ep_signature := []\<rparr>)"
| "claim_of lib json (HandshakeStatement hello server sequence nonce session onion) =
     HandshakeClaim (hello\<lparr>ch_capability_proof := []\<rparr>) server sequence nonce session onion"
| "claim_of lib json (MessageStatement m) =
     MessageClaim (m\<lparr>me_ciphertext := [], me_signature := []\<rparr>) (ciphertext_hash lib m)"
| "claim_of lib json (WelcomeStatement sender recipient invite welcome tree endpoint cap secret) =
     WelcomeClaim sender recipient invite welcome tree (welcome_endpoint_bytes json endpoint)
       (if cap = None \<and> secret = None then None else Some (or_empty cap, or_empty secret))"
| "claim_of lib json (WelcomeAppliedStatement sender recipient invite) =
     WelcomeAppliedClaim sender recipient invite"
| "claim_of lib json (RemovalStatement sender recipient removal epoch applied) =
     RemovalClaim (cc_installation_id sender) recipient removal epoch applied"
| "claim_of lib json (InviteStatement i) = InviteClaim (invite_signing_bytes json i)"

text \<open>The sizes the encoding can carry: every field shorter than four gigabytes, the times 64-bit
  integers, and no separator in the two installation ids of a removal (they are base64 text).\<close>

definition card_fits :: "contact_card \<Rightarrow> bool" where
  "card_fits c \<longleftrightarrow> bytes_fit (cc_installation_id c) \<and> bytes_fit (cc_public_key c) \<and>
     bytes_fit (cc_fingerprint c) \<and> bytes_fit (cc_nickname c)"

fun statement_fits :: "crypto_lib \<Rightarrow> json_lib \<Rightarrow> signed_statement \<Rightarrow> bool" where
  "statement_fits lib json (EndpointStatement e) \<longleftrightarrow>
     bytes_fit (ep_installation_id e) \<and> bytes_fit (ep_onion_address e) \<and>
     bytes_fit (ep_identity_public_key e) \<and> bytes_fit (ep_capabilities e) \<and>
     list_all bytes_fit (ep_capabilities e) \<and> is_i64 (ep_issued_at e) \<and>
     (case ep_expires_at e of None \<Rightarrow> True | Some t \<Rightarrow> is_i64 t)"
| "statement_fits lib json (HandshakeStatement hello server sequence nonce session onion) \<longleftrightarrow>
     bytes_fit (ch_installation_id hello) \<and> bytes_fit (ch_capability_id hello) \<and>
     bytes_fit (ch_nonce hello) \<and> bytes_fit server \<and> bytes_fit nonce \<and> bytes_fit onion"
| "statement_fits lib json (MessageStatement m) \<longleftrightarrow>
     bytes_fit (me_conversation_id m) \<and> bytes_fit (me_sender_installation_id m) \<and>
     is_i64 (me_created_at m) \<and> bytes_fit (ciphertext_hash lib m)"
| "statement_fits lib json (WelcomeStatement sender recipient invite welcome tree endpoint cap secret) \<longleftrightarrow>
     card_fits sender \<and> bytes_fit recipient \<and> bytes_fit invite \<and> bytes_fit welcome \<and> bytes_fit tree \<and>
     bytes_fit (welcome_endpoint_bytes json endpoint) \<and> bytes_fit (or_empty cap) \<and> bytes_fit (or_empty secret)"
| "statement_fits lib json (WelcomeAppliedStatement sender recipient invite) \<longleftrightarrow>
     card_fits sender \<and> bytes_fit recipient \<and> bytes_fit invite"
| "statement_fits lib json (RemovalStatement sender recipient removal epoch applied) \<longleftrightarrow>
     CHR ''|'' \<notin> set (cc_installation_id sender) \<and> CHR ''|'' \<notin> set recipient"
| "statement_fits lib json (InviteStatement i) \<longleftrightarrow> True"

section \<open>Each encoding determines its fields\<close>

lemmas codec_iffs =
  u16.append_eq_iff u16.enc_eq_iff u32.append_eq_iff u32.enc_eq_iff u64.append_eq_iff u64.enc_eq_iff
  u128.append_eq_iff u128.enc_eq_iff i64.append_eq_iff i64.enc_eq_iff word_of_int_i64_iff
  prefixed_bytes.append_eq_iff prefixed_bytes.enc_eq_iff prefixed_str.append_eq_iff prefixed_str.enc_eq_iff

lemma push_field_str: "push_field out v = out @ push_str [] v"
  by (simp add: push_field_def push_str_def push_bytes_def push_u32_def)

lemma foldl_push_str: "foldl push_str out vs = out @ concat (map (push_str []) vs)"
proof (induction vs arbitrary: out)
  case (Cons v vs)
  show ?case by (simp add: Cons.IH) (metis push_str_out append_assoc)
qed simp

lemma foldl_push_field: "foldl push_field out vs = out @ concat (map (push_str []) vs)"
  by (induction vs arbitrary: out) (simp_all add: push_field_str)

lemma prefix_length_eq:
  "bytes_fit x \<Longrightarrow> bytes_fit y \<Longrightarrow>
   (word_of_nat (length x) :: 32 word) = word_of_nat (length y) \<longleftrightarrow> length x = length y"
  by (auto simp: word_of_nat_eq_iff take_bit_nat_eq_self bytes_fit_def)

lemmas push_flat = Let_def push_out push_bytes_out [of "_ @ _"] push_str_out [of "_ @ _"] append_assoc

definition expiry_bytes :: "int option \<Rightarrow> bytes" where
  "expiry_bytes x = (case x of None \<Rightarrow> [0] | Some v \<Rightarrow> 1 # to_be_bytes 8 (word_of_int v :: 64 word))"

lemma expiry_bytes_eq_iff:
  "(case x of None \<Rightarrow> True | Some t \<Rightarrow> is_i64 t) \<Longrightarrow> (case y of None \<Rightarrow> True | Some t \<Rightarrow> is_i64 t) \<Longrightarrow>
   expiry_bytes x = expiry_bytes y \<longleftrightarrow> x = y"
  by (cases x; cases y) (simp_all add: expiry_bytes_def i64.enc_eq_iff)

lemma endpoint_bytes_flat:
  "endpoint_signing_bytes e =
     push_bytes [] ENDPOINT_DOMAIN @ to_be_bytes 2 (ep_protocol_version e) @
     push_str [] (ep_installation_id e) @ push_str [] (ep_onion_address e) @
     to_be_bytes 2 (ep_virtual_port e) @ push_str [] (ep_identity_public_key e) @
     to_be_bytes 4 (word_of_nat (length (ep_capabilities e)) :: 32 word) @
     concat (map (push_str []) (ep_capabilities e)) @ to_be_bytes 8 (ep_sequence e) @
     to_be_bytes 8 (word_of_int (ep_issued_at e) :: 64 word) @ expiry_bytes (ep_expires_at e)"
  by (cases "ep_expires_at e")
    (simp_all add: endpoint_signing_bytes_def push_flat foldl_push_str expiry_bytes_def)

lemma endpoint_bytes_claim:
  assumes "statement_fits lib json (EndpointStatement e)" "statement_fits lib json (EndpointStatement f)"
    and eq: "endpoint_signing_bytes e = endpoint_signing_bytes f"
  shows "e\<lparr>ep_signature := []\<rparr> = f\<lparr>ep_signature := []\<rparr>"
proof -
  have "length (ep_capabilities e) = length (ep_capabilities f)"
    using eq assms(1,2) unfolding endpoint_bytes_flat by (simp add: codec_iffs prefix_length_eq)
  then show ?thesis
    using eq assms(1,2) unfolding endpoint_bytes_flat
    by (simp add: codec_iffs prefixed_str.concat_append_eq_iff expiry_bytes_eq_iff)
qed

lemma transcript_claim:
  assumes "statement_fits lib json (HandshakeStatement h s q n i a)"
    and "statement_fits lib json (HandshakeStatement h' s' q' n' i' a')"
    and "handshake_transcript h s q n i a = handshake_transcript h' s' q' n' i' a'"
  shows "h\<lparr>ch_capability_proof := []\<rparr> = h'\<lparr>ch_capability_proof := []\<rparr> \<and>
         s = s' \<and> q = q' \<and> n = n' \<and> i = i' \<and> a = a'"
proof -
  have "bytes_fit (to_be_bytes 16 i)" "bytes_fit (to_be_bytes 16 i')" by (simp_all add: bytes_fit_def)
  then show ?thesis
    using assms by (simp add: handshake_transcript_def push_flat codec_iffs)
qed

lemma envelope_bytes_claim:
  assumes "statement_fits lib json (MessageStatement m)" "statement_fits lib json (MessageStatement m')"
    and "envelope_signing_bytes lib m = envelope_signing_bytes lib m'"
  shows "m\<lparr>me_ciphertext := [], me_signature := []\<rparr> = m'\<lparr>me_ciphertext := [], me_signature := []\<rparr> \<and>
         ciphertext_hash lib m = ciphertext_hash lib m'"
proof -
  have "bytes_fit (to_be_bytes 16 u)" for u :: "128 word" by (simp add: bytes_fit_def)
  then show ?thesis
    using assms by (simp add: envelope_signing_bytes_def push_flat codec_iffs)
qed

lemma card_eq_iff:
  "(c :: contact_card) = d \<longleftrightarrow>
     cc_installation_id c = cc_installation_id d \<and> cc_public_key c = cc_public_key d \<and>
     cc_fingerprint c = cc_fingerprint d \<and> cc_nickname c = cc_nickname d"
  by (cases c; cases d) simp

lemma welcome_applied_claim:
  assumes "statement_fits lib json (WelcomeAppliedStatement c r i)"
    and "statement_fits lib json (WelcomeAppliedStatement c' r' i')"
    and "welcome_applied_signing_bytes c r i = welcome_applied_signing_bytes c' r' i'"
  shows "c = c' \<and> r = r' \<and> i = i'"
  using assms
  by (simp add: welcome_applied_signing_bytes_def push_field_str card_fits_def codec_iffs card_eq_iff
      del: as_bytes_simps)

lemma endpoint_prefix: "to_be_bytes 4 (word_of_nat (length b) :: 32 word) @ b = push_bytes [] b"
  by (simp add: push_bytes_def push_u32_def)

definition capability_bytes :: "string option \<Rightarrow> string option \<Rightarrow> bytes" where
  "capability_bytes cap secret =
     (if cap = None \<and> secret = None then [] else push_str [] (or_empty cap) @ push_str [] (or_empty secret))"

lemma push_str_not_Nil: "push_str [] v \<noteq> []"
  using length_to_be_bytes [of 4 "word_of_nat (length v) :: 32 word"]
  by (auto simp: push_str_def push_bytes_def push_u32_def simp del: length_to_be_bytes)

lemma welcome_bytes_flat:
  "welcome_signing_bytes json c r i w t e cap secret =
     as_bytes ''torchat-welcome-v1'' @ push_str [] (cc_installation_id c) @ push_str [] (cc_public_key c) @
     push_str [] (cc_fingerprint c) @ push_str [] (cc_nickname c) @ push_str [] r @ push_str [] i @
     push_str [] w @ push_str [] t @ push_bytes [] (welcome_endpoint_bytes json e) @
     capability_bytes cap secret"
  by (simp add: welcome_signing_bytes_def welcome_endpoint_bytes_def Let_def push_field_str endpoint_prefix
      capability_bytes_def or_empty_def del: as_bytes_simps)

lemma capability_bytes_claim:
  assumes "bytes_fit (or_empty cap)" "bytes_fit (or_empty secret)"
    and "bytes_fit (or_empty cap')" "bytes_fit (or_empty secret')"
  shows "capability_bytes cap secret = capability_bytes cap' secret' \<longleftrightarrow>
         (if cap = None \<and> secret = None then None else Some (or_empty cap, or_empty secret)) =
         (if cap' = None \<and> secret' = None then None else Some (or_empty cap', or_empty secret'))"
  using assms push_str_not_Nil by (auto simp: capability_bytes_def codec_iffs)

lemma welcome_claim:
  assumes "statement_fits lib json (WelcomeStatement c r i w t e cap secret)"
    and "statement_fits lib json (WelcomeStatement c' r' i' w' t' e' cap' secret')"
    and eq: "welcome_signing_bytes json c r i w t e cap secret =
             welcome_signing_bytes json c' r' i' w' t' e' cap' secret'"
  shows "claim_of lib json (WelcomeStatement c r i w t e cap secret) =
         claim_of lib json (WelcomeStatement c' r' i' w' t' e' cap' secret')"
proof -
  have caps: "capability_bytes cap secret = capability_bytes cap' secret' \<longleftrightarrow>
         (if cap = None \<and> secret = None then None else Some (or_empty cap, or_empty secret)) =
         (if cap' = None \<and> secret' = None then None else Some (or_empty cap', or_empty secret'))"
    using assms(1,2) by (intro capability_bytes_claim) simp_all
  show ?thesis
    using eq assms(1,2) unfolding welcome_bytes_flat
    by (simp add: codec_iffs card_fits_def caps card_eq_iff del: as_bytes_simps)
qed

section \<open>Decimal text and separators\<close>

lemma nat_digits_digit: "c \<in> set (nat_digits n) \<Longrightarrow> is_ascii_digit c"
proof (induction n rule: nat_digits.induct)
  case (1 n)
  have d: "is_ascii_digit (char_of (48 + k))" if "k < 10" for k :: nat
    using that by (simp add: is_ascii_digit_def byte_of_def)
  show ?case
  proof (cases "n < 10")
    case True
    then show ?thesis using 1(2) d by (simp add: nat_digits.simps)
  next
    case False
    have "c \<in> set (nat_digits (n div 10)) \<or> c = char_of (48 + n mod 10)"
      using 1(2) False by (subst (asm) nat_digits.simps) auto
    then show ?thesis using 1(1) False d [of "n mod 10"] by auto
  qed
qed

lemma char_of_digit_inject:
  assumes "j < 10" "k < 10"
  shows "char_of (48 + j) = (char_of (48 + k) :: char) \<longleftrightarrow> j = (k :: nat)"
proof
  assume "char_of (48 + j) = (char_of (48 + k) :: char)"
  then have "of_char (char_of (48 + j) :: char) = (of_char (char_of (48 + k) :: char) :: nat)" by simp
  then show "j = k" using assms by simp
qed simp

lemma nat_digits_inject: "nat_digits m = nat_digits n \<Longrightarrow> m = n"
proof (induction m arbitrary: n rule: nat_digits.induct)
  case (1 m)
  have ne: "nat_digits k \<noteq> []" for k by (subst nat_digits.simps) simp
  show ?case
  proof (cases "m < 10")
    case True
    then show ?thesis
      using 1(2) by (subst (asm) (1 2) nat_digits.simps)
        (auto simp: char_of_digit_inject ne ne [symmetric] split: if_splits)
  next
    case False
    then have "\<not> n < 10" and eqs: "nat_digits (m div 10) = nat_digits (n div 10)"
        "char_of (48 + m mod 10) = (char_of (48 + n mod 10) :: char)"
      using 1(2) by (subst (asm) (1 2) nat_digits.simps, auto simp: ne ne [symmetric] split: if_splits)+
    then have "m div 10 = n div 10" "m mod 10 = n mod 10"
      using 1(1) [OF False] by (simp_all add: char_of_digit_inject)
    then show ?thesis by (metis div_mult_mod_eq)
  qed
qed

lemma int_text_no_bar: "CHR ''|'' \<notin> set (int_text i)"
proof
  assume "CHR ''|'' \<in> set (int_text i)"
  then have "is_ascii_digit (CHR ''|'')"
    by (auto simp: int_text_def split: if_splits dest: nat_digits_digit)
  then show False by (simp add: is_ascii_digit_def byte_of_def)
qed

lemma int_text_inject: "int_text i = int_text j \<Longrightarrow> i = j"
proof -
  have "CHR ''-'' \<notin> set (nat_digits n)" for n
    using nat_digits_digit [of "CHR ''-''" n] by (auto simp: is_ascii_digit_def byte_of_def)
  then have "CHR ''-'' # xs \<noteq> nat_digits n" "nat_digits n \<noteq> CHR ''-'' # xs" for n xs
    by (metis list.set_intros(1))+
  then show "int_text i = int_text j \<Longrightarrow> i = j"
    by (auto simp: int_text_def split: if_splits dest!: nat_digits_inject)
qed

lemma split_first: "c \<notin> set x \<Longrightarrow> c \<notin> set y \<Longrightarrow> x @ c # r = y @ c # s \<longleftrightarrow> x = y \<and> r = s"
  by (induction x arbitrary: y) (case_tac y; auto)+

lemma split_last:
  assumes "c \<notin> set r" "c \<notin> set s"
  shows "x @ c # r = y @ c # s \<longleftrightarrow> x = y \<and> r = s"
proof
  assume "x @ c # r = y @ c # s"
  then have "rev (x @ c # r) = rev (y @ c # s)" by simp
  then have "rev r @ c # rev x = rev s @ c # rev y" by simp
  then show "x = y \<and> r = s" using assms by (simp add: split_first)
qed simp

lemma removal_claim:
  assumes "statement_fits lib json (RemovalStatement c r i e a)"
    and "statement_fits lib json (RemovalStatement c' r' i' e' a')"
    and eq: "relationship_removal_applied_signing_bytes c r i e a =
             relationship_removal_applied_signing_bytes c' r' i' e' a'"
  shows "cc_installation_id c = cc_installation_id c' \<and> r = r' \<and> i = i' \<and> e = e' \<and> a = a'"
proof -
  have "cc_installation_id c @ CHR ''|'' # r @ CHR ''|'' # i @ CHR ''|'' # int_text e @ CHR ''|'' # int_text a =
        cc_installation_id c' @ CHR ''|'' # r' @ CHR ''|'' # i' @ CHR ''|'' # int_text e' @ CHR ''|'' # int_text a'"
    using eq by (simp add: relationship_removal_applied_signing_bytes_def del: as_bytes_simps)
  then have ids: "cc_installation_id c = cc_installation_id c'" "r = r'"
    and tail: "i @ CHR ''|'' # int_text e @ CHR ''|'' # int_text a =
               i' @ CHR ''|'' # int_text e' @ CHR ''|'' # int_text a'"
    using assms(1,2) by (simp_all add: split_first)
  have "(i @ CHR ''|'' # int_text e) @ CHR ''|'' # int_text a =
                 (i' @ CHR ''|'' # int_text e') @ CHR ''|'' # int_text a'"
    using tail by simp
  then have "i @ CHR ''|'' # int_text e = i' @ CHR ''|'' # int_text e'" "int_text a = int_text a'"
    by (simp_all only: split_last [OF int_text_no_bar int_text_no_bar])
  then have "i = i'" "int_text e = int_text e'" "int_text a = int_text a'"
    by (simp_all only: split_last [OF int_text_no_bar int_text_no_bar])
  then show ?thesis using ids int_text_inject by blast
qed

section \<open>The kinds of statement are kept apart\<close>

fun statement_kind :: "signed_statement \<Rightarrow> nat" where
  "statement_kind (EndpointStatement _) = 0"
| "statement_kind (HandshakeStatement _ _ _ _ _ _) = 1"
| "statement_kind (MessageStatement _) = 2"
| "statement_kind (WelcomeStatement _ _ _ _ _ _ _ _) = 3"
| "statement_kind (WelcomeAppliedStatement _ _ _) = 4"
| "statement_kind (RemovalStatement _ _ _ _ _) = 5"
| "statement_kind (InviteStatement _) = 6"

definition kind_prefix :: "nat \<Rightarrow> bytes" where
  "kind_prefix k =
     (if k = 0 then [0, 0, 0, 24] else if k = 1 then [0, 0, 0, 25] else if k = 2 then [0, 0, 0, 23]
      else if k = 3 then as_bytes ''torchat-welcome-v'' else if k = 4 then as_bytes ''torchat-welcome-a''
      else if k = 5 then as_bytes ''torchat.'' else [0x7B])"

lemma domain_prefixes:
  "take 4 (push_bytes [] ENDPOINT_DOMAIN) = [0, 0, 0, 24]"
  "take 4 (push_bytes [] HANDSHAKE_DOMAIN) = [0, 0, 0, 25]"
  "take 4 (push_bytes [] MESSAGE_DOMAIN) = [0, 0, 0, 23]"
  by code_simp+

lemma kind_prefix_text:
  "kind_prefix 3 = [116, 111, 114, 99, 104, 97, 116, 45, 119, 101, 108, 99, 111, 109, 101, 45, 118]"
  "kind_prefix 4 = [116, 111, 114, 99, 104, 97, 116, 45, 119, 101, 108, 99, 111, 109, 101, 45, 97]"
  "kind_prefix 5 = [116, 111, 114, 99, 104, 97, 116, 46]"
  "kind_prefix 6 = [123]"
  by (simp_all add: kind_prefix_def byte_of_def)

lemma kind_prefix_length:
  "kind_prefix 0 = [0, 0, 0, 24]" "kind_prefix 1 = [0, 0, 0, 25]" "kind_prefix 2 = [0, 0, 0, 23]"
  by (simp_all add: kind_prefix_def)

lemma kind_prefix_inject:
  assumes "kind_prefix j @ r = kind_prefix k @ s" "j < 7" "k < 7"
  shows "j = k"
proof -
  have "j \<in> {0, 1, 2, 3, 4, 5, 6}" "k \<in> {0, 1, 2, 3, 4, 5, 6}" using assms(2,3) by auto
  then show ?thesis
    using assms(1) by (elim insertE emptyE; simp only: kind_prefix_text kind_prefix_length; simp)
qed

lemma kind_lt: "statement_kind s < 7"
  by (cases s) simp_all

lemma prefixed_kind: "\<exists>r. push_bytes [] d @ x = take 4 (push_bytes [] d) @ r"
  by (metis append_assoc append_take_drop_id)

lemma statement_starts:
  assumes "invite_json_ok json" "statement_bytes lib json s = Ok b"
  shows "\<exists>r. b = kind_prefix (statement_kind s) @ r"
proof (cases s)
  case (EndpointStatement e)
  then show ?thesis
    using assms(2) prefixed_kind [of ENDPOINT_DOMAIN]
    by (simp add: endpoint_bytes_flat kind_prefix_length domain_prefixes) blast
next
  case (HandshakeStatement h srv q n i a)
  then show ?thesis
    using assms(2) prefixed_kind [of HANDSHAKE_DOMAIN]
    by (simp add: handshake_transcript_def push_flat kind_prefix_length [simplified] domain_prefixes) blast
next
  case (MessageStatement m)
  then show ?thesis
    using assms(2) prefixed_kind [of MESSAGE_DOMAIN]
    by (simp add: envelope_signing_bytes_def push_flat kind_prefix_length domain_prefixes) blast
next
  case (WelcomeStatement c r i w t e cap secret)
  then show ?thesis
    using assms(2) by (auto simp: welcome_bytes_flat kind_prefix_def)
next
  case (WelcomeAppliedStatement c r i)
  then show ?thesis
    using assms(2) by (auto simp: welcome_applied_signing_bytes_def push_field_str kind_prefix_def)
next
  case (RemovalStatement c r i e a)
  then show ?thesis
    using assms(2) by (auto simp: relationship_removal_applied_signing_bytes_def kind_prefix_def)
next
  case (InviteStatement i)
  then have "is_object b"
    using assms by (auto simp: invite_json_ok_def invite_signing_bytes_def)
  then show ?thesis using InviteStatement by (cases b) (auto simp: is_object_def kind_prefix_text)
qed

lemma statement_bytes_claim:
  assumes "invite_json_ok json"
    and "statement_fits lib json s" "statement_fits lib json t"
    and "statement_bytes lib json s = Ok b" "statement_bytes lib json t = Ok b"
  shows "claim_of lib json s = claim_of lib json t"
proof -
  have kinds: "statement_kind s = statement_kind t"
    using statement_starts [OF assms(1,4)] statement_starts [OF assms(1,5)] kind_lt kind_prefix_inject
    by metis
  show ?thesis
    using kinds assms(2-5)
  proof (cases s; cases t)
    fix e f assume "s = EndpointStatement e" "t = EndpointStatement f"
    then show ?thesis using assms(2-5) endpoint_bytes_claim [of lib json e f] by simp
  next
    fix h srv q n i a h' srv' q' n' i' a'
    assume "s = HandshakeStatement h srv q n i a" "t = HandshakeStatement h' srv' q' n' i' a'"
    then show ?thesis using assms(2-5) transcript_claim [of lib json h srv q n i a h' srv' q' n' i' a'] by simp
  next
    fix m m' assume "s = MessageStatement m" "t = MessageStatement m'"
    then show ?thesis using assms(2-5) envelope_bytes_claim [of lib json m m'] by simp
  next
    fix c r i w tr e cap secret c' r' i' w' tr' e' cap' secret'
    assume "s = WelcomeStatement c r i w tr e cap secret" "t = WelcomeStatement c' r' i' w' tr' e' cap' secret'"
    then show ?thesis
      using assms(2-5) welcome_claim [of lib json c r i w tr e cap secret c' r' i' w' tr' e' cap' secret'] by simp
  next
    fix c r i c' r' i' assume "s = WelcomeAppliedStatement c r i" "t = WelcomeAppliedStatement c' r' i'"
    then show ?thesis using assms(2-5) welcome_applied_claim [of lib json c r i c' r' i'] by simp
  next
    fix c r i e a c' r' i' e' a' assume "s = RemovalStatement c r i e a" "t = RemovalStatement c' r' i' e' a'"
    then show ?thesis using assms(2-5) removal_claim [of lib json c r i e a c' r' i' e' a'] by simp
  qed simp_all
qed


definition sample_crypto :: crypto_lib where
  "sample_crypto =
     \<lparr> sha256 = (\<lambda>_. replicate 32 7), hmac_sha256 = (\<lambda>key m. take 32 (key @ m)),
       b64_encode = map (\<lambda>w. char_of (unat w)),
       b64_decode = (\<lambda>s. Some (as_bytes s)),
       ed25519_public = (\<lambda>k. replicate 32 (hd (k @ [0]))), ed25519_sign = (\<lambda>k m. replicate 64 (hd (k @ [0]))),
       ed25519_verify = (\<lambda>pk m sig. sig = replicate 64 (hd (pk @ [0]))) \<rparr>"

definition sample_json :: json_lib where
  "sample_json =
     \<lparr> frame_to_vec = (\<lambda>_. Err ''unsupported''), frame_from_slice = (\<lambda>_. Err ''unsupported''),
       invite_to_vec = (\<lambda>_. Ok [0x7B, 0x7D]), invite_from_str = (\<lambda>_. Err ''unsupported''),
       payload_to_vec = (\<lambda>_. Err ''unsupported''), payload_from_slice = (\<lambda>_. Err ''unsupported''),
       ciphertext_to_vec = (\<lambda>_. Err ''unsupported''), ciphertext_from_slice = (\<lambda>_. Err ''unsupported''),
       endpoint_to_vec = (\<lambda>_. [0x7B, 0x7D]) \<rparr>"

definition sample_endpoint :: peer_endpoint_bundle where
  "sample_endpoint =
     \<lparr> ep_protocol_version = 1, ep_installation_id = ''peer'', ep_onion_address = ''a.onion'',
       ep_virtual_port = 443, ep_identity_public_key = ''key'', ep_capabilities = [''peer_message_v1''],
       ep_sequence = 1, ep_issued_at = 1, ep_expires_at = None, ep_signature = ''sig'' \<rparr>"


section \<open>What an identity makes, its peer accepts\<close>

lemma ensure_simps [simp]:
  "ensure True e = Ok ()"
  "ensure False e = Err e"
  "ensure b e = Ok u \<longleftrightarrow> b"
  by (simp_all add: ensure_def)

lemma verify_own_signature:
  "crypto_lib_ok lib \<Longrightarrow> verify_signature lib (identity_public_key lib idn) m (identity_sign lib idn m)"
  by (simp add: crypto_lib_ok_def verify_signature_def identity_public_key_def identity_sign_def)

lemma card_from_identity_validates:
  "crypto_lib_ok lib \<Longrightarrow> card_validate lib (card_from_identity lib idn nickname) =
     ensure (\<not> (length (trim nickname) < 2 \<or> chars_count (trim nickname) > 32)) ''contact nickname is invalid''"
  by (simp add: crypto_lib_ok_def card_validate_def card_from_identity_def identity_public_key_def
      identity_installation_id_def identity_fingerprint_def)

lemma card_from_identity_fields [simp]:
  "cc_installation_id (card_from_identity lib idn nickname) = identity_installation_id lib idn"
  "cc_public_key (card_from_identity lib idn nickname) = identity_public_key lib idn"
  by (simp_all add: card_from_identity_def)

lemma endpoint_new_fields:
  "ep_protocol_version (endpoint_new lib idn onion sequence issued_at expires) = PROTOCOL_VERSION"
  "ep_sequence (endpoint_new lib idn onion sequence issued_at expires) = sequence"
  "ep_virtual_port (endpoint_new lib idn onion sequence issued_at expires) = PEER_VIRTUAL_PORT"
  "ep_issued_at (endpoint_new lib idn onion sequence issued_at expires) = issued_at"
  "ep_onion_address (endpoint_new lib idn onion sequence issued_at expires) = to_ascii_lowercase (trim onion)"
  "ep_expires_at (endpoint_new lib idn onion sequence issued_at expires) = expires"
  "ep_capabilities (endpoint_new lib idn onion sequence issued_at expires) = [''peer_message_v1'', ''peer_receipt_v1'']"
  "ep_identity_public_key (endpoint_new lib idn onion sequence issued_at expires) = identity_public_key lib idn"
  "ep_installation_id (endpoint_new lib idn onion sequence issued_at expires) = identity_installation_id lib idn"
  by (simp_all add: endpoint_new_def Let_def)

lemma endpoint_new_signature:
  "ep_signature (endpoint_new lib idn onion sequence issued_at expires) =
     identity_sign lib idn (endpoint_signing_bytes (endpoint_new lib idn onion sequence issued_at expires))"
  by (cases expires) (simp_all add: endpoint_new_def endpoint_bytes_flat)

lemma envelope_new_fields:
  "me_protocol_version (envelope_new lib idn session message conversation sequence created ciphertext) = PROTOCOL_VERSION"
  "me_session_id (envelope_new lib idn session message conversation sequence created ciphertext) = session"
  "me_message_id (envelope_new lib idn session message conversation sequence created ciphertext) = message"
  "me_sender_installation_id (envelope_new lib idn session message conversation sequence created ciphertext) =
     identity_installation_id lib idn"
  "me_sequence (envelope_new lib idn session message conversation sequence created ciphertext) = sequence"
  "me_ciphertext (envelope_new lib idn session message conversation sequence created ciphertext) = ciphertext"
  by (simp_all add: envelope_new_def Let_def)

lemma envelope_new_signature:
  "me_signature (envelope_new lib idn session message conversation sequence created ciphertext) =
     identity_sign lib idn (envelope_signing_bytes lib
       (envelope_new lib idn session message conversation sequence created ciphertext))"
  by (simp add: envelope_new_def Let_def envelope_signing_bytes_def ciphertext_hash_def)

lemma own_public_key:
  assumes "crypto_lib_ok lib"
  shows "decode_public_key lib (identity_public_key lib idn) = Ok (ed25519_public lib (signing_key idn))"
    and "installation_id_from_public_key lib (ed25519_public lib (signing_key idn)) =
         identity_installation_id lib idn"
  using assms
  by (simp_all add: crypto_lib_ok_def decode_public_key_def identity_public_key_def
      installation_id_from_public_key_def identity_installation_id_def)

lemma capability_names_valid:
  "\<not> list_ex (\<lambda>c. is_blank c \<or> length c > 64) [''peer_message_v1'', ''peer_receipt_v1'']"
  by code_simp

lemma endpoint_new_validates:
  assumes "crypto_lib_ok lib" "sequence \<noteq> 0" "i64_sub issued_at now \<le> MAX_ENDPOINT_CLOCK_SKEW_SECS"
    and "is_valid_onion_address (to_ascii_lowercase (trim onion))" "validate_expiry expires now = Ok ()"
  shows "endpoint_validate lib (endpoint_new lib idn onion sequence issued_at expires) now = Ok ()"
  using assms capability_names_valid
  by (simp add: endpoint_validate_def endpoint_new_fields endpoint_new_signature verify_own_signature
      own_public_key)

lemma envelope_new_verifies:
  assumes "crypto_lib_ok lib"
  shows "envelope_verify lib (envelope_new lib idn session message conversation sequence created ciphertext)
           (identity_installation_id lib idn) (identity_public_key lib idn) =
         ensure (sequence \<noteq> 0 \<and> ciphertext \<noteq> []) ''invalid peer message envelope''"
  using verify_own_signature [OF assms]
  by (simp add: envelope_verify_def envelope_new_fields envelope_new_signature) (simp add: ensure_def)

lemma relay_payload_verifies:
  assumes lib: "crypto_lib_ok lib"
    and nick: "2 \<le> length (trim nickname)" "chars_count (trim nickname) \<le> 32"
  shows "verify_welcome lib json
           (welcome_with_endpoint lib json idn nickname recipient invite welcome tree endpoint cap secret)
           (identity_installation_id lib idn) expected =
         ensure (recipient = expected) ''Welcome recipient does not match local identity''"
    and "decode_welcome lib
           (welcome_with_endpoint lib json idn nickname recipient invite welcome tree endpoint cap secret) =
         Ok (invite, welcome, tree)"
    and "verify_welcome_applied lib (welcome_applied lib idn nickname recipient invite)
           (identity_installation_id lib idn) expected =
         (if recipient = expected then Ok invite
          else Err ''WelcomeApplied recipient does not match local identity'')"
    and "verify_relationship_removal_applied lib
           (relationship_removal_applied lib idn recipient removal epoch applied)
           (identity_installation_id lib idn) expected =
         (if recipient = expected then Ok removal
          else Err ''relationship removal ACK recipient mismatch'')"
proof -
  have card: "card_validate lib (card_from_identity lib idn (trim nickname)) = Ok ()"
    using nick by (simp add: card_from_identity_validates [OF lib] trim_idem)
  have torchat: "card_validate lib (card_from_identity lib idn ''TorChat'') = Ok ()"
    unfolding card_from_identity_validates [OF lib] by code_simp
  have decode: "b64_decode lib (b64_encode lib b) = Some b" for b
    using lib by (simp add: crypto_lib_ok_def)
  note own = verify_own_signature [OF lib]
  show "verify_welcome lib json
           (welcome_with_endpoint lib json idn nickname recipient invite welcome tree endpoint cap secret)
           (identity_installation_id lib idn) expected =
         ensure (recipient = expected) ''Welcome recipient does not match local identity''"
    by (simp add: welcome_with_endpoint_def Let_def card own) (simp add: ensure_def)
  show "decode_welcome lib
           (welcome_with_endpoint lib json idn nickname recipient invite welcome tree endpoint cap secret) =
         Ok (invite, welcome, tree)"
    by (simp add: welcome_with_endpoint_def Let_def decode)
  show "verify_welcome_applied lib (welcome_applied lib idn nickname recipient invite)
           (identity_installation_id lib idn) expected =
         (if recipient = expected then Ok invite
          else Err ''WelcomeApplied recipient does not match local identity'')"
    by (simp add: welcome_applied_def Let_def card own)
  show "verify_relationship_removal_applied lib
           (relationship_removal_applied lib idn recipient removal epoch applied)
           (identity_installation_id lib idn) expected =
         (if recipient = expected then Ok removal
          else Err ''relationship removal ACK recipient mismatch'')"
    by (simp add: relationship_removal_applied_def Let_def torchat own)
qed

text \<open>C10: Relay payloads round trip. A Welcome made by an identity for a recipient passes the
  recipient's verification and decodes to the invite id, Welcome and ratchet tree it was made from;
  the acknowledgement of a Welcome and of a relationship removal verify to the id they acknowledge;
  and each is rejected by any other recipient.\<close>

theorem relay_payloads_roundtrip:
  assumes lib: "crypto_lib_ok lib"
    and nick: "2 \<le> length (trim nickname)" "chars_count (trim nickname) \<le> 32"
  shows "(verify_welcome lib json
           (welcome_with_endpoint lib json idn nickname recipient invite welcome tree endpoint cap secret)
           (identity_installation_id lib idn) expected =
         ensure (recipient = expected) ''Welcome recipient does not match local identity'') \<and>
         (decode_welcome lib
           (welcome_with_endpoint lib json idn nickname recipient invite welcome tree endpoint cap secret) =
         Ok (invite, welcome, tree)) \<and>
         (verify_welcome_applied lib (welcome_applied lib idn nickname recipient invite)
           (identity_installation_id lib idn) expected =
         (if recipient = expected then Ok invite
          else Err ''WelcomeApplied recipient does not match local identity'')) \<and>
         (verify_relationship_removal_applied lib
           (relationship_removal_applied lib idn recipient removal epoch applied)
           (identity_installation_id lib idn) expected =
         (if recipient = expected then Ok removal
          else Err ''relationship removal ACK recipient mismatch''))"
  by (intro conjI relay_payload_verifies [OF assms])

lemma sample_crypto_ok: "crypto_lib_ok sample_crypto"
proof -
  have "word_of_nat (unat x mod 256) = x" for x :: "8 word"
    using unsigned_less [of x, where ?'a = nat] by simp
  then show ?thesis
    by (simp add: crypto_lib_ok_def sample_crypto_def as_bytes_def byte_of_def comp_def)
qed

theorem relay_payloads_roundtrip_witness:
  "decode_welcome sample_crypto (welcome_with_endpoint sample_crypto sample_json \<lparr>signing_key = [5]\<rparr> ''Ala''
     ''bob'' ''invite'' [1, 2] [3] None None None) = Ok (''invite'', [1, 2], [3])"
proof -
  have "2 \<le> length (trim ''Ala'')" "chars_count (trim ''Ala'') \<le> 32" by code_simp+
  then show ?thesis using relay_payloads_roundtrip [OF sample_crypto_ok, of "''Ala''"] by blast
qed

end
