(* ===== verification/Peer_Wire.thy ===== *)
theory Peer_Wire
  imports Signed_Statements Domain_Model
begin

text \<open>
  The peer transport's types (\<^verbatim>\<open>src/packages/torchat-peer/src/peer/types.rs\<close>) and its framing over
  a web socket (\<^verbatim>\<open>wire.rs\<close>).

  A web socket is a record of what the network does with it: the items its stream will yield, the
  results its next writes will have, and the frames written so far. A read past the end of the
  items is a read that times out.
\<close>

section \<open>Types\<close>

datatype peer_delivery_tag =
    TagMessage string
  | TagReceipt string
  | TagReadReceipt string
  | TagRelationshipRemovalAck string
  | TagEphemeral
  | TagProbe
  | TagEndpointUpdate
  | TagPresence bool
  | TagTyping bool
  | TagConversationFocus bool

fun dedupe_key :: "peer_delivery_tag \<Rightarrow> string option" where
  "dedupe_key (TagMessage message_id) = Some (''message:'' @ message_id)"
| "dedupe_key (TagReceipt message_id) = Some (''receipt:'' @ message_id)"
| "dedupe_key (TagReadReceipt receipt_id) = Some (''read-receipt:'' @ receipt_id)"
| "dedupe_key (TagRelationshipRemovalAck removal_id) = Some (''relationship-removal-ack:'' @ removal_id)"
| "dedupe_key TagEphemeral = None"
| "dedupe_key TagProbe = None"
| "dedupe_key TagEndpointUpdate = None"
| "dedupe_key (TagPresence _) = None"
| "dedupe_key (TagTyping _) = None"
| "dedupe_key (TagConversationFocus _) = None"

fun is_durable :: "peer_delivery_tag \<Rightarrow> bool" where
  "is_durable (TagMessage _) = True"
| "is_durable (TagReceipt _) = True"
| "is_durable (TagReadReceipt _) = True"
| "is_durable TagEndpointUpdate = True"
| "is_durable _ = False"

record peer_outbound_command =
  oc_endpoint :: peer_endpoint_bundle
  oc_capability_id :: string
  oc_capability_secret :: bytes
  oc_peer_public_key :: string
  oc_local_endpoint :: peer_endpoint_bundle
  oc_endpoint_updates :: "peer_endpoint_update list"
  oc_message_id :: "128 word"
  oc_conversation_id :: string
  oc_sequence :: "64 word"
  oc_created_at :: int
  oc_ciphertext :: bytes
  oc_delivery :: peer_delivery_tag
  oc_socks5_url :: string

datatype peer_transport_event =
    InboundMessage peer_message_envelope
  | AckEvent peer_delivery_tag peer_ack_kind string "64 word option"
  | EndpointUpdated peer_endpoint_bundle
  | PresenceChangedEvent string bool bool int int
  | TypingChangedEvent string bool int
  | FocusChangedEvent string bool int
  | IngressError string
  | ConnectionChanged string "128 word option" peer_connection_status "string option"
      "peer_delivery_tag option"

record authorized_peer =
  au_public_key :: string
  au_endpoint :: peer_endpoint_bundle
  au_local_endpoint :: peer_endpoint_bundle
  au_inbound_capability_id :: string
  au_capability_secret :: bytes

record shared_peer_state =
  sp_local_endpoint :: "peer_endpoint_bundle option"
  sp_authorized :: "(string \<times> authorized_peer) list"

definition set_local_endpoint :: "peer_endpoint_bundle \<Rightarrow> shared_peer_state \<Rightarrow> shared_peer_state" where
  "set_local_endpoint endpoint st = st\<lparr>sp_local_endpoint := Some endpoint\<rparr>"

definition authorize_contact ::
  "peer_endpoint_bundle \<Rightarrow> peer_endpoint_bundle \<Rightarrow> string \<Rightarrow> bytes \<Rightarrow> shared_peer_state \<Rightarrow> shared_peer_state" where
  "authorize_contact endpoint local_endpoint inbound_capability_id capability_secret st =
     st\<lparr>sp_authorized := hm_insert (ep_installation_id endpoint)
          \<lparr> au_public_key = ep_identity_public_key endpoint, au_endpoint = endpoint,
            au_local_endpoint = local_endpoint, au_inbound_capability_id = inbound_capability_id,
            au_capability_secret = capability_secret \<rparr> (sp_authorized st)\<rparr>"

section \<open>Frames over a web socket\<close>

datatype websocket_message =
    WsBinary bytes
  | WsClose
  | WsPing bytes
  | WsPong bytes
  | WsOther

datatype stream_item = Item websocket_message | ReadError string | StreamEnd

definition websocket_control_nonce :: "bytes \<Rightarrow> 64 word" where
  "websocket_control_nonce value =
     (let count = min (length value) 8 in
      horner_sum unsigned 256 (take count value @ replicate (8 - count) 0))"

definition decode_message :: "json_lib \<Rightarrow> websocket_message \<Rightarrow> bool \<Rightarrow> peer_frame option checked" where
  "decode_message json message authenticated =
     (case message of
        WsBinary value \<Rightarrow> and_then (decode_frame json value authenticated) (\<lambda>f. Ok (Some f))
      | WsClose \<Rightarrow> Ok None
      | WsPing value \<Rightarrow> Ok (Some (PingFrame (websocket_control_nonce value)))
      | WsPong value \<Rightarrow> Ok (Some (PongFrame (websocket_control_nonce value)))
      | WsOther \<Rightarrow> Err ''peer protocol requires binary websocket frames'')"

record web_socket =
  ws_items :: "stream_item list"
  ws_write_results :: "string option list"
  ws_written :: "bytes list"

type_synonym 'a ws_action = "(web_socket, string, 'a) action"

definition ws_next :: "string \<Rightarrow> stream_item ws_action" where
  "ws_next operation = (\<lambda>ws.
     case ws_items ws of
       [] \<Rightarrow> (Err (operation @ '' timed out''), ws)
     | item # rest \<Rightarrow> (Ok item, ws\<lparr>ws_items := rest\<rparr>))"

definition recv_frame_with_timeout :: "json_lib \<Rightarrow> bool \<Rightarrow> string \<Rightarrow> peer_frame ws_action" where
  "recv_frame_with_timeout json authenticated operation =
     seq (ws_next operation) (\<lambda>item.
     lift (case item of
             StreamEnd \<Rightarrow> Err ''peer websocket closed''
           | ReadError error \<Rightarrow> Err (''read peer websocket: '' @ error)
           | Item message \<Rightarrow>
               and_then (decode_message json message authenticated) (\<lambda>f.
               ok_or f ''peer websocket closed'')))"

definition ws_write :: "string \<Rightarrow> bytes \<Rightarrow> unit ws_action" where
  "ws_write context b = (\<lambda>ws.
     case ws_write_results ws of
       Some error # rest \<Rightarrow> (Err (context @ error), ws\<lparr>ws_write_results := rest\<rparr>)
     | results \<Rightarrow> (Ok (), ws\<lparr>ws_write_results := tl results, ws_written := ws_written ws @ [b]\<rparr>))"

definition send_frame :: "json_lib \<Rightarrow> peer_frame \<Rightarrow> unit ws_action" where
  "send_frame json frame =
     seq (lift (encode_frame json frame)) (\<lambda>b. ws_write ''write peer websocket: '' b)"

definition same_peer_endpoint :: "peer_endpoint_bundle \<Rightarrow> peer_endpoint_bundle \<Rightarrow> bool" where
  "same_peer_endpoint left right \<longleftrightarrow>
     ep_installation_id left = ep_installation_id right \<and>
     ep_identity_public_key left = ep_identity_public_key right \<and>
     ep_onion_address left = ep_onion_address right \<and>
     ep_virtual_port left = ep_virtual_port right \<and>
     ep_sequence left = ep_sequence right"

end
