(* ===== verification/Peer_Handshake.thy ===== *)
theory Peer_Handshake
  imports Peer_Wire
begin

text \<open>
  The mutual authentication of two peers: \<open>connect_outbound\<close> of
  \<^verbatim>\<open>src/packages/torchat-peer/src/peer/outbound.rs\<close> on the dialling side and \<open>authenticate_inbound\<close> of
  \<^verbatim>\<open>inbound.rs\<close> on the listening side, each as an action on its own web socket. Dialling through Tor and
  the HTTP upgrade are one result given to the client; fresh nonces and the session id are arguments.

  \<open>handshake_completes\<close> composes the two sides; \<open>handshake_agreement\<close> shows what each side knows about
  the other when it accepts.
\<close>

section \<open>The listening side\<close>

record inbound_session =
  is_peer_id :: string
  is_peer_key :: string
  is_peer_endpoint :: peer_endpoint_bundle
  is_session_id :: "128 word"

definition check_hello ::
  "crypto_lib \<Rightarrow> shared_peer_state \<Rightarrow> peer_client_hello \<Rightarrow> authorized_peer checked" where
  "check_hello lib st hello =
     and_then (ensure (ch_protocol_version hello = PROTOCOL_VERSION) ''unsupported peer protocol'') (\<lambda>_.
     and_then (ok_or (hm_get (ch_installation_id hello) (sp_authorized st))
       ''peer is not an authorized contact'') (\<lambda>authorized.
     and_then (ensure (\<not> ch_endpoint_sequence hello < ep_sequence (au_endpoint authorized))
       ''peer endpoint sequence is stale'') (\<lambda>_.
     and_then (ensure (\<not> (ch_capability_id hello = [] \<or>
                           ch_capability_id hello \<noteq> au_inbound_capability_id authorized))
       ''peer capability is not authorized'') (\<lambda>_.
     and_then (ensure (\<not> (au_capability_secret authorized = [] \<or>
                           \<not> verify_capability_proof lib (au_capability_secret authorized) hello))
       ''peer capability proof is invalid'') (\<lambda>_. Ok authorized)))))"

definition server_transcript ::
  "crypto_lib \<Rightarrow> identity \<Rightarrow> authorized_peer \<Rightarrow> peer_client_hello \<Rightarrow> bytes \<Rightarrow> 128 word \<Rightarrow> bytes" where
  "server_transcript lib idn authorized hello server_nonce session_id =
     handshake_transcript hello (identity_installation_id lib idn)
       (ep_sequence (au_local_endpoint authorized)) server_nonce session_id
       (ep_onion_address (au_local_endpoint authorized))"

definition authenticate_inbound ::
  "crypto_lib \<Rightarrow> json_lib \<Rightarrow> identity \<Rightarrow> shared_peer_state \<Rightarrow> bytes \<Rightarrow> 128 word \<Rightarrow> inbound_session ws_action" where
  "authenticate_inbound lib json idn st server_nonce session_id =
     seq (recv_frame_with_timeout json False ''peer client hello'') (\<lambda>frame.
     seq (lift (case frame of ClientHelloFrame hello \<Rightarrow> Ok hello
                | _ \<Rightarrow> Err ''expected peer client hello'')) (\<lambda>hello.
     seq (lift (check_hello lib st hello)) (\<lambda>authorized.
     let transcript = server_transcript lib idn authorized hello server_nonce session_id;
         challenge = \<lparr> sc_protocol_version = PROTOCOL_VERSION,
                       sc_installation_id = identity_installation_id lib idn,
                       sc_endpoint_sequence = ep_sequence (au_local_endpoint authorized),
                       sc_nonce = server_nonce, sc_session_id = session_id,
                       sc_signature = identity_sign lib idn transcript \<rparr> in
     seq (send_frame json (ServerChallengeFrame challenge)) (\<lambda>_.
     seq (recv_frame_with_timeout json False ''peer client proof'') (\<lambda>frame2.
     seq (lift (case frame2 of ClientProofFrame proof \<Rightarrow> Ok proof
                | _ \<Rightarrow> Err ''expected peer client proof'')) (\<lambda>proof.
     seq (lift (ensure (\<not> (cp_session_id proof \<noteq> session_id \<or>
            \<not> verify_signature lib (au_public_key authorized) transcript (cp_signature proof)))
          ''peer client proof is invalid'')) (\<lambda>_.
     seq (send_frame json (HandshakeAcceptedFrame session_id)) (\<lambda>_.
     return \<lparr> is_peer_id = ch_installation_id hello, is_peer_key = au_public_key authorized,
              is_peer_endpoint = au_endpoint authorized, is_session_id = session_id \<rparr>))))))))"

section \<open>The dialling side\<close>

definition client_hello :: "crypto_lib \<Rightarrow> identity \<Rightarrow> peer_outbound_command \<Rightarrow> bytes \<Rightarrow> peer_client_hello" where
  "client_hello lib idn command nonce =
     (let hello = \<lparr> ch_protocol_version = PROTOCOL_VERSION,
                    ch_installation_id = identity_installation_id lib idn,
                    ch_endpoint_sequence = ep_sequence (oc_local_endpoint command),
                    ch_capability_id = oc_capability_id command, ch_capability_proof = [],
                    ch_nonce = nonce \<rparr>
      in if oc_capability_secret command \<noteq> []
         then hello\<lparr>ch_capability_proof := capability_proof lib (oc_capability_secret command) hello\<rparr>
         else hello)"

record client_io =
  io_socket :: web_socket
  io_events :: "peer_transport_event list"

type_synonym 'a client_action = "(client_io, string, 'a) action"

definition client_event :: "peer_transport_event \<Rightarrow> unit client_action" where
  "client_event e = change (\<lambda>io. io\<lparr>io_events := io_events io @ [e]\<rparr>)"

definition on_socket :: "'a ws_action \<Rightarrow> 'a client_action" where
  "on_socket m = (\<lambda>io. case m (io_socket io) of (r, ws) \<Rightarrow> (r, io\<lparr>io_socket := ws\<rparr>))"

definition client_transcript ::
  "peer_outbound_command \<Rightarrow> peer_client_hello \<Rightarrow> peer_server_challenge \<Rightarrow> bytes" where
  "client_transcript command hello challenge =
     handshake_transcript hello (sc_installation_id challenge) (sc_endpoint_sequence challenge)
       (sc_nonce challenge) (sc_session_id challenge) (ep_onion_address (oc_endpoint command))"

definition check_challenge ::
  "crypto_lib \<Rightarrow> peer_outbound_command \<Rightarrow> peer_client_hello \<Rightarrow> peer_server_challenge \<Rightarrow> unit checked" where
  "check_challenge lib command hello challenge =
     and_then (ensure (\<not> (sc_installation_id challenge \<noteq> ep_installation_id (oc_endpoint command) \<or>
                           sc_endpoint_sequence challenge \<noteq> ep_sequence (oc_endpoint command)))
       ''peer server identity or endpoint sequence mismatch'') (\<lambda>_.
     ensure (verify_signature lib (oc_peer_public_key command)
         (client_transcript command hello challenge) (sc_signature challenge))
       ''peer server challenge signature is invalid'')"

definition connect_outbound ::
  "crypto_lib \<Rightarrow> json_lib \<Rightarrow> identity \<Rightarrow> peer_outbound_command \<Rightarrow> unit checked \<Rightarrow> bytes \<Rightarrow> 128 word client_action" where
  "connect_outbound lib json idn command dial nonce =
     (let installation_id = ep_installation_id (oc_endpoint command) in
     seq (lift (ensure (length (oc_capability_id command) = 16) ''peer capability id is unavailable'')) (\<lambda>_.
     seq (lift (ensure (\<not> length (oc_capability_secret command) < 16)
            ''peer capability secret is unavailable'')) (\<lambda>_.
     seq (client_event (ConnectionChanged installation_id None PcConnecting None (Some (oc_delivery command)))) (\<lambda>_.
     seq (lift dial) (\<lambda>_.
     seq (client_event (ConnectionChanged installation_id None PcAuthenticating None (Some (oc_delivery command)))) (\<lambda>_.
     let hello = client_hello lib idn command nonce in
     seq (on_socket (send_frame json (ClientHelloFrame hello))) (\<lambda>_.
     seq (on_socket (recv_frame_with_timeout json False ''peer server challenge'')) (\<lambda>frame.
     seq (lift (case frame of ServerChallengeFrame challenge \<Rightarrow> Ok challenge
                | _ \<Rightarrow> Err ''expected peer server challenge'')) (\<lambda>challenge.
     seq (lift (check_challenge lib command hello challenge)) (\<lambda>_.
     seq (on_socket (send_frame json (ClientProofFrame
            \<lparr> cp_session_id = sc_session_id challenge,
              cp_signature = identity_sign lib idn (client_transcript command hello challenge) \<rparr>))) (\<lambda>_.
     seq (on_socket (recv_frame_with_timeout json False ''peer handshake acceptance'')) (\<lambda>frame2.
     seq (lift (case frame2 of HandshakeAcceptedFrame session_id \<Rightarrow> Ok session_id
                | _ \<Rightarrow> Err ''expected peer handshake acceptance'')) (\<lambda>session_id.
     seq (lift (ensure (session_id = sc_session_id challenge) ''peer handshake session mismatch'')) (\<lambda>_.
     seq (client_event (ConnectionChanged installation_id (Some session_id) PcConnected None None)) (\<lambda>_.
     return session_id)))))))))))))))"

section \<open>Inversion\<close>

text \<open>What the serialisation crate guarantees of the handshake frames it reads: a \<open>[u8; 32]\<close> has 32
  bytes, and no text is longer than its serialisation.\<close>

definition frame_sizes_ok :: "json_lib \<Rightarrow> bool" where
  "frame_sizes_ok json \<longleftrightarrow>
     (\<forall>b hello. frame_from_slice json b = Ok (ClientHelloFrame hello) \<longrightarrow>
        length (ch_installation_id hello) \<le> length b \<and> length (ch_capability_id hello) \<le> length b \<and>
        length (ch_nonce hello) = 32) \<and>
     (\<forall>b challenge. frame_from_slice json b = Ok (ServerChallengeFrame challenge) \<longrightarrow>
        length (sc_installation_id challenge) \<le> length b \<and> length (sc_nonce challenge) = 32)"

lemma recv_frame_okE:
  assumes "recv_frame_with_timeout json False operation ws = (Ok f, ws')"
  obtains b where "length b \<le> MAX_PREAUTH_FRAME_BYTES" "frame_from_slice json b = Ok f"
    | n where "f = PingFrame n" | n where "f = PongFrame n"
  using assms
  by (auto simp: recv_frame_with_timeout_def ws_next_def decode_message_def decode_frame_def and_then_ok_iff
      ok_or_def not_less elim!: seq_okE split: list.splits stream_item.splits websocket_message.splits if_splits
      sum.splits option.splits)

lemma recv_hello_fits:
  assumes "frame_sizes_ok json" "recv_frame_with_timeout json False operation ws = (Ok (ClientHelloFrame hello), ws')"
  shows "bytes_fit (ch_installation_id hello) \<and> bytes_fit (ch_capability_id hello) \<and> bytes_fit (ch_nonce hello)"
  using assms(2) assms(1)
  by (cases rule: recv_frame_okE) (auto simp: frame_sizes_ok_def bytes_fit_def MAX_PREAUTH_FRAME_BYTES_def
      dest!: spec)

lemma recv_challenge_fits:
  assumes "frame_sizes_ok json"
    and "recv_frame_with_timeout json False operation ws = (Ok (ServerChallengeFrame challenge), ws')"
  shows "bytes_fit (sc_installation_id challenge) \<and> bytes_fit (sc_nonce challenge)"
  using assms(2) assms(1)
  by (cases rule: recv_frame_okE) (auto simp: frame_sizes_ok_def bytes_fit_def MAX_PREAUTH_FRAME_BYTES_def
      dest!: spec)

lemma lift_okE: "lift r s = (Ok x, s') \<Longrightarrow> (r = Ok x \<Longrightarrow> s' = s \<Longrightarrow> P) \<Longrightarrow> P"
  by simp

lemma on_socket_okE:
  assumes "on_socket m io = (Ok x, io')"
  obtains ws where "m (io_socket io) = (Ok x, ws)" "io' = io\<lparr>io_socket := ws\<rparr>"
  using assms by (auto simp: on_socket_def split: prod.splits)

lemma authenticate_okE:
  assumes "authenticate_inbound lib json idn st server_nonce session_id ws = (Ok r, ws')"
  obtains hello au signature ws1 where
    "recv_frame_with_timeout json False ''peer client hello'' ws = (Ok (ClientHelloFrame hello), ws1)"
    "check_hello lib st hello = Ok au"
    "verify_signature lib (au_public_key au) (server_transcript lib idn au hello server_nonce session_id)
       signature"
    "r = \<lparr> is_peer_id = ch_installation_id hello, is_peer_key = au_public_key au,
           is_peer_endpoint = au_endpoint au, is_session_id = session_id \<rparr>"
proof -
  have "\<exists>hello au ws1. recv_frame_with_timeout json False ''peer client hello'' ws = (Ok (ClientHelloFrame hello), ws1) \<and>
      check_hello lib st hello = Ok au \<and>
      (\<exists>signature. verify_signature lib (au_public_key au)
         (server_transcript lib idn au hello server_nonce session_id) signature) \<and>
      r = \<lparr> is_peer_id = ch_installation_id hello, is_peer_key = au_public_key au,
            is_peer_endpoint = au_endpoint au, is_session_id = session_id \<rparr>"
    using assms
    by (auto simp: authenticate_inbound_def Let_def elim!: seq_okE split: peer_frame.splits)
  then show thesis using that by blast
qed

lemma connect_okE:
  assumes "connect_outbound lib json idn command dial nonce io = (Ok session_id, io')"
  obtains challenge ws ws' where
    "length (oc_capability_id command) = 16" "16 \<le> length (oc_capability_secret command)" "dial = Ok ()"
    "recv_frame_with_timeout json False ''peer server challenge'' ws = (Ok (ServerChallengeFrame challenge), ws')"
    "check_challenge lib command (client_hello lib idn command nonce) challenge = Ok ()"
    "session_id = sc_session_id challenge"
  using assms
  by (auto simp: connect_outbound_def Let_def client_event_def elim!: seq_okE on_socket_okE split: peer_frame.splits)

section \<open>Agreement\<close>

text \<open>A signature scheme seen from outside: a signature verifies under a public key only over the bytes
  of a statement that the owner of the key has made.\<close>

definition unforgeable ::
  "crypto_lib \<Rightarrow> json_lib \<Rightarrow> (string \<Rightarrow> signed_statement set) \<Rightarrow> bool" where
  "unforgeable lib json made \<longleftrightarrow>
     (\<forall>public_key m signature. verify_signature lib public_key m signature \<longrightarrow>
        (\<exists>s \<in> made public_key. statement_fits lib json s \<and> statement_bytes lib json s = Ok m))"

definition same_hello :: "peer_client_hello \<Rightarrow> peer_client_hello \<Rightarrow> bool" where
  "same_hello h h' \<longleftrightarrow> h\<lparr>ch_capability_proof := []\<rparr> = h'\<lparr>ch_capability_proof := []\<rparr>"

lemma signed_transcript:
  assumes "invite_json_ok json" "unforgeable lib json made"
    and "statement_fits lib json (HandshakeStatement h server sequence nonce session onion)"
    and "verify_signature lib public_key (handshake_transcript h server sequence nonce session onion) signature"
  shows "\<exists>h'. same_hello h' h \<and> HandshakeStatement h' server sequence nonce session onion \<in> made public_key"
proof -
  obtain s where s: "s \<in> made public_key" "statement_fits lib json s"
      "statement_bytes lib json s = Ok (handshake_transcript h server sequence nonce session onion)"
    using assms(2,4) by (auto simp: unforgeable_def)
  have "claim_of lib json s = claim_of lib json (HandshakeStatement h server sequence nonce session onion)"
    by (rule statement_bytes_claim [OF assms(1) s(2) assms(3) s(3)]) simp
  then show ?thesis using s(1) by (cases s) (auto simp: same_hello_def)
qed

lemma client_hello_fields:
  "ch_installation_id (client_hello lib idn command nonce) = identity_installation_id lib idn"
  "ch_capability_id (client_hello lib idn command nonce) = oc_capability_id command"
  "ch_nonce (client_hello lib idn command nonce) = nonce"
  "ch_endpoint_sequence (client_hello lib idn command nonce) = ep_sequence (oc_local_endpoint command)"
  "ch_protocol_version (client_hello lib idn command nonce) = PROTOCOL_VERSION"
  by (simp_all add: client_hello_def Let_def)

lemma check_hello_ok:
  "check_hello lib st hello = Ok au \<longleftrightarrow>
     ch_protocol_version hello = PROTOCOL_VERSION \<and>
     hm_get (ch_installation_id hello) (sp_authorized st) = Some au \<and>
     ep_sequence (au_endpoint au) \<le> ch_endpoint_sequence hello \<and>
     ch_capability_id hello \<noteq> [] \<and> ch_capability_id hello = au_inbound_capability_id au \<and>
     au_capability_secret au \<noteq> [] \<and> verify_capability_proof lib (au_capability_secret au) hello"
  by (auto simp: check_hello_def and_then_ok_iff ok_or_def split: option.splits)

lemma client_agreement:
  assumes json: "invite_json_ok json" "frame_sizes_ok json"
    and sig: "unforgeable lib json made"
    and own: "bytes_fit (identity_installation_id lib idn)" "bytes_fit nonce"
  shows "bytes_fit (ep_onion_address (oc_endpoint command)) \<Longrightarrow>
         connect_outbound lib json idn command dial nonce io = (Ok session, io') \<Longrightarrow>
         \<exists>hello server_nonce. same_hello hello (client_hello lib idn command nonce) \<and>
           HandshakeStatement hello (ep_installation_id (oc_endpoint command))
             (ep_sequence (oc_endpoint command)) server_nonce session (ep_onion_address (oc_endpoint command))
           \<in> made (oc_peer_public_key command)"
proof -
  assume onion: "bytes_fit (ep_onion_address (oc_endpoint command))"
    and run: "connect_outbound lib json idn command dial nonce io = (Ok session, io')"
  from run show "\<exists>hello server_nonce. same_hello hello (client_hello lib idn command nonce) \<and>
           HandshakeStatement hello (ep_installation_id (oc_endpoint command))
             (ep_sequence (oc_endpoint command)) server_nonce session (ep_onion_address (oc_endpoint command))
           \<in> made (oc_peer_public_key command)"
  proof (cases rule: connect_okE)
    case (1 challenge w w')
    have "bytes_fit (oc_capability_id command)" using 1(1) by (simp add: bytes_fit_def)
    then have "\<exists>hello. same_hello hello (client_hello lib idn command nonce) \<and>
        HandshakeStatement hello (ep_installation_id (oc_endpoint command)) (ep_sequence (oc_endpoint command))
          (sc_nonce challenge) session (ep_onion_address (oc_endpoint command)) \<in> made (oc_peer_public_key command)"
      using 1(5,6) recv_challenge_fits [OF json(2) 1(4)] own onion
      by (intro signed_transcript [OF json(1) sig, where signature = "sc_signature challenge"])
        (auto simp: check_challenge_def and_then_ok_iff client_transcript_def client_hello_fields)
    then show ?thesis by blast
  qed
qed

lemma server_agreement:
  assumes json: "invite_json_ok json" "frame_sizes_ok json"
    and sig: "unforgeable lib json made"
    and own: "bytes_fit (identity_installation_id lib idn)" "bytes_fit nonce"
  shows "\<forall>(i, au) \<in> set (sp_authorized st). bytes_fit (ep_onion_address (au_local_endpoint au)) \<Longrightarrow>
         authenticate_inbound lib json idn st nonce session ws = (Ok r, ws') \<Longrightarrow>
         \<exists>hello hello' au. hm_get (is_peer_id r) (sp_authorized st) = Some au \<and>
           is_peer_id r = ch_installation_id hello \<and> is_peer_key r = au_public_key au \<and> is_session_id r = session \<and>
           ep_sequence (au_endpoint au) \<le> ch_endpoint_sequence hello \<and>
           verify_capability_proof lib (au_capability_secret au) hello \<and> same_hello hello' hello \<and>
           HandshakeStatement hello' (identity_installation_id lib idn) (ep_sequence (au_local_endpoint au))
             nonce session (ep_onion_address (au_local_endpoint au)) \<in> made (is_peer_key r)"
proof -
  assume onions: "\<forall>(i, au) \<in> set (sp_authorized st). bytes_fit (ep_onion_address (au_local_endpoint au))"
    and run: "authenticate_inbound lib json idn st nonce session ws = (Ok r, ws')"
  from run show "\<exists>hello hello' au. hm_get (is_peer_id r) (sp_authorized st) = Some au \<and>
           is_peer_id r = ch_installation_id hello \<and> is_peer_key r = au_public_key au \<and> is_session_id r = session \<and>
           ep_sequence (au_endpoint au) \<le> ch_endpoint_sequence hello \<and>
           verify_capability_proof lib (au_capability_secret au) hello \<and> same_hello hello' hello \<and>
           HandshakeStatement hello' (identity_installation_id lib idn) (ep_sequence (au_local_endpoint au))
             nonce session (ep_onion_address (au_local_endpoint au)) \<in> made (is_peer_key r)"
  proof (cases rule: authenticate_okE)
    case (1 hello au signature ws1)
    have au: "hm_get (ch_installation_id hello) (sp_authorized st) = Some au"
        "ep_sequence (au_endpoint au) \<le> ch_endpoint_sequence hello"
        "verify_capability_proof lib (au_capability_secret au) hello"
      using 1(2) by (simp_all add: check_hello_ok)
    have "bytes_fit (ep_onion_address (au_local_endpoint au))"
      using onions hm_get_in [OF au(1)] by auto
    then obtain hello' where "same_hello hello' hello"
        "HandshakeStatement hello' (identity_installation_id lib idn) (ep_sequence (au_local_endpoint au))
           nonce session (ep_onion_address (au_local_endpoint au)) \<in> made (au_public_key au)"
      using signed_transcript [OF json(1) sig _ 1(3) [unfolded server_transcript_def]]
        recv_hello_fits [OF json(2) 1(1)] own by auto
    then show ?thesis using 1(4) au by auto
  qed
qed


section \<open>Completion\<close>

definition fits_preauth :: "json_lib \<Rightarrow> peer_frame \<Rightarrow> bool" where
  "fits_preauth json f =
     (case frame_to_vec json f of Inl _ \<Rightarrow> False | Inr b \<Rightarrow> length b \<le> MAX_PREAUTH_FRAME_BYTES)"

definition idle_socket :: "bytes list \<Rightarrow> web_socket" where
  "idle_socket messages =
     \<lparr> ws_items = map (\<lambda>b. Item (WsBinary b)) messages, ws_write_results = [], ws_written = [] \<rparr>"

definition agreed_transcript ::
  "crypto_lib \<Rightarrow> identity \<Rightarrow> identity \<Rightarrow> peer_outbound_command \<Rightarrow> bytes \<Rightarrow> bytes \<Rightarrow> 128 word \<Rightarrow> bytes" where
  "agreed_transcript lib alice bob command nonce server_nonce session =
     handshake_transcript (client_hello lib alice command nonce) (identity_installation_id lib bob)
       (ep_sequence (oc_endpoint command)) server_nonce session (ep_onion_address (oc_endpoint command))"

definition handshake_frames ::
  "crypto_lib \<Rightarrow> identity \<Rightarrow> identity \<Rightarrow> peer_outbound_command \<Rightarrow> bytes \<Rightarrow> bytes \<Rightarrow> 128 word \<Rightarrow> peer_frame list" where
  "handshake_frames lib alice bob command nonce server_nonce session =
     (let transcript = agreed_transcript lib alice bob command nonce server_nonce session in
      [ClientHelloFrame (client_hello lib alice command nonce),
       ServerChallengeFrame
         \<lparr> sc_protocol_version = PROTOCOL_VERSION, sc_installation_id = identity_installation_id lib bob,
           sc_endpoint_sequence = ep_sequence (oc_endpoint command), sc_nonce = server_nonce,
           sc_session_id = session, sc_signature = identity_sign lib bob transcript \<rparr>,
       ClientProofFrame \<lparr> cp_session_id = session, cp_signature = identity_sign lib alice transcript \<rparr>,
       HandshakeAcceptedFrame session])"

lemma recv_binary:
  "ws_items ws = Item (WsBinary b) # rest \<Longrightarrow> length b \<le> MAX_PREAUTH_FRAME_BYTES \<Longrightarrow>
   frame_from_slice json b = Ok f \<Longrightarrow>
   recv_frame_with_timeout json False operation ws = (Ok f, ws\<lparr>ws_items := rest\<rparr>)"
  by (simp add: recv_frame_with_timeout_def seq_def ws_next_def decode_message_def decode_frame_def)

lemma send_binary:
  "frame_to_vec json f = Ok b \<Longrightarrow> ws_write_results ws = [] \<Longrightarrow>
   send_frame json f ws = (Ok (), ws\<lparr>ws_written := ws_written ws @ [b]\<rparr>)"
  by (cases ws) (simp add: send_frame_def encode_frame_def ws_write_def)

lemma capability_proof_verifies:
  "(\<And>b. b64_decode lib (b64_encode lib b) = Some b) \<Longrightarrow> oc_capability_secret command \<noteq> [] \<Longrightarrow>
   verify_capability_proof lib (oc_capability_secret command) (client_hello lib idn command nonce)"
  by (simp add: verify_capability_proof_def client_hello_def Let_def capability_proof_def
      capability_mac_input_def)

definition written :: "json_lib \<Rightarrow> peer_frame \<Rightarrow> bytes" where
  "written json f = (case frame_to_vec json f of Inl _ \<Rightarrow> [] | Inr b \<Rightarrow> b)"

lemma fits_preauthD:
  assumes "frame_json_ok json" "fits_preauth json f"
  shows "frame_to_vec json f = Ok (written json f)" "length (written json f) \<le> MAX_PREAUTH_FRAME_BYTES"
    "frame_from_slice json (written json f) = Ok f"
  using assms by (auto simp: fits_preauth_def written_def frame_json_ok_def split: sum.splits)

lemma recv_written:
  "frame_json_ok json \<Longrightarrow> fits_preauth json f \<Longrightarrow> ws_items ws = Item (WsBinary (written json f)) # rest \<Longrightarrow>
   recv_frame_with_timeout json False operation ws = (Ok f, ws\<lparr>ws_items := rest\<rparr>)"
  by (rule recv_binary [OF _ fits_preauthD(2,3)])

lemma send_written:
  "frame_json_ok json \<Longrightarrow> fits_preauth json f \<Longrightarrow> ws_write_results ws = [] \<Longrightarrow>
   send_frame json f ws = (Ok (), ws\<lparr>ws_written := ws_written ws @ [written json f]\<rparr>)"
  by (rule send_binary [OF fits_preauthD(1)])

lemma connect_runs:
  assumes json: "frame_json_ok json"
    and own: "verify_signature lib (identity_public_key lib bob)
       (agreed_transcript lib alice bob command nonce server_nonce session)
       (identity_sign lib bob (agreed_transcript lib alice bob command nonce server_nonce session))"
    and cap: "length (oc_capability_id command) = 16" "16 \<le> length (oc_capability_secret command)"
    and server: "ep_installation_id (oc_endpoint command) = identity_installation_id lib bob"
      "oc_peer_public_key command = identity_public_key lib bob"
    and frames: "handshake_frames lib alice bob command nonce server_nonce session = [h, c, p, a]"
    and fits: "fits_preauth json h" "fits_preauth json c" "fits_preauth json p" "fits_preauth json a"
  shows "connect_outbound lib json alice command (Ok ()) nonce
       \<lparr> io_socket = idle_socket [written json c, written json a], io_events = [] \<rparr> =
     (Ok session,
      \<lparr> io_socket = (idle_socket [])\<lparr>ws_written := [written json h, written json p]\<rparr>,
        io_events = [ConnectionChanged (ep_installation_id (oc_endpoint command)) None PcConnecting None
                       (Some (oc_delivery command)),
                     ConnectionChanged (ep_installation_id (oc_endpoint command)) None PcAuthenticating None
                       (Some (oc_delivery command)),
                     ConnectionChanged (ep_installation_id (oc_endpoint command)) (Some session) PcConnected
                       None None] \<rparr>)"
  using frames fits cap server own
  by (simp add: handshake_frames_def Let_def, elim conjE, hypsubst)
    (simp add: connect_outbound_def Let_def client_event_def on_socket_def recv_written [OF json]
      send_written [OF json] seq_def idle_socket_def check_challenge_def client_transcript_def
      agreed_transcript_def)

lemma authenticate_runs:
  assumes json: "frame_json_ok json"
    and own: "verify_signature lib (identity_public_key lib alice)
       (agreed_transcript lib alice bob command nonce server_nonce session)
       (identity_sign lib alice (agreed_transcript lib alice bob command nonce server_nonce session))"
    and hello: "check_hello lib st (client_hello lib alice command nonce) = Ok au"
      "au_public_key au = identity_public_key lib alice"
    and server: "ep_sequence (oc_endpoint command) = ep_sequence (au_local_endpoint au)"
      "ep_onion_address (oc_endpoint command) = ep_onion_address (au_local_endpoint au)"
    and frames: "handshake_frames lib alice bob command nonce server_nonce session = [h, c, p, a]"
    and fits: "fits_preauth json h" "fits_preauth json c" "fits_preauth json p" "fits_preauth json a"
  shows "authenticate_inbound lib json bob st server_nonce session
       (idle_socket [written json h, written json p]) =
     (Ok \<lparr> is_peer_id = identity_installation_id lib alice, is_peer_key = identity_public_key lib alice,
           is_peer_endpoint = au_endpoint au, is_session_id = session \<rparr>,
      (idle_socket [])\<lparr>ws_written := [written json c, written json a]\<rparr>)"
  using frames fits hello server own
  by (simp add: handshake_frames_def Let_def, elim conjE, hypsubst)
    (simp add: authenticate_inbound_def Let_def recv_written [OF json] send_written [OF json]
      seq_def idle_socket_def server_transcript_def agreed_transcript_def client_hello_fields)

text \<open>C9: A configured contact gets through. If the server has authorized the client with the capability
  and secret the client dials with, the client's view of the server's endpoint is the one advertised to
  it, and its own endpoint sequence is not behind, then the handshake completes: there are four byte
  messages such that each side, reading the two messages of the other, writes its own two and accepts,
  both with the same session id, and the client reports connecting, authenticating and connected.\<close>

theorem handshake_completes:
  assumes lib: "crypto_lib_ok lib" "frame_json_ok json"
    and au: "hm_get (identity_installation_id lib alice) (sp_authorized st) = Some au"
      "au_public_key au = identity_public_key lib alice"
      "au_inbound_capability_id au = oc_capability_id command" "length (oc_capability_id command) = 16"
      "au_capability_secret au = oc_capability_secret command" "16 \<le> length (oc_capability_secret command)"
      "ep_sequence (au_endpoint au) \<le> ep_sequence (oc_local_endpoint command)"
    and server: "ep_installation_id (oc_endpoint command) = identity_installation_id lib bob"
      "oc_peer_public_key command = identity_public_key lib bob"
      "ep_sequence (oc_endpoint command) = ep_sequence (au_local_endpoint au)"
      "ep_onion_address (oc_endpoint command) = ep_onion_address (au_local_endpoint au)"
    and fits: "list_all (fits_preauth json) (handshake_frames lib alice bob command nonce server_nonce session)"
  shows "\<exists>hello challenge answer accepted.
     connect_outbound lib json alice command (Ok ()) nonce
       \<lparr> io_socket = idle_socket [challenge, accepted], io_events = [] \<rparr> =
     (Ok session,
      \<lparr> io_socket = (idle_socket [])\<lparr>ws_written := [hello, answer]\<rparr>,
        io_events = [ConnectionChanged (ep_installation_id (oc_endpoint command)) None PcConnecting None
                       (Some (oc_delivery command)),
                     ConnectionChanged (ep_installation_id (oc_endpoint command)) None PcAuthenticating None
                       (Some (oc_delivery command)),
                     ConnectionChanged (ep_installation_id (oc_endpoint command)) (Some session) PcConnected
                       None None] \<rparr>) \<and>
     authenticate_inbound lib json bob st server_nonce session (idle_socket [hello, answer]) =
     (Ok \<lparr> is_peer_id = identity_installation_id lib alice, is_peer_key = identity_public_key lib alice,
           is_peer_endpoint = au_endpoint au, is_session_id = session \<rparr>,
      (idle_socket [])\<lparr>ws_written := [challenge, accepted]\<rparr>)"
proof -
  obtain h c p a where frames: "handshake_frames lib alice bob command nonce server_nonce session = [h, c, p, a]"
    by (simp add: handshake_frames_def Let_def)
  then have f: "fits_preauth json h" "fits_preauth json c" "fits_preauth json p" "fits_preauth json a"
    using fits by simp_all
  have "oc_capability_secret command \<noteq> []" using au(6) by auto
  then have "check_hello lib st (client_hello lib alice command nonce) = Ok au"
    using au capability_proof_verifies lib(1)
    by (auto simp: check_hello_ok client_hello_fields crypto_lib_ok_def)
  then show ?thesis
    using connect_runs [OF lib(2) verify_own_signature [OF lib(1)] au(4,6) server(1,2) frames f]
      authenticate_runs [OF lib(2) verify_own_signature [OF lib(1)] _ au(2) server(3,4) frames f] by blast
qed

definition sample_alice :: identity where
  "sample_alice = \<lparr> signing_key = [1] \<rparr>"

definition sample_bob :: identity where
  "sample_bob = \<lparr> signing_key = [2] \<rparr>"

definition sample_peer_endpoint :: "identity \<Rightarrow> peer_endpoint_bundle" where
  "sample_peer_endpoint idn = endpoint_new sample_crypto idn ''host.onion'' 1 0 None"

definition sample_command :: peer_outbound_command where
  "sample_command =
     \<lparr> oc_endpoint = sample_peer_endpoint sample_bob, oc_capability_id = ''0123456789abcdef'',
       oc_capability_secret = replicate 16 9, oc_peer_public_key = identity_public_key sample_crypto sample_bob,
       oc_local_endpoint = sample_peer_endpoint sample_alice, oc_endpoint_updates = [], oc_message_id = 3,
       oc_conversation_id = ''c'', oc_sequence = 1, oc_created_at = 0, oc_ciphertext = [1],
       oc_delivery = TagMessage ''m'', oc_socks5_url = ''socks5h://127.0.0.1:9050'' \<rparr>"

definition sample_authorized :: authorized_peer where
  "sample_authorized =
     \<lparr> au_public_key = identity_public_key sample_crypto sample_alice,
       au_endpoint = sample_peer_endpoint sample_alice, au_local_endpoint = sample_peer_endpoint sample_bob,
       au_inbound_capability_id = ''0123456789abcdef'', au_capability_secret = replicate 16 9 \<rparr>"

definition sample_shared :: shared_peer_state where
  "sample_shared =
     \<lparr> sp_local_endpoint = None,
       sp_authorized = [(identity_installation_id sample_crypto sample_alice, sample_authorized)] \<rparr>"

text \<open>A serialisation that can write the four frames of one handshake.\<close>

fun index_frame :: "peer_frame list \<Rightarrow> peer_frame \<Rightarrow> nat \<Rightarrow> bytes checked" where
  "index_frame [] f n = Err ''unsupported''"
| "index_frame (g # gs) f n = (if f = g then Ok (replicate n 0) else index_frame gs f (Suc n))"

definition frames_json :: "peer_frame list \<Rightarrow> json_lib" where
  "frames_json fs = sample_json\<lparr>frame_to_vec := (\<lambda>f. index_frame fs f 100),
     frame_from_slice := (\<lambda>b. if 100 \<le> length b \<and> length b < 100 + length fs then Ok (fs ! (length b - 100))
                               else Err ''unsupported'')\<rparr>"

lemma index_frame_nth:
  "index_frame fs f n = Ok b \<Longrightarrow> n \<le> length b \<and> length b < n + length fs \<and> fs ! (length b - n) = f"
  by (induction fs f n rule: index_frame.induct) (auto simp: nth_Cons' Suc_diff_le split: if_splits)

lemma frames_json_ok: "frame_json_ok (frames_json fs)"
  by (auto simp: frame_json_ok_def frames_json_def dest!: index_frame_nth)

lemma index_frame_in: "f \<in> set fs \<Longrightarrow> \<exists>b. index_frame fs f n = Ok b \<and> length b < n + length fs"
proof (induction fs f n rule: index_frame.induct)
  case (2 g gs f n)
  then show ?case by (cases "f = g") fastforce+
qed simp

lemma frames_fit: "length fs \<le> 4 \<Longrightarrow> list_all (fits_preauth (frames_json fs)) fs"
proof (unfold list_all_iff, rule ballI)
  fix f assume "length fs \<le> 4" "f \<in> set fs"
  then show "fits_preauth (frames_json fs) f"
    using index_frame_in [of f fs 100]
    by (auto simp: fits_preauth_def frames_json_def MAX_PREAUTH_FRAME_BYTES_def)
qed

definition sample_frames :: "peer_frame list" where
  "sample_frames = handshake_frames sample_crypto sample_alice sample_bob sample_command (replicate 32 4)
     (replicate 32 5) 77"

theorem handshake_completes_witness:
  "\<exists>hello challenge answer accepted io.
     connect_outbound sample_crypto (frames_json sample_frames) sample_alice sample_command (Ok ()) (replicate 32 4)
       \<lparr> io_socket = idle_socket [challenge, accepted], io_events = [] \<rparr> = (Ok 77, io) \<and>
     ws_written (io_socket io) = [hello, answer] \<and>
     ws_written (snd (authenticate_inbound sample_crypto (frames_json sample_frames) sample_bob sample_shared
       (replicate 32 5) 77 (idle_socket [hello, answer]))) = [challenge, accepted]"
proof -
  have "list_all (fits_preauth (frames_json sample_frames))
     (handshake_frames sample_crypto sample_alice sample_bob sample_command (replicate 32 4) (replicate 32 5) 77)"
    unfolding sample_frames_def [symmetric]
    by (rule frames_fit) (simp add: sample_frames_def handshake_frames_def Let_def)
  from handshake_completes [OF sample_crypto_ok frames_json_ok _ _ _ _ _ _ _ _ _ _ _ this, of sample_shared sample_authorized]
  show ?thesis
    by (fastforce simp: sample_shared_def sample_authorized_def hm_get_def sample_command_def sample_peer_endpoint_def
        endpoint_new_fields idle_socket_def)
qed

text \<open>A signature scheme under which only one transcript verifies.\<close>

definition sample_transcript :: bytes where
  "sample_transcript = agreed_transcript sample_crypto sample_alice sample_bob sample_command (replicate 32 4)
     (replicate 32 5) 77"

definition strict_crypto :: crypto_lib where
  "strict_crypto = sample_crypto\<lparr>ed25519_verify := (\<lambda>pk m sig. m = sample_transcript)\<rparr>"

definition strict_made :: "string \<Rightarrow> signed_statement set" where
  "strict_made public_key =
     {HandshakeStatement (client_hello sample_crypto sample_alice sample_command (replicate 32 4))
        (identity_installation_id sample_crypto sample_bob) 1 (replicate 32 5) 77 ''host.onion''}"

lemma strict_crypto_ids [simp]:
  "identity_installation_id strict_crypto = identity_installation_id sample_crypto"
  "identity_public_key strict_crypto = identity_public_key sample_crypto"
  "identity_sign strict_crypto = identity_sign sample_crypto"
  "client_hello strict_crypto = client_hello sample_crypto"
  "agreed_transcript strict_crypto = agreed_transcript sample_crypto"
  "handshake_frames strict_crypto = handshake_frames sample_crypto"
  by (simp_all add: fun_eq_iff strict_crypto_def identity_installation_id_def identity_public_key_def
      identity_sign_def client_hello_def capability_proof_def agreed_transcript_def handshake_frames_def Let_def)

lemma sample_onion: "ep_onion_address (oc_endpoint sample_command) = ''host.onion''"
  unfolding sample_command_def sample_peer_endpoint_def by (simp add: endpoint_new_fields, code_simp)

lemma sample_sizes:
  "length (identity_installation_id sample_crypto idn) = 32" "ep_sequence (oc_endpoint sample_command) = 1"
  "length (oc_capability_id sample_command) = 16"
  by (simp_all add: identity_installation_id_def sample_crypto_def sample_command_def sample_peer_endpoint_def
      endpoint_new_def Let_def)

lemma strict_unforgeable: "unforgeable strict_crypto json strict_made"
proof -
  have "verify_signature strict_crypto pk m s \<Longrightarrow> m = sample_transcript" for pk m s
    by (auto simp: verify_signature_def strict_crypto_def split: option.splits)
  then show ?thesis
    by (auto simp: unforgeable_def strict_made_def sample_transcript_def agreed_transcript_def sample_onion
        sample_sizes bytes_fit_def client_hello_fields)
qed

lemma sample_frames_sizes: "frame_sizes_ok (frames_json sample_frames)"
  by (auto simp: frame_sizes_ok_def frames_json_def sample_frames_def handshake_frames_def Let_def nth_Cons'
      client_hello_fields sample_sizes split: if_splits)

lemma strict_connects:
  "\<exists>c a io'. connect_outbound strict_crypto (frames_json sample_frames) sample_alice sample_command (Ok ())
     (replicate 32 4) \<lparr> io_socket = idle_socket [c, a], io_events = [] \<rparr> = (Ok 77, io')"
proof -
  have fits: "list_all (fits_preauth (frames_json sample_frames)) sample_frames"
    by (rule frames_fit) (simp add: sample_frames_def handshake_frames_def Let_def)
  have own: "verify_signature strict_crypto (identity_public_key sample_crypto sample_bob) sample_transcript
      (identity_sign sample_crypto sample_bob sample_transcript)"
    by (simp add: verify_signature_def strict_crypto_def sample_crypto_def identity_public_key_def identity_sign_def)
  obtain h c p a where f: "sample_frames = [h, c, p, a]"
    by (simp add: sample_frames_def handshake_frames_def Let_def)
  have "h \<in> set sample_frames" "c \<in> set sample_frames" "p \<in> set sample_frames" "a \<in> set sample_frames"
    unfolding f by simp_all
  note each = this [THEN fits [unfolded list_all_iff, THEN bspec]]
  have frames: "handshake_frames strict_crypto sample_alice sample_bob sample_command (replicate 32 4)
      (replicate 32 5) 77 = [h, c, p, a]"
    using f by (simp add: sample_frames_def)
  have command: "ep_installation_id (oc_endpoint sample_command) = identity_installation_id sample_crypto sample_bob"
      "oc_peer_public_key sample_command = identity_public_key sample_crypto sample_bob"
      "length (oc_capability_secret sample_command) = 16"
    by (simp_all add: sample_command_def sample_peer_endpoint_def endpoint_new_fields)
  have "connect_outbound strict_crypto (frames_json sample_frames) sample_alice sample_command (Ok ())
      (replicate 32 4) \<lparr> io_socket = idle_socket [written (frames_json sample_frames) c,
        written (frames_json sample_frames) a], io_events = [] \<rparr> \<in> {Ok 77} \<times> UNIV"
    using own command
    by (subst connect_runs [OF frames_json_ok _ _ _ _ _ frames each])
      (simp_all add: sample_transcript_def [symmetric] sample_sizes)
  then show ?thesis by auto
qed


end
