(* ===== verification/Peer_Session.thy ===== *)
theory Peer_Session
  imports Peer_Handshake
begin

text \<open>
  The outbound side of the peer transport: the command queues of one contact
  (\<^verbatim>\<open>src/packages/torchat-peer/src/peer/queue.rs\<close>), what is written for a command and what a
  received frame does (\<^verbatim>\<open>outbound.rs\<close>), and the session loop (\<^verbatim>\<open>session.rs\<close>).

  The state of a contact's task is the record \<open>peer_session\<close>. Its last field is a history variable,
  the durable commands taken into the queue so far; the frames written and the events sent are logs.
  A clock reading is an argument of each iteration of the loop, in milliseconds.
\<close>

section \<open>Command queues\<close>

record command_queues =
  cq_durable :: "peer_outbound_command list"
  cq_endpoint_update :: "peer_outbound_command option"
  cq_probe :: "peer_outbound_command option"
  cq_ephemeral :: "peer_outbound_command option"
  cq_dedupe :: "string set"

definition queues_default :: command_queues where
  "queues_default = \<lparr> cq_durable = [], cq_endpoint_update = None, cq_probe = None, cq_ephemeral = None,
     cq_dedupe = {} \<rparr>"

fun is_queued_tag :: "peer_delivery_tag \<Rightarrow> bool" where
  "is_queued_tag (TagMessage _) = True"
| "is_queued_tag (TagReceipt _) = True"
| "is_queued_tag (TagReadReceipt _) = True"
| "is_queued_tag _ = False"

definition insert_dedupe :: "peer_outbound_command \<Rightarrow> command_queues \<Rightarrow> bool \<times> command_queues" where
  "insert_dedupe command q =
     (case dedupe_key (oc_delivery command) of
        None \<Rightarrow> (True, q)
      | Some key \<Rightarrow> (key \<notin> cq_dedupe q, q\<lparr>cq_dedupe := insert key (cq_dedupe q)\<rparr>))"

definition enqueue :: "peer_outbound_command \<Rightarrow> command_queues \<Rightarrow> command_queues" where
  "enqueue command q =
     (if is_queued_tag (oc_delivery command) then
        (case insert_dedupe command q of
           (True, q') \<Rightarrow> q'\<lparr>cq_durable := cq_durable q' @ [command]\<rparr>
         | (False, q') \<Rightarrow> q')
      else if oc_delivery command = TagEndpointUpdate then q\<lparr>cq_endpoint_update := Some command\<rparr>
      else if oc_delivery command = TagProbe then q\<lparr>cq_probe := Some command\<rparr>
      else q\<lparr>cq_ephemeral := Some command\<rparr>)"

definition complete :: "peer_delivery_tag \<Rightarrow> command_queues \<Rightarrow> command_queues" where
  "complete delivery q =
     (case dedupe_key delivery of
        None \<Rightarrow> q
      | Some key \<Rightarrow> q\<lparr>cq_dedupe := cq_dedupe q - {key}\<rparr>)"

definition has_dial_worthy :: "command_queues \<Rightarrow> bool" where
  "has_dial_worthy q \<longleftrightarrow> cq_durable q \<noteq> [] \<or> cq_endpoint_update q \<noteq> None \<or> cq_probe q \<noteq> None"

definition queues_empty :: "command_queues \<Rightarrow> bool" where
  "queues_empty q \<longleftrightarrow>
     cq_durable q = [] \<and> cq_endpoint_update q = None \<and> cq_probe q = None \<and> cq_ephemeral q = None"

definition connection_template :: "command_queues \<Rightarrow> peer_outbound_command option" where
  "connection_template q =
     (case cq_durable q of
        command # _ \<Rightarrow> Some command
      | [] \<Rightarrow> (case cq_endpoint_update q of Some command \<Rightarrow> Some command | None \<Rightarrow> cq_probe q))"

definition pop_next :: "bool \<Rightarrow> command_queues \<Rightarrow> peer_outbound_command option \<times> command_queues" where
  "pop_next session_ready q =
     (case cq_durable q of
        command # rest \<Rightarrow> (Some command, q\<lparr>cq_durable := rest\<rparr>)
      | [] \<Rightarrow>
          (case cq_endpoint_update q of
             Some command \<Rightarrow> (Some command, q\<lparr>cq_endpoint_update := None\<rparr>)
           | None \<Rightarrow>
               (case cq_probe q of
                  Some command \<Rightarrow> (Some command, q\<lparr>cq_probe := None\<rparr>)
                | None \<Rightarrow>
                    if session_ready then (cq_ephemeral q, q\<lparr>cq_ephemeral := None\<rparr>) else (None, q))))"

definition push_front :: "peer_outbound_command \<Rightarrow> command_queues \<Rightarrow> command_queues" where
  "push_front command q =
     (if is_queued_tag (oc_delivery command) then q\<lparr>cq_durable := command # cq_durable q\<rparr>
      else if oc_delivery command = TagEndpointUpdate then q\<lparr>cq_endpoint_update := Some command\<rparr>
      else if oc_delivery command = TagProbe then q\<lparr>cq_probe := Some command\<rparr>
      else q\<lparr>cq_ephemeral := Some command\<rparr>)"

definition drop_ephemeral_without_session :: "command_queues \<Rightarrow> command_queues" where
  "drop_ephemeral_without_session q = q\<lparr>cq_ephemeral := None\<rparr>"

definition drain_failed :: "command_queues \<Rightarrow> peer_outbound_command list \<times> command_queues" where
  "drain_failed q =
     (let commands = cq_durable q @ (case cq_endpoint_update q of None \<Rightarrow> [] | Some command \<Rightarrow> [command]);
          q = q\<lparr>cq_durable := [], cq_endpoint_update := None, cq_probe := None, cq_ephemeral := None\<rparr>
      in (commands, fold (\<lambda>command. complete (oc_delivery command)) commands q))"

section \<open>Session state\<close>

definition ACK_TIMEOUT :: nat where "ACK_TIMEOUT = 60000"
definition SESSION_IDLE_TIMEOUT :: nat where "SESSION_IDLE_TIMEOUT = 90000"
definition KEEPALIVE_INTERVAL :: nat where "KEEPALIVE_INTERVAL = 25000"
definition KEEPALIVE_TIMEOUT :: nat where "KEEPALIVE_TIMEOUT = 15000"
definition MAX_IN_FLIGHT :: nat where "MAX_IN_FLIGHT = 1"

record active_delivery =
  ad_delivery :: peer_delivery_tag
  ad_expected_ciphertext_hash :: bytes
  ad_endpoint_sequence :: "64 word option"
  ad_sent_at :: nat

record endpoint_probe =
  pr_endpoint_sequence :: "64 word option"
  pr_sent_at :: nat
  pr_delivery :: peer_delivery_tag

record peer_session =
  ps_queues :: command_queues
  ps_active :: "(128 word \<times> active_delivery) list"
  ps_awaiting :: "(128 word \<times> active_delivery) list"
  ps_probes :: "(64 word \<times> endpoint_probe) list"
  ps_sent_endpoint_sequence :: "64 word"
  ps_last_activity :: nat
  ps_next_keepalive :: nat
  ps_keepalive :: "(64 word \<times> nat) option"
  ps_channel_open :: bool
  ps_write_results :: "string option list"
  ps_sent :: "(peer_delivery_tag option \<times> peer_frame) list"
  ps_events_open :: bool
  ps_events :: "peer_transport_event list"
  ps_accepted :: "peer_outbound_command list"

type_synonym 'a session_action = "(peer_session, string, 'a) action"

definition on_queues :: "(command_queues \<Rightarrow> command_queues) \<Rightarrow> peer_session \<Rightarrow> peer_session" where
  "on_queues f s = s\<lparr>ps_queues := f (ps_queues s)\<rparr>"

definition emit_event :: "peer_transport_event \<Rightarrow> peer_session \<Rightarrow> peer_session" where
  "emit_event e s = (if ps_events_open s then s\<lparr>ps_events := ps_events s @ [e]\<rparr> else s)"

definition emit_or_fail :: "peer_transport_event \<Rightarrow> unit session_action" where
  "emit_or_fail e = (\<lambda>s.
     if ps_events_open s then (Ok (), emit_event e s) else (Err ''peer event queue closed'', s))"

definition write_frame ::
  "json_lib \<Rightarrow> peer_delivery_tag option \<Rightarrow> string \<Rightarrow> peer_frame \<Rightarrow> unit session_action" where
  "write_frame json tag context frame = (\<lambda>s.
     case encode_frame json frame of
       Inl error \<Rightarrow> (Err error, s)
     | Inr _ \<Rightarrow>
         (case ps_write_results s of
            Some error # rest \<Rightarrow> (Err (context @ error), s\<lparr>ps_write_results := rest\<rparr>)
          | results \<Rightarrow> (Ok (), s\<lparr>ps_write_results := tl results, ps_sent := ps_sent s @ [(tag, frame)]\<rparr>)))"

text \<open>A command received from the engine.\<close>

definition receive_command :: "peer_outbound_command \<Rightarrow> peer_session \<Rightarrow> peer_session" where
  "receive_command command s =
     (on_queues (enqueue command) s)\<lparr>ps_accepted :=
        ps_accepted s @ (if is_queued_tag (oc_delivery command) \<and>
            dedupe_key (oc_delivery command) \<notin> Some ` cq_dedupe (ps_queues s) then [command] else [])\<rparr>"

section \<open>Writing a command\<close>

fun send_endpoint_updates ::
  "json_lib \<Rightarrow> peer_delivery_tag \<Rightarrow> peer_endpoint_update list \<Rightarrow> 64 word option \<Rightarrow> 64 word option session_action" where
  "send_endpoint_updates json tag [] latest = return latest"
| "send_endpoint_updates json tag (update # rest) latest = (\<lambda>s.
     if ep_sequence (eu_endpoint update) \<le> ps_sent_endpoint_sequence s
     then send_endpoint_updates json tag rest latest s
     else seq (write_frame json (Some tag) ''write peer endpoint update: '' (EndpointUpdateFrame update)) (\<lambda>_.
          seq (change (\<lambda>s. s\<lparr>ps_sent_endpoint_sequence := ep_sequence (eu_endpoint update)\<rparr>)) (\<lambda>_.
          send_endpoint_updates json tag rest (Some (ep_sequence (eu_endpoint update))))) s)"

definition send_control ::
  "json_lib \<Rightarrow> peer_delivery_tag \<Rightarrow> string \<Rightarrow> peer_frame \<Rightarrow> unit session_action" where
  "send_control json tag context frame =
     seq (write_frame json (Some tag) context frame) (\<lambda>_. change (on_queues (complete tag)))"

definition send_probe ::
  "json_lib \<Rightarrow> peer_delivery_tag \<Rightarrow> string \<Rightarrow> peer_frame \<Rightarrow> 64 word \<Rightarrow> 64 word option \<Rightarrow> nat \<Rightarrow> unit session_action" where
  "send_probe json tag context frame nonce latest now =
     seq (write_frame json (Some tag) context frame) (\<lambda>_.
     change (\<lambda>s. s\<lparr>ps_probes := hm_insert nonce
       \<lparr> pr_endpoint_sequence = latest, pr_sent_at = now, pr_delivery = tag \<rparr> (ps_probes s)\<rparr>))"

definition send_message ::
  "crypto_lib \<Rightarrow> json_lib \<Rightarrow> identity \<Rightarrow> 128 word \<Rightarrow> peer_outbound_command \<Rightarrow> 64 word option \<Rightarrow> nat \<Rightarrow>
   unit session_action" where
  "send_message lib json idn session_id command latest now =
     (let envelope = envelope_new lib idn session_id (oc_message_id command) (oc_conversation_id command)
            (oc_sequence command) (oc_created_at command) (oc_ciphertext command) in
     seq (write_frame json (Some (oc_delivery command)) ''write peer message: '' (MessageFrame envelope)) (\<lambda>_.
     change (\<lambda>s.
       if oc_delivery command = TagEphemeral then on_queues (complete (oc_delivery command)) s
       else s\<lparr>ps_active := hm_insert (oc_message_id command)
              \<lparr> ad_delivery = oc_delivery command, ad_expected_ciphertext_hash = ciphertext_hash lib envelope,
                ad_endpoint_sequence = latest, ad_sent_at = now \<rparr> (ps_active s)\<rparr>)))"

definition send_outbound_command ::
  "crypto_lib \<Rightarrow> json_lib \<Rightarrow> identity \<Rightarrow> 128 word \<Rightarrow> peer_outbound_command \<Rightarrow> int \<Rightarrow> nat \<Rightarrow> unit session_action" where
  "send_outbound_command lib json idn session_id command unix_ms now =
     (let tag = oc_delivery command; nonce = oc_sequence command in
      case tag of
        TagPresence online \<Rightarrow>
          send_control json tag ''write peer presence: ''
            (PresenceFrame (if online then PresenceOnline else PresenceAway) unix_ms (unix_ms + 45000) nonce)
      | TagTyping typing \<Rightarrow>
          send_control json tag ''write peer typing: '' (TypingFrame typing unix_ms (unix_ms + 5000) nonce)
      | TagConversationFocus focused \<Rightarrow>
          send_control json tag ''write conversation focus: ''
            (FocusFrame focused unix_ms (unix_ms + 30000) nonce)
      | _ \<Rightarrow>
          seq (send_endpoint_updates json tag (oc_endpoint_updates command) None) (\<lambda>latest.
          if tag = TagEndpointUpdate
          then send_probe json tag ''write peer endpoint probe: '' (PingFrame nonce) nonce latest now
          else if tag = TagProbe
          then send_probe json tag ''write peer probe request: '' (ProbeRequestFrame nonce) nonce latest now
          else send_message lib json idn session_id command latest now))"

section \<open>Handling a frame\<close>

definition settle_ack :: "128 word \<Rightarrow> peer_session \<Rightarrow> peer_session" where
  "settle_ack message_id s =
     (case hm_get message_id (ps_active s) of
        Some delivery \<Rightarrow>
          on_queues (complete (ad_delivery delivery)) (s\<lparr>ps_active := hm_remove message_id (ps_active s)\<rparr>)
      | None \<Rightarrow>
          (case hm_get message_id (ps_awaiting s) of
             Some delivery \<Rightarrow>
               on_queues (complete (ad_delivery delivery)) (s\<lparr>ps_awaiting := hm_remove message_id (ps_awaiting s)\<rparr>)
           | None \<Rightarrow> s))"

definition persist_ack :: "128 word \<Rightarrow> peer_session \<Rightarrow> peer_session" where
  "persist_ack message_id s =
     (case hm_get message_id (ps_active s) of
        None \<Rightarrow> s
      | Some delivery \<Rightarrow>
          let s = s\<lparr>ps_active := hm_remove message_id (ps_active s)\<rparr> in
          (case ad_delivery delivery of
             TagMessage _ \<Rightarrow> s\<lparr>ps_awaiting := hm_insert message_id delivery (ps_awaiting s)\<rparr>
           | _ \<Rightarrow> on_queues (complete (ad_delivery delivery)) s))"

definition handle_ack :: "string \<Rightarrow> 128 word \<Rightarrow> peer_ack \<Rightarrow> unit session_action" where
  "handle_ack installation_id session_id ack = (\<lambda>s.
     if pa_session_id ack \<noteq> session_id then (Ok (), s)
     else
       let found = (case hm_get (pa_message_id ack) (ps_active s) of
                      Some delivery \<Rightarrow> Some delivery
                    | None \<Rightarrow> hm_get (pa_message_id ack) (ps_awaiting s)) in
       (case found of
          None \<Rightarrow> (Ok (), s)
        | Some delivery \<Rightarrow>
            if pa_ciphertext_hash ack \<noteq> ad_expected_ciphertext_hash delivery
            then (Err ''peer acknowledgement ciphertext hash mismatch'', s)
            else
              let s = emit_event (AckEvent (ad_delivery delivery) (pa_kind ack) installation_id
                        (ad_endpoint_sequence delivery)) s in
              (Ok (), (case pa_kind ack of
                         AckReceived \<Rightarrow> s
                       | AckPersisted \<Rightarrow> persist_ack (pa_message_id ack) s
                       | AckDelivered \<Rightarrow> settle_ack (pa_message_id ack) s
                       | AckRejected \<Rightarrow> settle_ack (pa_message_id ack) s))))"

definition take_probe :: "string \<Rightarrow> 64 word \<Rightarrow> peer_session \<Rightarrow> peer_session" where
  "take_probe installation_id nonce s =
     (case hm_get nonce (ps_probes s) of
        None \<Rightarrow> s
      | Some probe \<Rightarrow>
          emit_event (AckEvent (pr_delivery probe) AckPersisted installation_id (pr_endpoint_sequence probe))
            (s\<lparr>ps_probes := hm_remove nonce (ps_probes s)\<rparr>))"

definition handle_outbound_frame ::
  "json_lib \<Rightarrow> peer_frame \<Rightarrow> string \<Rightarrow> 128 word \<Rightarrow> int \<Rightarrow> unit session_action" where
  "handle_outbound_frame json frame installation_id session_id unix_ms =
     (case frame of
        AckFrame ack \<Rightarrow> handle_ack installation_id session_id ack
      | PongFrame nonce \<Rightarrow>
          change (\<lambda>s. take_probe installation_id nonce
            (if map_option fst (ps_keepalive s) = Some nonce then s\<lparr>ps_keepalive := None\<rparr> else s))
      | PingFrame nonce \<Rightarrow> write_frame json None ''write peer pong: '' (PongFrame nonce)
      | PresenceFrame state _ expires_at _ \<Rightarrow>
          emit_or_fail (PresenceChangedEvent installation_id
            (state \<noteq> PresenceOffline \<and> expires_at \<ge> unix_ms) (state = PresenceAway) unix_ms expires_at)
      | TypingFrame typing _ expires_at _ \<Rightarrow>
          emit_or_fail (TypingChangedEvent installation_id (typing \<and> expires_at \<ge> unix_ms) expires_at)
      | FocusFrame focused _ expires_at _ \<Rightarrow>
          emit_or_fail (FocusChangedEvent installation_id (focused \<and> expires_at \<ge> unix_ms) expires_at)
      | ProbeRequestFrame nonce \<Rightarrow>
          write_frame json None ''write peer probe response: '' (ProbeResponseFrame nonce PresenceOnline unix_ms)
      | ProbeResponseFrame nonce presence _ \<Rightarrow>
          seq (change (take_probe installation_id nonce)) (\<lambda>_.
          emit_or_fail (PresenceChangedEvent installation_id (presence \<noteq> PresenceOffline)
            (presence = PresenceAway) unix_ms (unix_ms + 45000)))
      | EndpointUpdateFrame _ \<Rightarrow> return ()
      | MessageFrame _ \<Rightarrow> return ()
      | _ \<Rightarrow> throw ''unexpected outbound peer frame'')"

section \<open>Failures and expiry\<close>

definition fail_delivery :: "string \<Rightarrow> string \<Rightarrow> peer_delivery_tag \<Rightarrow> peer_session \<Rightarrow> peer_session" where
  "fail_delivery installation_id error delivery =
     emit_event (ConnectionChanged installation_id None PcBackoff (Some error) (Some delivery))"

definition complete_persisted_waiters :: "peer_session \<Rightarrow> peer_session" where
  "complete_persisted_waiters s =
     (on_queues (fold (\<lambda>(_, delivery). complete (ad_delivery delivery)) (ps_awaiting s)) s)\<lparr>ps_awaiting := []\<rparr>"

definition expire_persisted_waiters :: "nat \<Rightarrow> peer_session \<Rightarrow> peer_session" where
  "expire_persisted_waiters now s =
     (let expired = filter (\<lambda>(_, delivery). ACK_TIMEOUT \<le> now - ad_sent_at delivery) (ps_awaiting s) in
      fold (\<lambda>(message_id, _) s.
          case hm_get message_id (ps_awaiting s) of
            None \<Rightarrow> s
          | Some delivery \<Rightarrow>
              on_queues (complete (ad_delivery delivery))
                (s\<lparr>ps_awaiting := hm_remove message_id (ps_awaiting s)\<rparr>))
        expired s)"

definition fail_active_deliveries :: "string \<Rightarrow> string \<Rightarrow> peer_session \<Rightarrow> peer_session" where
  "fail_active_deliveries installation_id error s =
     complete_persisted_waiters
       (fold (\<lambda>(_, delivery) s. fail_delivery installation_id error (ad_delivery delivery)
                (on_queues (complete (ad_delivery delivery)) s))
          (ps_active s) (s\<lparr>ps_active := []\<rparr>))"

definition fail_queued_commands :: "string \<Rightarrow> string \<Rightarrow> peer_session \<Rightarrow> peer_session" where
  "fail_queued_commands installation_id error s =
     (case drain_failed (ps_queues s) of
        (commands, q) \<Rightarrow>
          fold (\<lambda>command s. if is_durable (oc_delivery command)
                             then fail_delivery installation_id error (oc_delivery command) s else s)
            commands (s\<lparr>ps_queues := q\<rparr>))"

section \<open>The connected session\<close>

datatype session_exit = Running | ClosedOk | ClosedErr string

record session_env =
  se_lib :: crypto_lib
  se_json :: json_lib
  se_identity :: identity
  se_installation_id :: string
  se_session_id :: "128 word"
  se_endpoint :: peer_endpoint_bundle

definition fail_session :: "session_env \<Rightarrow> string \<Rightarrow> peer_session \<Rightarrow> session_exit \<times> peer_session" where
  "fail_session env error s = (ClosedErr error, fail_active_deliveries (se_installation_id env) error s)"

definition queued_count :: "command_queues \<Rightarrow> nat" where
  "queued_count q = length (cq_durable q) + (if cq_endpoint_update q = None then 0 else 1) +
     (if cq_probe q = None then 0 else 1) + (if cq_ephemeral q = None then 0 else 1)"

text \<open>The inner loop that writes queued commands, with fuel; \<open>queued_count\<close> many rounds are enough
  (\<open>dispatch_enough\<close> below).\<close>

fun dispatch :: "nat \<Rightarrow> session_env \<Rightarrow> int \<Rightarrow> nat \<Rightarrow> peer_session \<Rightarrow> session_exit \<times> peer_session" where
  "dispatch 0 env unix_ms now s = (Running, s)"
| "dispatch (Suc fuel) env unix_ms now s =
     (if length (ps_active s) < MAX_IN_FLIGHT then
        (case pop_next True (ps_queues s) of
           (None, q) \<Rightarrow> (Running, s\<lparr>ps_queues := q\<rparr>)
         | (Some command, q) \<Rightarrow>
             if \<not> same_peer_endpoint (se_endpoint env) (oc_endpoint command) then
               let s = s\<lparr>ps_queues := push_front command q\<rparr> in
               if ps_active s = [] then (ClosedOk, complete_persisted_waiters s) else (Running, s)
             else
               (case send_outbound_command (se_lib env) (se_json env) (se_identity env) (se_session_id env)
                       command unix_ms now (s\<lparr>ps_queues := q\<rparr>) of
                  (Inl error, s') \<Rightarrow>
                    let s' = on_queues (complete (oc_delivery command)) s';
                        s' = (if is_durable (oc_delivery command)
                              then fail_delivery (se_installation_id env) error (oc_delivery command) s' else s')
                    in fail_session env error s'
                | (Inr _, s') \<Rightarrow> dispatch fuel env unix_ms now (s'\<lparr>ps_last_activity := now\<rparr>)))
      else (Running, s))"

definition ack_overdue :: "nat \<Rightarrow> peer_session \<Rightarrow> bool" where
  "ack_overdue now s \<longleftrightarrow>
     list_ex (\<lambda>(_, delivery). ACK_TIMEOUT \<le> now - ad_sent_at delivery) (ps_active s) \<or>
     list_ex (\<lambda>(_, probe). ACK_TIMEOUT \<le> now - pr_sent_at probe) (ps_probes s)"

definition session_quiet :: "peer_session \<Rightarrow> bool" where
  "session_quiet s \<longleftrightarrow>
     queues_empty (ps_queues s) \<and> ps_active s = [] \<and> ps_awaiting s = [] \<and> ps_probes s = []"

definition send_keepalive :: "session_env \<Rightarrow> 64 word \<Rightarrow> nat \<Rightarrow> peer_session \<Rightarrow> session_exit \<times> peer_session" where
  "send_keepalive env nonce now s =
     (if ps_next_keepalive s \<le> now then
        (case write_frame (se_json env) None ''write peer websocket keepalive: '' (PingFrame nonce) s of
           (Inl error, s') \<Rightarrow> fail_session env error s'
         | (Inr _, s') \<Rightarrow>
             (Running, s'\<lparr>ps_keepalive := Some (nonce, now + KEEPALIVE_TIMEOUT),
                          ps_next_keepalive := now + KEEPALIVE_INTERVAL\<rparr>))
      else (Running, s))"

definition then_run ::
  "session_exit \<times> peer_session \<Rightarrow> (peer_session \<Rightarrow> session_exit \<times> peer_session) \<Rightarrow> session_exit \<times> peer_session" where
  "then_run r k = (case r of (Running, s) \<Rightarrow> k s | (exit, s) \<Rightarrow> (exit, s))"

definition check_timers :: "session_env \<Rightarrow> 64 word \<Rightarrow> nat \<Rightarrow> peer_session \<Rightarrow> session_exit \<times> peer_session" where
  "check_timers env nonce now s =
     (let s = expire_persisted_waiters now s in
      if (case ps_keepalive s of None \<Rightarrow> False | Some (_, deadline) \<Rightarrow> deadline \<le> now)
      then fail_session env ''peer keepalive timed out'' s
      else if ack_overdue now s then fail_session env ''peer acknowledgement timed out'' s
      else then_run (send_keepalive env nonce now s) (\<lambda>s.
        if session_quiet s \<and> SESSION_IDLE_TIMEOUT \<le> now - ps_last_activity s then (ClosedOk, s)
        else if \<not> ps_channel_open s \<and> session_quiet s then (ClosedOk, s)
        else (Running, s)))"

datatype select_event =
    SelectCommand "peer_outbound_command option"
  | SelectItem stream_item
  | SelectTick

definition handle_item :: "session_env \<Rightarrow> stream_item \<Rightarrow> int \<Rightarrow> nat \<Rightarrow> peer_session \<Rightarrow> session_exit \<times> peer_session" where
  "handle_item env item unix_ms now s =
     (case item of
        ReadError error \<Rightarrow> fail_session env (''read peer websocket: '' @ error) s
      | StreamEnd \<Rightarrow> fail_session env ''peer websocket closed'' s
      | Item message \<Rightarrow>
          (case decode_message (se_json env) message True of
             Inl error \<Rightarrow> fail_session env error s
           | Inr None \<Rightarrow> fail_session env ''peer websocket closed'' s
           | Inr (Some frame) \<Rightarrow>
               (case handle_outbound_frame (se_json env) frame (se_installation_id env) (se_session_id env)
                       unix_ms (s\<lparr>ps_last_activity := now\<rparr>) of
                  (Inl error, s') \<Rightarrow> fail_session env error s'
                | (Inr _, s') \<Rightarrow> (Running, s'))))"

definition select_step ::
  "session_env \<Rightarrow> select_event \<Rightarrow> int \<Rightarrow> nat \<Rightarrow> peer_session \<Rightarrow> session_exit \<times> peer_session" where
  "select_step env event unix_ms now s =
     (case event of
        SelectCommand (Some command) \<Rightarrow> (Running, receive_command command s)
      | SelectCommand None \<Rightarrow> (Running, s\<lparr>ps_channel_open := False\<rparr>)
      | SelectItem item \<Rightarrow> handle_item env item unix_ms now s
      | SelectTick \<Rightarrow> (Running, s))"

definition session_iteration ::
  "session_env \<Rightarrow> peer_outbound_command list \<Rightarrow> 64 word \<Rightarrow> int \<Rightarrow> nat \<Rightarrow> select_event \<Rightarrow> peer_session \<Rightarrow>
   session_exit \<times> peer_session" where
  "session_iteration env pending nonce unix_ms now event s =
     (let s = fold receive_command pending s in
      then_run (dispatch (Suc (queued_count (ps_queues s))) env unix_ms now s) (\<lambda>s.
      then_run (check_timers env nonce now s) (\<lambda>s.
      select_step env event unix_ms now s)))"

section \<open>The task of a contact\<close>

definition begin_session :: "nat \<Rightarrow> peer_session \<Rightarrow> peer_session" where
  "begin_session now s =
     s\<lparr>ps_active := [], ps_awaiting := [], ps_probes := [], ps_sent_endpoint_sequence := 0,
       ps_last_activity := now, ps_next_keepalive := now + KEEPALIVE_INTERVAL, ps_keepalive := None\<rparr>"

text \<open>Dropping the lease of a session tells the engine that it is over.\<close>

definition drop_lease :: "string \<Rightarrow> 128 word \<Rightarrow> peer_session \<Rightarrow> peer_session" where
  "drop_lease installation_id session_id =
     emit_event (ConnectionChanged installation_id (Some session_id) PcOffline None None)"

definition session_start :: "peer_session \<Rightarrow> bool" where
  "session_start s \<longleftrightarrow> ps_queues s = queues_default \<and> ps_active s = [] \<and> ps_awaiting s = [] \<and> ps_probes s = [] \<and>
     ps_channel_open s \<and> ps_sent s = [] \<and> ps_events_open s \<and> ps_events s = [] \<and> ps_accepted s = []"

text \<open>A message command carries the id that names its envelope.\<close>

definition command_wf :: "(128 word \<Rightarrow> string) \<Rightarrow> peer_outbound_command \<Rightarrow> bool" where
  "command_wf id_text command \<longleftrightarrow>
     (\<forall>m. oc_delivery command = TagMessage m \<longrightarrow> m = id_text (oc_message_id command))"

definition event_wf :: "(128 word \<Rightarrow> string) \<Rightarrow> select_event \<Rightarrow> bool" where
  "event_wf id_text event \<longleftrightarrow> (\<forall>command. event = SelectCommand (Some command) \<longrightarrow> command_wf id_text command)"

type_synonym contact_task = "peer_session \<times> session_env option"

inductive contact_step :: "(128 word \<Rightarrow> string) \<Rightarrow> contact_task \<Rightarrow> contact_task \<Rightarrow> bool" for id_text where
  take_command:
    "command_wf id_text command \<Longrightarrow> contact_step id_text (s, None) (receive_command command s, None)"
| wait_command:
    "\<not> has_dial_worthy (ps_queues s) \<Longrightarrow> ps_channel_open s \<Longrightarrow> command_wf id_text command \<Longrightarrow>
     contact_step id_text (s, None) (on_queues drop_ephemeral_without_session (receive_command command s), None)"
| connected:
    "connection_template (ps_queues s) = Some command \<Longrightarrow>
     connect_outbound lib json idn command dial nonce \<lparr>io_socket = ws, io_events = ps_events s\<rparr> =
       (Ok session_id, \<lparr>io_socket = ws', io_events = events\<rparr>) \<Longrightarrow>
     contact_step id_text (s, None)
       (begin_session now (s\<lparr>ps_events := events\<rparr>),
        Some \<lparr> se_lib = lib, se_json = json, se_identity = idn, se_installation_id = installation_id,
               se_session_id = session_id, se_endpoint = oc_endpoint command \<rparr>)"
| connect_failed:
    "connection_template (ps_queues s) = Some command \<Longrightarrow>
     connect_outbound lib json idn command dial nonce \<lparr>io_socket = ws, io_events = ps_events s\<rparr> =
       (Err error, \<lparr>io_socket = ws', io_events = events\<rparr>) \<Longrightarrow>
     contact_step id_text (s, None) (fail_queued_commands installation_id error (s\<lparr>ps_events := events\<rparr>), None)"
| running:
    "list_all (command_wf id_text) pending \<Longrightarrow> event_wf id_text event \<Longrightarrow>
     session_iteration env pending nonce unix_ms now event s = (Running, s') \<Longrightarrow>
     contact_step id_text (s, Some env) (s', Some env)"
| closed:
    "list_all (command_wf id_text) pending \<Longrightarrow> event_wf id_text event \<Longrightarrow>
     session_iteration env pending nonce unix_ms now event s = (ClosedOk, s') \<Longrightarrow>
     contact_step id_text (s, Some env) (drop_lease (se_installation_id env) (se_session_id env) s', None)"
| failed:
    "list_all (command_wf id_text) pending \<Longrightarrow> event_wf id_text event \<Longrightarrow>
     session_iteration env pending nonce unix_ms now event s = (ClosedErr error, s') \<Longrightarrow>
     contact_step id_text (s, Some env)
       (fail_queued_commands (se_installation_id env) error
          (drop_lease (se_installation_id env) (se_session_id env) s'), None)"

definition contact_start :: "contact_task \<Rightarrow> bool" where
  "contact_start t \<longleftrightarrow> session_start (fst t) \<and> snd t = None"

end
