(* ===== verification/Peer_Pipeline.thy ===== *)
theory Peer_Pipeline
  imports Peer_Session "HOL-Library.Sublist"
begin

text \<open>
  What the sessions with a contact promise for durable deliveries. The abstract \<open>pipeline\<close> has a queue, at
  most one delivery in flight and the histories of acceptances, writes and reports; its invariant says
  that the wire keeps the order of acceptance, that no acceptance goes unreported and that the
  deduplication keys are exact. Every operation of \<open>Peer_Session\<close> is shown to be a sequence of pipeline
  steps (\<open>moves\<close>), the contact's task is an instance of \<open>invariant_system\<close>, and the theorems at the end
  state the promises over the session's own state.
\<close>

section \<open>The delivery pipeline\<close>

text \<open>What the session promises for durable deliveries, without envelopes, maps and timers: a queue, at
  most one delivery in flight, those confirmed as stored by the peer, the keys that block a second
  acceptance, and the histories of what was accepted, put on the wire and reported to the engine.\<close>

record pipeline =
  pl_waiting :: "peer_delivery_tag list"
  pl_flight :: "peer_delivery_tag list"
  pl_confirmed :: "peer_delivery_tag set"
  pl_keys :: "string set"
  pl_accepted :: "peer_delivery_tag list"
  pl_wire :: "peer_delivery_tag list"
  pl_reported :: "peer_delivery_tag list"

definition key_of :: "peer_delivery_tag \<Rightarrow> string" where
  "key_of t = (case dedupe_key t of None \<Rightarrow> [] | Some k \<Rightarrow> k)"

inductive pipe_step :: "pipeline \<Rightarrow> pipeline \<Rightarrow> bool" where
  accept: "is_queued_tag t \<Longrightarrow> key_of t \<notin> pl_keys p \<Longrightarrow>
    pipe_step p (p\<lparr>pl_waiting := pl_waiting p @ [t], pl_keys := insert (key_of t) (pl_keys p),
                  pl_accepted := pl_accepted p @ [t]\<rparr>)"
| start: "pl_waiting p = t # r \<Longrightarrow> pl_flight p = [] \<Longrightarrow>
    pipe_step p (p\<lparr>pl_waiting := r, pl_flight := [t], pl_wire := pl_wire p @ [t]\<rparr>)"
| refuse: "pl_waiting p = t # r \<Longrightarrow>
    pipe_step p (p\<lparr>pl_waiting := r, pl_keys := pl_keys p - {key_of t}, pl_reported := pl_reported p @ [t]\<rparr>)"
| report: "pipe_step p (p\<lparr>pl_reported := pl_reported p @ ts\<rparr>)"
| persist: "pl_flight p = [t] \<Longrightarrow>
    pipe_step p (p\<lparr>pl_flight := [], pl_confirmed := insert t (pl_confirmed p), pl_reported := pl_reported p @ [t]\<rparr>)"
| settle: "pl_flight p = [t] \<Longrightarrow>
    pipe_step p (p\<lparr>pl_flight := [], pl_keys := pl_keys p - {key_of t}, pl_reported := pl_reported p @ [t]\<rparr>)"
| retire: "t \<in> pl_confirmed p \<Longrightarrow>
    pipe_step p (p\<lparr>pl_confirmed := pl_confirmed p - {t}, pl_keys := pl_keys p - {key_of t}\<rparr>)"

definition pipe_shape :: "pipeline \<Rightarrow> bool" where
  "pipe_shape p \<longleftrightarrow>
     distinct (pl_waiting p @ pl_flight p) \<and> set (pl_waiting p @ pl_flight p) \<inter> pl_confirmed p = {} \<and>
     length (pl_flight p) \<le> 1 \<and> (\<forall>t \<in> set (pl_waiting p @ pl_flight p) \<union> pl_confirmed p. is_queued_tag t) \<and>
     pl_keys p = key_of ` (set (pl_waiting p @ pl_flight p) \<union> pl_confirmed p)"

definition pipe_order :: "pipeline \<Rightarrow> bool" where
  "pipe_order p \<longleftrightarrow> subseq (pl_wire p @ pl_waiting p) (pl_accepted p)"

definition pipe_reports :: "pipeline \<Rightarrow> bool" where
  "pipe_reports p \<longleftrightarrow>
     (\<forall>t. count_list (pl_accepted p) t \<le>
        count_list (pl_reported p) t + count_list (pl_waiting p @ pl_flight p) t)"

definition pipe_inv :: "pipeline \<Rightarrow> bool" where
  "pipe_inv p \<longleftrightarrow> pipe_shape p \<and> pipe_order p \<and> pipe_reports p"

lemma key_of_inject:
  "is_queued_tag s \<Longrightarrow> is_queued_tag t \<Longrightarrow> key_of s = key_of t \<longleftrightarrow> s = t"
  by (cases s; cases t) (simp_all add: key_of_def)

lemma key_of_image:
  "(\<forall>t \<in> T. is_queued_tag t) \<Longrightarrow> t \<in> T \<Longrightarrow> key_of ` T - {key_of t} = key_of ` (T - {t})"
  by (auto simp: key_of_inject)

lemma pipe_step_shape:
  assumes "pipe_step p p'" "pipe_shape p"
  shows "pipe_shape p'"
  using assms(1)
proof cases
  case (accept t)
  then show ?thesis using assms(2) by (auto simp: pipe_shape_def)
next
  case (refuse t r)
  have "pl_keys p - {key_of t} = key_of ` (set (pl_waiting p @ pl_flight p) \<union> pl_confirmed p - {t})"
    using assms(2) refuse(2) key_of_image [of "set (pl_waiting p @ pl_flight p) \<union> pl_confirmed p" t]
    by (simp add: pipe_shape_def)
  moreover have "set (pl_waiting p @ pl_flight p) \<union> pl_confirmed p - {t} = set (r @ pl_flight p) \<union> pl_confirmed p"
    using assms(2) refuse(2) by (auto simp: pipe_shape_def)
  ultimately show ?thesis using assms(2) refuse by (auto simp: pipe_shape_def)
next
  case (settle t)
  then show ?thesis using assms(2) by (auto simp: pipe_shape_def key_of_inject)
next
  case (retire t)
  then show ?thesis using assms(2) by (auto simp: pipe_shape_def key_of_inject)
qed (use assms(2) in \<open>auto simp: pipe_shape_def\<close>)

lemma pipe_step_order:
  assumes "pipe_step p p'" "pipe_order p"
  shows "pipe_order p'"
  using assms(1)
proof cases
  case (accept t)
  have "subseq ((pl_wire p @ pl_waiting p) @ [t]) (pl_accepted p @ [t])"
    using assms(2) by (intro list_emb_append_mono) (simp_all add: pipe_order_def)
  then show ?thesis using accept by (simp add: pipe_order_def)
next
  case (refuse t r)
  have "subseq (pl_wire p @ r) (pl_wire p @ pl_waiting p)"
    using refuse(2) by (simp add: subseq_append' list_emb_Cons)
  then show ?thesis
    using assms(2) refuse(1) by (auto simp: pipe_order_def intro: subseq_order.trans)
qed (use assms(2) in \<open>auto simp: pipe_order_def\<close>)

lemma pipe_step_reports:
  assumes "pipe_step p p'" "pipe_reports p"
  shows "pipe_reports p'"
  unfolding pipe_reports_def
proof
  fix t
  have old: "count_list (pl_accepted p) t \<le>
      count_list (pl_reported p) t + (count_list (pl_waiting p) t + count_list (pl_flight p) t)"
    using assms(2) by (simp add: pipe_reports_def)
  show "count_list (pl_accepted p') t \<le> count_list (pl_reported p') t + count_list (pl_waiting p' @ pl_flight p') t"
    using assms(1) old by cases auto
qed

lemma pipe_step_inv: "pipe_inv p \<Longrightarrow> pipe_step p p' \<Longrightarrow> pipe_inv p'"
  by (simp add: pipe_inv_def pipe_step_shape pipe_step_order pipe_step_reports)

abbreviation pipe_steps :: "pipeline \<Rightarrow> pipeline \<Rightarrow> bool" where
  "pipe_steps \<equiv> pipe_step\<^sup>*\<^sup>*"

lemma pipe_steps_inv: "pipe_steps p p' \<Longrightarrow> pipe_inv p \<Longrightarrow> pipe_inv p'"
  by (induction rule: rtranclp_induct) (auto intro: pipe_step_inv)

section \<open>The session refines the pipeline\<close>

fun wire_tag :: "peer_delivery_tag option \<times> peer_frame \<Rightarrow> peer_delivery_tag list" where
  "wire_tag (Some t, MessageFrame _) = (if is_queued_tag t then [t] else [])"
| "wire_tag _ = []"

fun report_tag :: "peer_transport_event \<Rightarrow> peer_delivery_tag list" where
  "report_tag (AckEvent t kind _ _) = (if kind = AckReceived then [] else [t])"
| "report_tag (ConnectionChanged _ None PcBackoff (Some _) (Some t)) = [t]"
| "report_tag _ = []"

definition flight_tags :: "(128 word \<times> active_delivery) list \<Rightarrow> peer_delivery_tag list" where
  "flight_tags active = filter is_queued_tag (map (ad_delivery \<circ> snd) active)"

definition pipeline_of :: "peer_session \<Rightarrow> pipeline" where
  "pipeline_of s =
     \<lparr> pl_waiting = map oc_delivery (cq_durable (ps_queues s)), pl_flight = flight_tags (ps_active s),
       pl_confirmed = (ad_delivery \<circ> snd) ` set (ps_awaiting s), pl_keys = cq_dedupe (ps_queues s),
       pl_accepted = map oc_delivery (ps_accepted s), pl_wire = concat (map wire_tag (ps_sent s)),
       pl_reported = concat (map report_tag (ps_events s)) \<rparr>"

definition slots_ok :: "(128 word \<Rightarrow> string) \<Rightarrow> command_queues \<Rightarrow> bool" where
  "slots_ok id_text q \<longleftrightarrow>
     (\<forall>c \<in> set (cq_durable q). is_queued_tag (oc_delivery c) \<and> command_wf id_text c) \<and>
     (\<forall>c. cq_endpoint_update q = Some c \<longrightarrow> oc_delivery c = TagEndpointUpdate) \<and>
     (\<forall>c. cq_probe q = Some c \<longrightarrow> oc_delivery c = TagProbe) \<and>
     (\<forall>c. cq_ephemeral q = Some c \<longrightarrow>
        \<not> is_queued_tag (oc_delivery c) \<and> oc_delivery c \<noteq> TagEndpointUpdate \<and> oc_delivery c \<noteq> TagProbe)"

definition maps_ok :: "(128 word \<Rightarrow> string) \<Rightarrow> (128 word \<times> active_delivery) list \<Rightarrow>
    (128 word \<times> active_delivery) list \<Rightarrow> bool" where
  "maps_ok id_text active awaiting \<longleftrightarrow>
     length active \<le> MAX_IN_FLIGHT \<and>
     (\<forall>(u, d) \<in> set active. \<forall>m. ad_delivery d = TagMessage m \<longrightarrow> m = id_text u) \<and>
     (\<forall>(u, d) \<in> set awaiting. ad_delivery d = TagMessage (id_text u)) \<and>
     distinct (map (ad_delivery \<circ> snd) awaiting)"

definition session_ok :: "(128 word \<Rightarrow> string) \<Rightarrow> peer_session \<Rightarrow> bool" where
  "session_ok id_text s \<longleftrightarrow>
     slots_ok id_text (ps_queues s) \<and> maps_ok id_text (ps_active s) (ps_awaiting s) \<and> ps_events_open s \<and>
     pipe_inv (pipeline_of s)"

text \<open>A move of the session from a good state leads to a good state, by moves of the pipeline.\<close>

definition moves :: "(128 word \<Rightarrow> string) \<Rightarrow> peer_session \<Rightarrow> peer_session \<Rightarrow> bool" where
  "moves id_text s s' \<longleftrightarrow>
     (session_ok id_text s \<longrightarrow> session_ok id_text s' \<and> pipe_steps (pipeline_of s) (pipeline_of s'))"

lemma moves_refl [simp]: "moves id_text s s"
  by (simp add: moves_def)

lemma moves_trans [trans]: "moves id_text s s' \<Longrightarrow> moves id_text s' s'' \<Longrightarrow> moves id_text s s''"
  by (auto simp: moves_def)

lemma movesI:
  assumes "session_ok id_text s \<Longrightarrow> pipe_steps (pipeline_of s) (pipeline_of s')"
    and "session_ok id_text s \<Longrightarrow> slots_ok id_text (ps_queues s')"
    and "session_ok id_text s \<Longrightarrow> maps_ok id_text (ps_active s') (ps_awaiting s')"
    and "session_ok id_text s \<Longrightarrow> ps_events_open s'"
  shows "moves id_text s s'"
  using assms pipe_steps_inv by (auto simp: moves_def session_ok_def)

lemma moves_fold:
  "(\<And>x s. moves id_text s (f x s)) \<Longrightarrow> moves id_text s (fold f xs s)"
  by (induction xs arbitrary: s) (auto intro: moves_trans)

lemma pipeline_eqI:
  "pl_waiting p = pl_waiting p' \<Longrightarrow> pl_flight p = pl_flight p' \<Longrightarrow> pl_confirmed p = pl_confirmed p' \<Longrightarrow>
   pl_keys p = pl_keys p' \<Longrightarrow> pl_accepted p = pl_accepted p' \<Longrightarrow> pl_wire p = pl_wire p' \<Longrightarrow>
   pl_reported p = pl_reported p' \<Longrightarrow> p = (p' :: pipeline)"
  by (cases p; cases p') simp

text \<open>A move that leaves the durable deliveries alone.\<close>

lemma moves_aside:
  assumes "ps_queues s' = ps_queues s" "ps_active s' = ps_active s" "ps_awaiting s' = ps_awaiting s"
    and "ps_accepted s' = ps_accepted s" "ps_events_open s' = ps_events_open s"
    and "concat (map wire_tag (ps_sent s')) = concat (map wire_tag (ps_sent s))"
    and "\<exists>es. ps_events s' = ps_events s @ es"
  shows "moves id_text s s'"
proof (rule movesI)
  obtain es where "ps_events s' = ps_events s @ es" using assms(7) by blast
  then have "pipeline_of s' =
      (pipeline_of s)\<lparr>pl_reported := pl_reported (pipeline_of s) @ concat (map report_tag es)\<rparr>"
    using assms(1-6) by (simp add: pipeline_of_def)
  then show "pipe_steps (pipeline_of s) (pipeline_of s')" by (auto intro: pipe_step.report)
qed (use assms in \<open>auto simp: session_ok_def\<close>)

lemma moves_emit: "moves id_text s (emit_event e s)"
  by (rule moves_aside) (simp_all add: emit_event_def)

lemma moves_same:
  assumes "session_ok id_text s \<Longrightarrow> pipeline_of s' = pipeline_of s"
    and "session_ok id_text s \<Longrightarrow> slots_ok id_text (ps_queues s')"
    and "session_ok id_text s \<Longrightarrow> maps_ok id_text (ps_active s') (ps_awaiting s')"
    and "session_ok id_text s \<Longrightarrow> ps_events_open s'"
  shows "moves id_text s s'"
  by (rule movesI) (use assms in auto)

lemma dedupe_queued: "is_queued_tag t \<Longrightarrow> dedupe_key t = Some (key_of t)"
  by (cases t) (simp_all add: key_of_def)

lemma moves_receive:
  assumes "command_wf id_text c"
  shows "moves id_text s (receive_command c s)"
proof (cases "is_queued_tag (oc_delivery c) \<and> key_of (oc_delivery c) \<notin> cq_dedupe (ps_queues s)")
  case True
  have "pipeline_of (receive_command c s) =
      (pipeline_of s)\<lparr>pl_waiting := pl_waiting (pipeline_of s) @ [oc_delivery c],
        pl_keys := insert (key_of (oc_delivery c)) (pl_keys (pipeline_of s)),
        pl_accepted := pl_accepted (pipeline_of s) @ [oc_delivery c]\<rparr>"
    using True by (auto simp: pipeline_of_def receive_command_def on_queues_def enqueue_def insert_dedupe_def
        dedupe_queued)
  moreover have "pipe_step (pipeline_of s) ((pipeline_of s)\<lparr>pl_waiting := pl_waiting (pipeline_of s) @ [oc_delivery c],
        pl_keys := insert (key_of (oc_delivery c)) (pl_keys (pipeline_of s)),
        pl_accepted := pl_accepted (pipeline_of s) @ [oc_delivery c]\<rparr>)"
    by (rule pipe_step.accept) (use True in \<open>simp_all add: pipeline_of_def\<close>)
  ultimately show ?thesis
    by (intro movesI) (use True assms in \<open>auto simp: session_ok_def slots_ok_def receive_command_def on_queues_def
        enqueue_def insert_dedupe_def dedupe_queued\<close>)
next
  case False
  then show ?thesis
    using assms
    by (intro moves_same) (auto simp: session_ok_def slots_ok_def receive_command_def on_queues_def pipeline_of_def
        enqueue_def insert_dedupe_def dedupe_queued insert_absorb)
qed

lemma complete_other:
  assumes "session_ok id_text s" "\<not> is_queued_tag t"
  shows "complete t (ps_queues s) = ps_queues s"
proof (cases t)
  case (TagRelationshipRemovalAck r)
  have "''relationship-removal-ack:'' @ r \<notin> key_of ` T" if "\<forall>x \<in> T. is_queued_tag x" for T
  proof
    assume "''relationship-removal-ack:'' @ r \<in> key_of ` T"
    then obtain x where "x \<in> T" "''relationship-removal-ack:'' @ r = key_of x" by blast
    then show False using that by (cases x) (auto simp: key_of_def)
  qed
  then have "''relationship-removal-ack:'' @ r \<notin> pl_keys (pipeline_of s)"
    using assms(1) by (auto simp: session_ok_def pipe_inv_def pipe_shape_def)
  then show ?thesis using TagRelationshipRemovalAck by (simp add: complete_def pipeline_of_def)
qed (use assms(2) in \<open>simp_all add: complete_def\<close>)

lemma complete_fields [simp]:
  "cq_durable (complete t q) = cq_durable q" "cq_endpoint_update (complete t q) = cq_endpoint_update q"
  "cq_probe (complete t q) = cq_probe q" "cq_ephemeral (complete t q) = cq_ephemeral q"
  by (simp_all add: complete_def split: option.splits)

lemma complete_queued: "is_queued_tag t \<Longrightarrow> cq_dedupe (complete t q) = cq_dedupe q - {key_of t}"
  by (simp add: complete_def dedupe_queued)

lemma slots_complete [simp]: "slots_ok id_text (complete t q) = slots_ok id_text q"
  by (simp add: slots_ok_def)

lemma hm_remove_single: "length m \<le> 1 \<Longrightarrow> hm_get u m = Some d \<Longrightarrow> m = [(u, d)] \<and> hm_remove u m = []"
  by (cases m) (auto simp: hm_get_def hm_remove_def split: if_splits)

lemma emit_fields [simp]:
  "ps_queues (emit_event e s) = ps_queues s" "ps_active (emit_event e s) = ps_active s"
  "ps_awaiting (emit_event e s) = ps_awaiting s" "ps_accepted (emit_event e s) = ps_accepted s"
  "ps_sent (emit_event e s) = ps_sent s" "ps_events_open (emit_event e s) = ps_events_open s"
  "ps_probes (emit_event e s) = ps_probes s"
  by (simp_all add: emit_event_def)

lemma emit_reports: "ps_events_open s \<Longrightarrow> ps_events (emit_event e s) = ps_events s @ [e]"
  by (simp add: emit_event_def)

lemma on_queues_fields [simp]:
  "ps_queues (on_queues f s) = f (ps_queues s)" "ps_active (on_queues f s) = ps_active s"
  "ps_awaiting (on_queues f s) = ps_awaiting s" "ps_accepted (on_queues f s) = ps_accepted s"
  "ps_sent (on_queues f s) = ps_sent s" "ps_events_open (on_queues f s) = ps_events_open s"
  "ps_events (on_queues f s) = ps_events s"
  by (simp_all add: on_queues_def)

lemma active_single:
  assumes "session_ok id_text s" "hm_get u (ps_active s) = Some d"
  shows "ps_active s = [(u, d)]" "hm_remove u (ps_active s) = []"
  using hm_remove_single [OF _ assms(2)] assms(1) by (auto simp: session_ok_def maps_ok_def MAX_IN_FLIGHT_def)

lemma session_okD:
  assumes "session_ok id_text s"
  shows "slots_ok id_text (ps_queues s)" "maps_ok id_text (ps_active s) (ps_awaiting s)" "ps_events_open s"
    "pipe_inv (pipeline_of s)"
  using assms by (simp_all add: session_ok_def)

text \<open>The end of the delivery in flight: an acknowledgement or a failure that is reported.\<close>

definition end_active :: "128 word \<Rightarrow> active_delivery \<Rightarrow> peer_session \<Rightarrow> peer_session" where
  "end_active u d s = on_queues (complete (ad_delivery d)) (s\<lparr>ps_active := hm_remove u (ps_active s)\<rparr>)"

lemma moves_end_active:
  assumes get: "hm_get u (ps_active s) = Some d" and rep: "report_tag e = [ad_delivery d]"
  shows "moves id_text s (end_active u d (emit_event e s))"
proof (rule movesI)
  assume ok: "session_ok id_text s"
  note a = active_single [OF ok get]
  show "maps_ok id_text (ps_active (end_active u d (emit_event e s))) (ps_awaiting (end_active u d (emit_event e s)))"
    using session_okD(2) [OF ok] a by (simp add: end_active_def maps_ok_def)
  show "pipe_steps (pipeline_of s) (pipeline_of (end_active u d (emit_event e s)))"
  proof (cases "is_queued_tag (ad_delivery d)")
    case True
    then have "pipeline_of (end_active u d (emit_event e s)) =
        (pipeline_of s)\<lparr>pl_flight := [], pl_keys := pl_keys (pipeline_of s) - {key_of (ad_delivery d)},
          pl_reported := pl_reported (pipeline_of s) @ [ad_delivery d]\<rparr>"
      using session_okD(3) [OF ok] rep a
      by (simp add: pipeline_of_def end_active_def emit_reports flight_tags_def complete_queued)
    moreover have "pl_flight (pipeline_of s) = [ad_delivery d]"
      using a True by (simp add: pipeline_of_def flight_tags_def)
    ultimately show ?thesis using pipe_step.settle by auto
  next
    case False
    then have "pipeline_of (end_active u d (emit_event e s)) =
        (pipeline_of s)\<lparr>pl_reported := pl_reported (pipeline_of s) @ [ad_delivery d]\<rparr>"
      using session_okD(3) [OF ok] complete_other [OF ok False] rep a
      by (simp add: pipeline_of_def end_active_def emit_reports flight_tags_def)
    then show ?thesis using pipe_step.report by auto
  qed
qed (simp_all add: session_ok_def end_active_def)

text \<open>The peer stored the message in flight.\<close>

definition confirm_active :: "128 word \<Rightarrow> active_delivery \<Rightarrow> peer_session \<Rightarrow> peer_session" where
  "confirm_active u d s = s\<lparr>ps_active := hm_remove u (ps_active s), ps_awaiting := hm_insert u d (ps_awaiting s)\<rparr>"

lemma hm_insert_new: "u \<notin> fst ` set m \<Longrightarrow> hm_insert u d m = m @ [(u, d)]"
  by (induction m) (auto simp: hm_insert_def)

lemma moves_confirm_active:
  assumes get: "hm_get u (ps_active s) = Some d" and msg: "ad_delivery d = TagMessage m"
    and rep: "report_tag e = [ad_delivery d]"
  shows "moves id_text s (confirm_active u d (emit_event e s))"
proof (rule movesI)
  assume ok: "session_ok id_text s"
  note a = active_single [OF ok get]
  have m: "m = id_text u" using session_okD(2) [OF ok] a msg by (simp add: maps_ok_def)
  have flight: "pl_flight (pipeline_of s) = [ad_delivery d]"
    using a msg by (simp add: pipeline_of_def flight_tags_def)
  then have fresh: "ad_delivery d \<notin> (ad_delivery \<circ> snd) ` set (ps_awaiting s)"
    using session_okD(4) [OF ok] by (auto simp: pipe_inv_def pipe_shape_def pipeline_of_def)
  then have "u \<notin> fst ` set (ps_awaiting s)"
    using session_okD(2) [OF ok] msg m by (force simp: maps_ok_def)
  note ins = hm_insert_new [OF this, of d]
  have "pipeline_of (confirm_active u d (emit_event e s)) =
      (pipeline_of s)\<lparr>pl_flight := [], pl_confirmed := insert (ad_delivery d) (pl_confirmed (pipeline_of s)),
        pl_reported := pl_reported (pipeline_of s) @ [ad_delivery d]\<rparr>"
    using session_okD(3) [OF ok] rep a ins
    by (simp add: pipeline_of_def confirm_active_def emit_reports flight_tags_def)
  then show "pipe_steps (pipeline_of s) (pipeline_of (confirm_active u d (emit_event e s)))"
    using pipe_step.persist [OF flight] by auto
  show "maps_ok id_text (ps_active (confirm_active u d (emit_event e s)))
          (ps_awaiting (confirm_active u d (emit_event e s)))"
    using session_okD(2) [OF ok] a ins fresh msg m by (auto simp: confirm_active_def maps_ok_def)
qed (simp_all add: session_ok_def confirm_active_def)

text \<open>A confirmed message leaves: delivered, rejected or expired.\<close>

definition retire_waiter :: "128 word \<Rightarrow> active_delivery \<Rightarrow> peer_session \<Rightarrow> peer_session" where
  "retire_waiter u d s = on_queues (complete (ad_delivery d)) (s\<lparr>ps_awaiting := hm_remove u (ps_awaiting s)\<rparr>)"

lemma moves_retire_waiter:
  assumes get: "hm_get u (ps_awaiting s) = Some d"
  shows "moves id_text s (retire_waiter u d s)"
proof (rule movesI)
  assume ok: "session_ok id_text s"
  have in_await: "(u, d) \<in> set (ps_awaiting s)" using get by (rule hm_get_in)
  then have tag: "ad_delivery d = TagMessage (id_text u)"
    using session_okD(2) [OF ok] by (auto simp: maps_ok_def)
  have inj: "(v, e) = (u, d)" if "(v, e) \<in> set (ps_awaiting s)" "ad_delivery e = ad_delivery d" for v e
    using session_okD(2) [OF ok] that in_await
      inj_onD [of "ad_delivery \<circ> snd" "set (ps_awaiting s)" "(v, e)" "(u, d)"]
    by (simp add: maps_ok_def distinct_map)
  have "(ad_delivery \<circ> snd) ` set (hm_remove u (ps_awaiting s)) =
      (ad_delivery \<circ> snd) ` set (ps_awaiting s) - {ad_delivery d}"
  proof -
    have "ad_delivery e = ad_delivery d \<longleftrightarrow> v = u" if "(v, e) \<in> set (ps_awaiting s)" for v e
      using inj [OF that] that session_okD(2) [OF ok] tag by (auto simp: maps_ok_def)
    then show ?thesis by (force simp: hm_remove_def)
  qed
  then have "pipeline_of (retire_waiter u d s) =
      (pipeline_of s)\<lparr>pl_confirmed := pl_confirmed (pipeline_of s) - {ad_delivery d},
        pl_keys := pl_keys (pipeline_of s) - {key_of (ad_delivery d)}\<rparr>"
    using tag by (simp add: pipeline_of_def retire_waiter_def complete_queued)
  moreover have "ad_delivery d \<in> pl_confirmed (pipeline_of s)"
    using in_await by (force simp: pipeline_of_def)
  ultimately show "pipe_steps (pipeline_of s) (pipeline_of (retire_waiter u d s))"
    using pipe_step.retire by auto
  show "maps_ok id_text (ps_active (retire_waiter u d s)) (ps_awaiting (retire_waiter u d s))"
    using session_okD(2) [OF ok]
    by (auto simp: retire_waiter_def maps_ok_def hm_remove_def distinct_map inj_on_def)
qed (simp_all add: session_ok_def retire_waiter_def)

lemma settle_ack_eq:
  "settle_ack u s =
     (case hm_get u (ps_active s) of Some d \<Rightarrow> end_active u d s
      | None \<Rightarrow> (case hm_get u (ps_awaiting s) of Some d \<Rightarrow> retire_waiter u d s | None \<Rightarrow> s))"
  by (simp add: settle_ack_def end_active_def retire_waiter_def split: option.splits)

lemma moves_settle_ack:
  assumes "\<And>d. hm_get u (ps_active s) = Some d \<Longrightarrow> report_tag e = [ad_delivery d]"
  shows "moves id_text s (settle_ack u (emit_event e s))"
proof (cases "hm_get u (ps_active s)")
  case None
  have "moves id_text (emit_event e s) (settle_ack u (emit_event e s))"
    using None by (auto simp: settle_ack_eq intro: moves_retire_waiter split: option.splits)
  then show ?thesis by (rule moves_trans [OF moves_emit])
next
  case (Some d)
  then show ?thesis using moves_end_active assms by (simp add: settle_ack_eq)
qed

lemma moves_persist_ack:
  assumes "\<And>d. hm_get u (ps_active s) = Some d \<Longrightarrow> report_tag e = [ad_delivery d]"
  shows "moves id_text s (persist_ack u (emit_event e s))"
proof (cases "hm_get u (ps_active s)")
  case None
  then show ?thesis by (simp add: persist_ack_def moves_emit)
next
  case (Some d)
  show ?thesis
  proof (cases "\<exists>m. ad_delivery d = TagMessage m")
    case True
    then have "persist_ack u (emit_event e s) = confirm_active u d (emit_event e s)"
      using Some by (auto simp: persist_ack_def confirm_active_def)
    then show ?thesis using True Some assms moves_confirm_active by auto
  next
    case False
    then have "persist_ack u (emit_event e s) = end_active u d (emit_event e s)"
      using Some by (auto simp: persist_ack_def end_active_def Let_def split: peer_delivery_tag.splits)
    then show ?thesis using Some assms moves_end_active by simp
  qed
qed

lemma moves_handle_ack: "moves id_text s (snd (handle_ack inst session ack s))"
proof -
  let ?u = "pa_message_id ack"
  show ?thesis
  proof (cases "hm_get ?u (ps_active s)")
    case (Some d)
    then show ?thesis
      by (cases "pa_kind ack")
        (auto simp: handle_ack_def Let_def moves_emit intro!: moves_settle_ack moves_persist_ack split: option.splits)
  next
    case None
    then show ?thesis
      by (cases "pa_kind ack")
        (auto simp: handle_ack_def Let_def moves_emit intro!: moves_settle_ack moves_persist_ack split: option.splits)
  qed
qed

lemma moves_write_frame:
  assumes "wire_tag (tag, frame) = []"
  shows "moves id_text s (snd (write_frame json tag context frame s))"
  by (rule moves_aside) (use assms in \<open>auto simp: write_frame_def split: sum.splits list.splits option.splits\<close>)

lemma moves_take_probe: "moves id_text s (take_probe inst nonce s)"
proof (cases "hm_get nonce (ps_probes s)")
  case (Some probe)
  have "moves id_text s (s\<lparr>ps_probes := hm_remove nonce (ps_probes s)\<rparr>)" by (rule moves_aside) simp_all
  then show ?thesis using Some by (auto simp: take_probe_def intro: moves_trans moves_emit)
qed (simp add: take_probe_def)

lemma moves_keepalive: "moves id_text s (s\<lparr>ps_keepalive := k\<rparr>)"
  by (rule moves_aside) simp_all

lemma moves_emit_or_fail: "moves id_text s (snd (emit_or_fail e s))"
  by (simp add: emit_or_fail_def moves_emit)

lemma snd_seq_moves:
  assumes "moves id_text s (snd (m s))" "\<And>x s. moves id_text s (snd (k x s))"
  shows "moves id_text s (snd (seq m k s))"
  using assms(1) by (auto simp: seq_def split: prod.splits sum.splits intro: moves_trans assms(2))

lemma moves_handle_frame: "moves id_text s (snd (handle_outbound_frame json frame inst session unix_ms s))"
proof (cases frame)
  case (PongFrame nonce)
  then show ?thesis
    by (auto simp: handle_outbound_frame_def intro: moves_take_probe moves_trans [OF moves_keepalive])
next
  case (ProbeResponseFrame nonce presence at)
  then show ?thesis
    by (auto simp: handle_outbound_frame_def intro: moves_trans [OF moves_take_probe moves_emit_or_fail])
qed (auto simp: handle_outbound_frame_def intro: moves_handle_ack moves_write_frame moves_emit_or_fail)

lemma report_backoff [simp]:
  "report_tag (ConnectionChanged inst None PcBackoff (Some error) (Some t)) = [t]"
  by simp

text \<open>Failing a session ends the delivery in flight with a report and forgets the confirmed ones, which
  were reported when the peer stored them.\<close>

lemma hm_remove_head: "hm_remove u ((u, d) # m) = hm_remove u m"
  by (simp add: hm_remove_def)

lemma moves_complete_waiters: "moves id_text s (complete_persisted_waiters s)"
proof (induction "ps_awaiting s" arbitrary: s)
  case Nil
  have "ps_awaiting s = []" using Nil by simp
  then have "complete_persisted_waiters s = s"
    by (cases s) (simp add: complete_persisted_waiters_def on_queues_def)
  then show ?case by simp
next
  case (Cons x rest)
  obtain u d where x: "x = (u, d)" by (cases x)
  have aw: "ps_awaiting s = (u, d) # rest" using Cons(2) x by simp
  show ?case
  proof (cases "session_ok id_text s")
    case True
    have fresh: "u \<notin> fst ` set rest"
      using session_okD(2) [OF True] aw by (force simp: maps_ok_def)
    then have rm: "hm_remove u (ps_awaiting s) = rest"
      by (force simp: aw hm_remove_def filter_id_conv)
    then have "complete_persisted_waiters (retire_waiter u d s) = complete_persisted_waiters s"
      by (simp add: complete_persisted_waiters_def retire_waiter_def on_queues_def) (simp add: aw)
    moreover have "moves id_text s (retire_waiter u d s)"
      by (rule moves_retire_waiter) (simp add: hm_get_def aw)
    moreover have "moves id_text (retire_waiter u d s) (complete_persisted_waiters (retire_waiter u d s))"
      by (rule Cons(1)) (simp add: retire_waiter_def rm)
    ultimately show ?thesis using moves_trans by metis
  qed (simp add: moves_def)
qed

lemma moves_expire: "moves id_text s (expire_persisted_waiters now s)"
  unfolding expire_persisted_waiters_def Let_def
proof (rule moves_fold)
  fix x s
  show "moves id_text s ((case x of (message_id, uu) \<Rightarrow> \<lambda>s.
      case hm_get message_id (ps_awaiting s) of None \<Rightarrow> s
      | Some delivery \<Rightarrow> on_queues (complete (ad_delivery delivery))
            (s\<lparr>ps_awaiting := hm_remove message_id (ps_awaiting s)\<rparr>)) s)"
    using moves_retire_waiter
    by (auto simp: retire_waiter_def [symmetric] split: prod.splits option.splits)
qed

lemma moves_fail_active: "moves id_text s (fail_active_deliveries inst error s)"
proof (cases "session_ok id_text s")
  case True
  have "length (ps_active s) \<le> 1" using session_okD(2) [OF True] by (simp add: maps_ok_def MAX_IN_FLIGHT_def)
  then consider "ps_active s = []" | u d where "ps_active s = [(u, d)]"
    by (cases "ps_active s") (auto simp: length_Suc_conv)
  then show ?thesis
  proof cases
    case 1
    then have "fail_active_deliveries inst error s = complete_persisted_waiters s"
      by (cases s) (simp add: fail_active_deliveries_def)
    then show ?thesis by (simp add: moves_complete_waiters)
  next
    case (2 u d)
    then have "fold (\<lambda>(_, delivery) s. fail_delivery inst error (ad_delivery delivery)
                (on_queues (complete (ad_delivery delivery)) s)) (ps_active s) (s\<lparr>ps_active := []\<rparr>) =
        end_active u d (emit_event (ConnectionChanged inst None PcBackoff (Some error) (Some (ad_delivery d))) s)"
      by (cases s) (simp add: fail_delivery_def end_active_def emit_event_def on_queues_def hm_remove_def)
    moreover have "moves id_text s
        (end_active u d (emit_event (ConnectionChanged inst None PcBackoff (Some error) (Some (ad_delivery d))) s))"
      using 2 by (intro moves_end_active) (simp_all add: hm_get_def)
    ultimately show ?thesis
      by (simp add: fail_active_deliveries_def moves_trans [OF _ moves_complete_waiters])
  qed
qed (simp add: moves_def)

lemma moves_fail_session: "moves id_text s (snd (fail_session env error s))"
  by (simp add: fail_session_def moves_fail_active)

text \<open>A queued delivery that is given up: taken from the queue, its key released, and reported.\<close>

lemma moves_refuse:
  assumes "cq_durable (ps_queues s) = c # rest" "report_tag e = [oc_delivery c]"
  shows "moves id_text s (emit_event e (on_queues (\<lambda>q. complete (oc_delivery c) (q\<lparr>cq_durable := rest\<rparr>)) s))"
    (is "moves _ s ?s")
proof (rule movesI)
  assume ok: "session_ok id_text s"
  have q: "is_queued_tag (oc_delivery c)" using session_okD(1) [OF ok] assms(1) by (simp add: slots_ok_def)
  have "pipeline_of ?s = (pipeline_of s)\<lparr>pl_waiting := map oc_delivery rest,
      pl_keys := pl_keys (pipeline_of s) - {key_of (oc_delivery c)},
      pl_reported := pl_reported (pipeline_of s) @ [oc_delivery c]\<rparr>"
    using session_okD(3) [OF ok] assms q by (simp add: pipeline_of_def emit_reports complete_queued)
  moreover have "pl_waiting (pipeline_of s) = oc_delivery c # map oc_delivery rest"
    using assms(1) by (simp add: pipeline_of_def)
  ultimately show "pipe_steps (pipeline_of s) (pipeline_of ?s)" using pipe_step.refuse by auto
  show "slots_ok id_text (ps_queues ?s)" using session_okD(1) [OF ok] assms(1) by (simp add: slots_ok_def)
qed (simp_all add: session_ok_def)

lemma pipe_refuse_all:
  "pipe_steps p (p\<lparr>pl_waiting := [], pl_keys := pl_keys p - key_of ` set (pl_waiting p),
     pl_reported := pl_reported p @ pl_waiting p\<rparr>)"
proof (induction "pl_waiting p" arbitrary: p)
  case Nil
  then show ?case by (cases p) simp
next
  case (Cons t r)
  let ?p = "p\<lparr>pl_waiting := r, pl_keys := pl_keys p - {key_of t}, pl_reported := pl_reported p @ [t]\<rparr>"
  have "pipe_step p ?p" by (rule pipe_step.refuse) (simp flip: Cons(2))
  moreover have "pipe_steps ?p (?p\<lparr>pl_waiting := [], pl_keys := pl_keys ?p - key_of ` set (pl_waiting ?p),
     pl_reported := pl_reported ?p @ pl_waiting ?p\<rparr>)" by (rule Cons(1)) simp
  ultimately show ?case
    by (simp add: Diff_insert2 [symmetric] flip: Cons(2))
qed

lemma fold_complete_fields [simp]:
  "cq_durable (fold (\<lambda>c. complete (oc_delivery c)) cs q) = cq_durable q"
  "cq_endpoint_update (fold (\<lambda>c. complete (oc_delivery c)) cs q) = cq_endpoint_update q"
  "cq_probe (fold (\<lambda>c. complete (oc_delivery c)) cs q) = cq_probe q"
  "cq_ephemeral (fold (\<lambda>c. complete (oc_delivery c)) cs q) = cq_ephemeral q"
  by (induction cs arbitrary: q) simp_all

lemma fold_complete_dedupe:
  "\<forall>c \<in> set cs. is_queued_tag (oc_delivery c) \<Longrightarrow>
   cq_dedupe (fold (\<lambda>c. complete (oc_delivery c)) cs q) = cq_dedupe q - key_of ` oc_delivery ` set cs"
  by (induction cs arbitrary: q) (auto simp: complete_queued)

lemma fail_fold_fields:
  "ps_queues (fold (\<lambda>c s. if is_durable (oc_delivery c) then fail_delivery inst error (oc_delivery c) s else s) cs s) = ps_queues s"
  "ps_active (fold (\<lambda>c s. if is_durable (oc_delivery c) then fail_delivery inst error (oc_delivery c) s else s) cs s) = ps_active s"
  "ps_awaiting (fold (\<lambda>c s. if is_durable (oc_delivery c) then fail_delivery inst error (oc_delivery c) s else s) cs s) = ps_awaiting s"
  "ps_accepted (fold (\<lambda>c s. if is_durable (oc_delivery c) then fail_delivery inst error (oc_delivery c) s else s) cs s) = ps_accepted s"
  "ps_sent (fold (\<lambda>c s. if is_durable (oc_delivery c) then fail_delivery inst error (oc_delivery c) s else s) cs s) = ps_sent s"
  "ps_events_open (fold (\<lambda>c s. if is_durable (oc_delivery c) then fail_delivery inst error (oc_delivery c) s else s) cs s) = ps_events_open s"
  by (induction cs arbitrary: s) (simp_all add: fail_delivery_def)

lemma fail_fold_reports:
  "ps_events_open s \<Longrightarrow> \<forall>c \<in> set cs. is_durable (oc_delivery c) \<Longrightarrow>
   concat (map report_tag (ps_events (fold (\<lambda>c s. if is_durable (oc_delivery c)
      then fail_delivery inst error (oc_delivery c) s else s) cs s))) =
   concat (map report_tag (ps_events s)) @ map oc_delivery cs"
  by (induction cs arbitrary: s) (simp_all add: fail_delivery_def emit_reports)

lemma queued_durable: "is_queued_tag t \<Longrightarrow> is_durable t"
  by (cases t) simp_all

lemma moves_fail_queued: "moves id_text s (fail_queued_commands inst error s)"
proof (rule movesI)
  assume ok: "session_ok id_text s"
  let ?q = "ps_queues s" and ?s = "fail_queued_commands inst error s"
  define update where "update = (case cq_endpoint_update ?q of None \<Rightarrow> [] | Some c \<Rightarrow> [c])"
  have queued: "\<forall>c \<in> set (cq_durable ?q). is_queued_tag (oc_delivery c)"
    and upd: "\<forall>c \<in> set update. oc_delivery c = TagEndpointUpdate"
    using session_okD(1) [OF ok] by (auto simp: slots_ok_def update_def split: option.splits)
  then have durable: "\<forall>c \<in> set (cq_durable ?q @ update). is_durable (oc_delivery c)"
    using queued_durable by auto
  have "fold (\<lambda>c. complete (oc_delivery c)) update q = q" for q
    using upd by (auto simp: update_def complete_def split: option.splits)
  then have dedupe: "cq_dedupe (fold (\<lambda>c. complete (oc_delivery c)) (cq_durable ?q @ update) q) =
      cq_dedupe q - key_of ` oc_delivery ` set (cq_durable ?q)" for q
    using fold_complete_dedupe [OF queued] by simp
  have "pipeline_of ?s = (pipeline_of s)\<lparr>pl_waiting := [],
      pl_keys := pl_keys (pipeline_of s) - key_of ` set (pl_waiting (pipeline_of s)),
      pl_reported := pl_reported (pipeline_of s) @ pl_waiting (pipeline_of s) @ map oc_delivery update\<rparr>"
    using session_okD(3) [OF ok]
    by (simp add: fail_queued_commands_def drain_failed_def Let_def update_def [symmetric] pipeline_of_def
        fail_fold_fields fail_fold_reports [OF _ durable] dedupe del: fold_append)
  moreover have "pipe_steps (pipeline_of s) ((pipeline_of s)\<lparr>pl_waiting := [],
      pl_keys := pl_keys (pipeline_of s) - key_of ` set (pl_waiting (pipeline_of s)),
      pl_reported := pl_reported (pipeline_of s) @ pl_waiting (pipeline_of s) @ map oc_delivery update\<rparr>)"
    using rtranclp.rtrancl_into_rtrancl [OF pipe_refuse_all pipe_step.report [of _ "map oc_delivery update"]] by simp
  ultimately show "pipe_steps (pipeline_of s) (pipeline_of ?s)" by simp
qed (simp_all add: session_ok_def fail_queued_commands_def drain_failed_def Let_def fail_fold_fields slots_ok_def
    del: fold_append)

section \<open>Writing queued commands\<close>

definition wires :: "peer_session \<Rightarrow> peer_delivery_tag list" where
  "wires s = concat (map wire_tag (ps_sent s))"

definition core_eq :: "peer_session \<Rightarrow> peer_session \<Rightarrow> bool" where
  "core_eq s s' \<longleftrightarrow>
     ps_queues s' = ps_queues s \<and> ps_active s' = ps_active s \<and> ps_awaiting s' = ps_awaiting s \<and>
     ps_accepted s' = ps_accepted s \<and> ps_events s' = ps_events s \<and> ps_events_open s' = ps_events_open s"

lemma moves_core: "core_eq s s' \<Longrightarrow> wires s' = wires s \<Longrightarrow> moves id_text s s'"
  by (rule moves_aside) (simp_all add: core_eq_def wires_def)

lemma core_eq_trans [trans]: "core_eq s s' \<Longrightarrow> core_eq s' s'' \<Longrightarrow> core_eq s s''"
  by (simp add: core_eq_def)

lemma write_frame_effect:
  assumes "write_frame json tag context frame s = (r, s')"
  shows "core_eq s s' \<and> wires s' = wires s @ (case r of Inl _ \<Rightarrow> [] | Inr _ \<Rightarrow> wire_tag (tag, frame))"
  using assms by (auto simp: write_frame_def core_eq_def wires_def split: sum.splits list.splits option.splits)

lemma send_updates_effect:
  "send_endpoint_updates json tag updates latest s = (r, s') \<Longrightarrow> core_eq s s' \<and> wires s' = wires s"
proof (induction updates arbitrary: latest s)
  case Nil
  then show ?case by (simp add: core_eq_def return_def)
next
  case (Cons update rest)
  show ?case
  proof (cases "ep_sequence (eu_endpoint update) \<le> ps_sent_endpoint_sequence s")
    case True
    then show ?thesis using Cons by simp
  next
    case False
    obtain w s1 where w: "write_frame json (Some tag) ''write peer endpoint update: '' (EndpointUpdateFrame update) s = (w, s1)"
      by fastforce
    have s1: "core_eq s s1" "wires s1 = wires s"
      using write_frame_effect [OF w] by (auto split: sum.splits)
    show ?thesis
    proof (cases w)
      case (Inl e)
      then show ?thesis using Cons(2) False w s1 by (simp add: seq_def)
    next
      case (Inr x)
      let ?s = "s1\<lparr>ps_sent_endpoint_sequence := ep_sequence (eu_endpoint update)\<rparr>"
      have "core_eq ?s s' \<and> wires s' = wires ?s"
        using Cons(2) False w Inr by (intro Cons(1)) (simp add: seq_def change_def)
      then show ?thesis using s1 by (simp add: core_eq_def wires_def)
    qed
  qed
qed

lemma complete_keyless: "dedupe_key t = None \<Longrightarrow> complete t q = q"
  by (simp add: complete_def)

fun is_tracked :: "peer_delivery_tag \<Rightarrow> bool" where
  "is_tracked (TagRelationshipRemovalAck _) = True"
| "is_tracked t = is_queued_tag t"

lemma send_message_effect:
  assumes "send_message lib json idn session command latest now s = (r, s')"
  shows "case r of
     Inl _ \<Rightarrow> core_eq s s' \<and> wires s' = wires s
   | Inr _ \<Rightarrow>
       if oc_delivery command = TagEphemeral then core_eq s s' \<and> wires s' = wires s
       else (\<exists>d. ad_delivery d = oc_delivery command \<and>
              core_eq (s\<lparr>ps_active := hm_insert (oc_message_id command) d (ps_active s)\<rparr>) s') \<and>
            wires s' = wires s @ (if is_queued_tag (oc_delivery command) then [oc_delivery command] else [])"
proof -
  let ?e = "envelope_new lib idn session (oc_message_id command) (oc_conversation_id command)
      (oc_sequence command) (oc_created_at command) (oc_ciphertext command)"
  obtain w s1 where w: "write_frame json (Some (oc_delivery command)) ''write peer message: '' (MessageFrame ?e) s = (w, s1)"
    by fastforce
  show ?thesis
  proof (cases w)
    case (Inl e)
    then show ?thesis using assms w write_frame_effect [OF w] by (auto simp: send_message_def Let_def seq_def)
  next
    case (Inr x)
    have s1: "core_eq s s1" "wires s1 = wires s @ (if is_queued_tag (oc_delivery command) then [oc_delivery command] else [])"
      using write_frame_effect [OF w] Inr by simp_all
    show ?thesis
      using assms w Inr s1 complete_keyless [of TagEphemeral]
      by (force simp: send_message_def Let_def seq_def change_def core_eq_def wires_def on_queues_def)
  qed
qed

lemma send_control_effect:
  assumes "send_control json tag context frame s = (r, s')" "dedupe_key tag = None" "wire_tag (Some tag, frame) = []"
  shows "core_eq s s' \<and> wires s' = wires s"
proof -
  obtain w s1 where w: "write_frame json (Some tag) context frame s = (w, s1)" by fastforce
  show ?thesis
    using assms w write_frame_effect [OF w] complete_keyless [OF assms(2)]
    by (cases w) (auto simp: send_control_def seq_def change_def core_eq_def wires_def on_queues_def)
qed

lemma send_probe_effect:
  assumes "send_probe json tag context frame nonce latest now s = (r, s')" "wire_tag (Some tag, frame) = []"
  shows "core_eq s s' \<and> wires s' = wires s"
proof -
  obtain w s1 where w: "write_frame json (Some tag) context frame s = (w, s1)" by fastforce
  show ?thesis
    using assms w write_frame_effect [OF w]
    by (cases w) (auto simp: send_probe_def seq_def change_def core_eq_def wires_def)
qed

definition sent_effect :: "peer_outbound_command \<Rightarrow> peer_session \<Rightarrow> peer_session \<Rightarrow> bool" where
  "sent_effect command s s' \<longleftrightarrow>
     (\<exists>d. ad_delivery d = oc_delivery command \<and>
        core_eq (s\<lparr>ps_active := hm_insert (oc_message_id command) d (ps_active s)\<rparr>) s') \<and>
     wires s' = wires s @ (if is_queued_tag (oc_delivery command) then [oc_delivery command] else [])"

lemma tracked_message_effect:
  assumes "seq (send_endpoint_updates json tag updates None)
       (\<lambda>latest. send_message lib json idn session command latest now) s = (r, s')"
    and "oc_delivery command \<noteq> TagEphemeral"
  shows "case r of Inl _ \<Rightarrow> core_eq s s' \<and> wires s' = wires s | Inr _ \<Rightarrow> sent_effect command s s'"
proof -
  obtain u s1 where u: "send_endpoint_updates json tag updates None s = (u, s1)" by fastforce
  note s1 = send_updates_effect [OF u]
  show ?thesis
  proof (cases u)
    case (Inl e)
    then show ?thesis using assms(1) u s1 by (auto simp: seq_def)
  next
    case (Inr latest)
    then have "send_message lib json idn session command latest now s1 = (r, s')"
      using assms(1) u by (simp add: seq_def)
    from send_message_effect [OF this] assms(2) s1 show ?thesis
      by (auto simp: sent_effect_def core_eq_def split: sum.splits)
  qed
qed

lemma aside_effect:
  assumes "seq (send_endpoint_updates json tag updates None) k s = (r, s')"
    and "\<And>latest s r s'. k latest s = (r, s') \<Longrightarrow> core_eq s s' \<and> wires s' = wires s"
  shows "core_eq s s' \<and> wires s' = wires s"
proof -
  obtain u s1 where u: "send_endpoint_updates json tag updates None s = (u, s1)" by fastforce
  show ?thesis
    using assms(1) u send_updates_effect [OF u] assms(2)
    by (cases u) (auto simp: seq_def core_eq_def)
qed

lemma ephemeral_message_effect:
  assumes "send_message lib json idn session command latest now s = (r, s')" "oc_delivery command = TagEphemeral"
  shows "core_eq s s' \<and> wires s' = wires s"
  using send_message_effect [OF assms(1)] assms(2) by (simp split: sum.splits)

lemma send_effect:
  assumes run: "send_outbound_command lib json idn session command unix_ms now s = (r, s')"
  shows "if is_tracked (oc_delivery command) \<and> r = Ok () then sent_effect command s s'
         else core_eq s s' \<and> wires s' = wires s"
proof (cases "is_tracked (oc_delivery command)")
  case True
  then have "oc_delivery command \<noteq> TagEphemeral" by auto
  moreover have "seq (send_endpoint_updates json (oc_delivery command) (oc_endpoint_updates command) None)
       (\<lambda>latest. send_message lib json idn session command latest now) s = (r, s')"
    using run True by (cases "oc_delivery command") (simp_all add: send_outbound_command_def Let_def)
  ultimately show ?thesis
    using tracked_message_effect [of json _ _ lib idn session command now s r s'] True
    by (cases r) (auto split: sum.splits)
next
  case False
  have "core_eq s s' \<and> wires s' = wires s"
  proof (cases "oc_delivery command")
    case TagEphemeral
    then have "seq (send_endpoint_updates json TagEphemeral (oc_endpoint_updates command) None)
        (\<lambda>latest. send_message lib json idn session command latest now) s = (r, s')"
      using run by (simp add: send_outbound_command_def Let_def)
    then show ?thesis by (rule aside_effect) (rule ephemeral_message_effect [OF _ TagEphemeral])
  next
    case TagEndpointUpdate
    then have "seq (send_endpoint_updates json TagEndpointUpdate (oc_endpoint_updates command) None)
        (\<lambda>latest. send_probe json TagEndpointUpdate ''write peer endpoint probe: '' (PingFrame (oc_sequence command))
           (oc_sequence command) latest now) s = (r, s')"
      using run by (simp add: send_outbound_command_def Let_def)
    then show ?thesis by (rule aside_effect) (erule send_probe_effect, simp)
  next
    case TagProbe
    then have "seq (send_endpoint_updates json TagProbe (oc_endpoint_updates command) None)
        (\<lambda>latest. send_probe json TagProbe ''write peer probe request: '' (ProbeRequestFrame (oc_sequence command))
           (oc_sequence command) latest now) s = (r, s')"
      using run by (simp add: send_outbound_command_def Let_def)
    then show ?thesis by (rule aside_effect) (erule send_probe_effect, simp)
  qed (use run False in \<open>auto simp: send_outbound_command_def Let_def dest: send_control_effect\<close>)
  then show ?thesis using False by simp
qed

lemma push_pop:
  assumes "slots_ok id_text q" "pop_next True q = (Some command, q')"
  shows "push_front command q' = q"
  using assms by (cases q) (auto simp: pop_next_def push_front_def slots_ok_def split: list.splits option.splits)

lemma pop_cases:
  assumes "slots_ok id_text q" "pop_next True q = (Some command, q')"
  obtains (durable) "cq_durable q = command # cq_durable q'" "is_queued_tag (oc_delivery command)"
      "command_wf id_text command" "q' = q\<lparr>cq_durable := cq_durable q'\<rparr>"
    | (aside) "\<not> is_queued_tag (oc_delivery command)" "cq_durable q' = cq_durable q" "cq_dedupe q' = cq_dedupe q"
      "slots_ok id_text q'"
  using assms by (cases q) (auto simp: pop_next_def slots_ok_def split: list.splits option.splits)

lemma pipeline_of_core: "core_eq s s' \<Longrightarrow> pipeline_of s' = (pipeline_of s)\<lparr>pl_wire := wires s'\<rparr>"
  by (simp add: pipeline_of_def core_eq_def wires_def)

text \<open>A durable command written to the wire is the delivery in flight.\<close>

lemma moves_start:
  assumes pop: "cq_durable (ps_queues s) = command # rest" and idle: "ps_active s = []"
    and sent: "sent_effect command (on_queues (\<lambda>q. q\<lparr>cq_durable := rest\<rparr>) s) s'"
  shows "moves id_text s s'"
proof (rule movesI)
  assume ok: "session_ok id_text s"
  have c: "is_queued_tag (oc_delivery command)" "command_wf id_text command"
    using session_okD(1) [OF ok] pop by (simp_all add: slots_ok_def)
  obtain d where d: "ad_delivery d = oc_delivery command"
      "core_eq ((on_queues (\<lambda>q. q\<lparr>cq_durable := rest\<rparr>) s)\<lparr>ps_active := [(oc_message_id command, d)]\<rparr>) s'"
      "wires s' = wires s @ [oc_delivery command]"
    using sent c(1) idle by (auto simp: sent_effect_def hm_insert_def wires_def)
  have "pipeline_of s' = (pipeline_of s)\<lparr>pl_waiting := map oc_delivery rest, pl_flight := [oc_delivery command],
      pl_wire := pl_wire (pipeline_of s) @ [oc_delivery command]\<rparr>"
    using d c(1) unfolding pipeline_of_core [OF d(2)]
    by (simp add: pipeline_of_def flight_tags_def wires_def)
  moreover have "pipe_step (pipeline_of s) ((pipeline_of s)\<lparr>pl_waiting := map oc_delivery rest,
      pl_flight := [oc_delivery command], pl_wire := pl_wire (pipeline_of s) @ [oc_delivery command]\<rparr>)"
    by (rule pipe_step.start) (use pop idle in \<open>simp_all add: pipeline_of_def flight_tags_def\<close>)
  ultimately show "pipe_steps (pipeline_of s) (pipeline_of s')" by auto
  show "slots_ok id_text (ps_queues s')"
    using session_okD(1) [OF ok] d(2) pop by (simp add: slots_ok_def core_eq_def)
  show "maps_ok id_text (ps_active s') (ps_awaiting s')"
    using session_okD(2) [OF ok] d(1,2) c(2) by (auto simp: maps_ok_def core_eq_def command_wf_def MAX_IN_FLIGHT_def)
  show "ps_events_open s'" using session_okD(3) [OF ok] d(2) by (simp add: core_eq_def)
qed

lemma moves_pop_aside:
  assumes "cq_durable q' = cq_durable (ps_queues s)" "cq_dedupe q' = cq_dedupe (ps_queues s)"
    and "session_ok id_text s \<Longrightarrow> slots_ok id_text q'"
  shows "moves id_text s (s\<lparr>ps_queues := q'\<rparr>)"
  by (rule moves_same) (use assms in \<open>auto simp: pipeline_of_def session_ok_def\<close>)

lemma moves_sent_aside:
  assumes "\<not> is_queued_tag (oc_delivery command)" "ps_active s = []" "sent_effect command s s'"
  shows "moves id_text s s'"
proof (rule moves_same)
  obtain d where d: "ad_delivery d = oc_delivery command"
      "core_eq (s\<lparr>ps_active := [(oc_message_id command, d)]\<rparr>) s'" "wires s' = wires s"
    using assms by (auto simp: sent_effect_def hm_insert_def)
  show "pipeline_of s' = pipeline_of s"
    using assms(1,2) d by (simp add: pipeline_of_core [OF d(2)]) (simp add: pipeline_of_def flight_tags_def wires_def)
  assume ok: "session_ok id_text s"
  show "slots_ok id_text (ps_queues s')" using session_okD(1) [OF ok] d(2) by (simp add: core_eq_def)
  show "ps_events_open s'" using session_okD(3) [OF ok] d(2) by (simp add: core_eq_def)
  show "maps_ok id_text (ps_active s') (ps_awaiting s')"
    using session_okD(2) [OF ok] d(1,2) assms(1) by (auto simp: maps_ok_def core_eq_def MAX_IN_FLIGHT_def)
qed

lemma core_eq_emit: "core_eq s s' \<Longrightarrow> core_eq (emit_event e s) (emit_event e s')"
  by (simp add: core_eq_def emit_event_def)

lemma core_eq_on_queues: "core_eq s s' \<Longrightarrow> core_eq (on_queues f s) (on_queues f s')"
  by (simp add: core_eq_def)

lemma wires_simps [simp]:
  "wires (emit_event e s) = wires s" "wires (on_queues f s) = wires s" "wires (s\<lparr>ps_queues := q\<rparr>) = wires s"
  by (simp_all add: wires_def)

lemma moves_complete_other: "\<not> is_queued_tag t \<Longrightarrow> moves id_text s (on_queues (complete t) s)"
  using complete_other [of id_text s t] by (auto simp: moves_def on_queues_def)

definition send_failed :: "session_env \<Rightarrow> string \<Rightarrow> peer_delivery_tag \<Rightarrow> peer_session \<Rightarrow> peer_session" where
  "send_failed env error tag s =
     (if is_durable tag then fail_delivery (se_installation_id env) error tag (on_queues (complete tag) s)
      else on_queues (complete tag) s)"

lemma moves_send_failed:
  assumes pop: "pop_next True (ps_queues s) = (Some command, q)"
    and sent: "core_eq (s\<lparr>ps_queues := q\<rparr>) s'" "wires s' = wires s"
  shows "moves id_text s (send_failed env error (oc_delivery command) s')"
proof (cases "session_ok id_text s")
  case True
  let ?t = "oc_delivery command"
  let ?e = "ConnectionChanged (se_installation_id env) None PcBackoff (Some error) (Some ?t)"
  from session_okD(1) [OF True] pop show ?thesis
  proof (cases rule: pop_cases)
    case durable
    have "s\<lparr>ps_queues := q\<rparr> = on_queues (\<lambda>x. x\<lparr>cq_durable := cq_durable q\<rparr>) s"
      using durable(4) by (simp add: on_queues_def)
    then have "core_eq (emit_event ?e (on_queues (complete ?t) (on_queues (\<lambda>x. x\<lparr>cq_durable := cq_durable q\<rparr>) s)))
        (emit_event ?e (on_queues (complete ?t) s'))"
      using sent(1) by (metis core_eq_emit core_eq_on_queues)
    then have "moves id_text (emit_event ?e (on_queues (\<lambda>x. complete ?t (x\<lparr>cq_durable := cq_durable q\<rparr>)) s))
        (emit_event ?e (on_queues (complete ?t) s'))"
      using sent(2) by (intro moves_core) (simp_all add: on_queues_def wires_def)
    then have "moves id_text s (emit_event ?e (on_queues (complete ?t) s'))"
      by (rule moves_trans [OF moves_refuse [OF durable(1)], rotated]) simp
    then show ?thesis using queued_durable [OF durable(2)] by (simp add: send_failed_def fail_delivery_def)
  next
    case aside
    have "moves id_text s (s\<lparr>ps_queues := q\<rparr>)" using aside by (intro moves_pop_aside) auto
    also have "moves id_text \<dots> s'" using sent by (intro moves_core) auto
    also have "moves id_text \<dots> (on_queues (complete ?t) s')" using aside(1) by (rule moves_complete_other)
    also have "moves id_text \<dots> (send_failed env error ?t s')"
      by (simp add: send_failed_def fail_delivery_def moves_emit)
    finally show ?thesis .
  qed
qed (simp add: moves_def)

lemma moves_sent:
  assumes pop: "pop_next True (ps_queues s) = (Some command, q)" and idle: "ps_active s = []"
    and run: "send_outbound_command lib json idn session command unix_ms now (s\<lparr>ps_queues := q\<rparr>) = (Inr x, s')"
  shows "moves id_text s s'"
proof (cases "session_ok id_text s")
  case True
  from session_okD(1) [OF True] pop show ?thesis
  proof (cases rule: pop_cases)
    case durable
    have "is_tracked (oc_delivery command)" using durable(2) by (cases "oc_delivery command") simp_all
    moreover have "s\<lparr>ps_queues := q\<rparr> = on_queues (\<lambda>x. x\<lparr>cq_durable := cq_durable q\<rparr>) s"
      using durable(4) by (simp add: on_queues_def)
    ultimately show ?thesis using send_effect [OF run] moves_start [OF durable(1) idle] by simp
  next
    case aside
    have "moves id_text s (s\<lparr>ps_queues := q\<rparr>)" using aside by (intro moves_pop_aside) auto
    also have "moves id_text \<dots> s'"
      using send_effect [OF run] moves_sent_aside [OF aside(1)] moves_core idle
      by (auto split: if_splits)
    finally show ?thesis .
  qed
qed (simp add: moves_def)

lemma moves_dispatch: "moves id_text s (snd (dispatch fuel env unix_ms now s))"
proof (induction fuel arbitrary: s)
  case (Suc fuel)
  show ?case
  proof (cases "length (ps_active s) < MAX_IN_FLIGHT \<and> session_ok id_text s")
    case busy: True
    then have idle: "ps_active s = []" by (simp add: MAX_IN_FLIGHT_def)
    obtain command q where pop: "pop_next True (ps_queues s) = (command, q)" by fastforce
    show ?thesis
    proof (cases command)
      case None
      then have "s\<lparr>ps_queues := q\<rparr> = s" using pop
        by (cases s) (auto simp: pop_next_def split: list.splits option.splits)
      then show ?thesis using busy pop None by simp
    next
      case (Some c)
      note pop = pop [unfolded Some]
      obtain r s' where run: "send_outbound_command (se_lib env) (se_json env) (se_identity env) (se_session_id env)
          c unix_ms now (s\<lparr>ps_queues := q\<rparr>) = (r, s')" by fastforce
      show ?thesis
      proof (cases "same_peer_endpoint (se_endpoint env) (oc_endpoint c)")
        case False
        have "s\<lparr>ps_queues := push_front c q\<rparr> = s"
          using push_pop [OF _ pop] busy session_okD(1) by (metis peer_session.surjective peer_session.update_convs(1))
        then show ?thesis using False busy pop idle by (simp add: moves_complete_waiters)
      next
        case True
        show ?thesis
        proof (cases r)
          case (Inl error)
          then have "moves id_text s (send_failed env error (oc_delivery c) s')"
            using send_effect [OF run] by (intro moves_send_failed [OF pop]) simp_all
          then show ?thesis using True busy pop run Inl
            by (auto simp: Let_def send_failed_def intro: moves_trans moves_fail_session)
        next
          case (Inr x)
          have "moves id_text s s'" by (rule moves_sent [OF pop idle run [unfolded Inr]])
          also have "moves id_text \<dots> (s'\<lparr>ps_last_activity := now\<rparr>)" by (rule moves_aside) simp_all
          also note Suc
          finally show ?thesis using True busy pop run Inr by simp
        qed
      qed
    qed
  qed (auto simp: moves_def)
qed simp

lemma pop_next_count: "pop_next True q = (Some command, q') \<Longrightarrow> queued_count q = Suc (queued_count q')"
  by (auto simp: pop_next_def queued_count_def split: list.splits option.splits)

lemma send_keeps_queues:
  assumes "send_outbound_command lib json idn session command unix_ms now s = (r, s')"
  shows "ps_queues s' = ps_queues s"
  using send_effect [OF assms] by (auto simp: sent_effect_def core_eq_def split: if_splits)

text \<open>The write loop ends: as many rounds as there are queued commands, and one more, are enough.\<close>

lemma dispatch_enough:
  "queued_count (ps_queues s) < fuel \<Longrightarrow> queued_count (ps_queues s) < fuel' \<Longrightarrow>
   dispatch fuel env unix_ms now s = dispatch fuel' env unix_ms now s"
proof (induction fuel arbitrary: fuel' s)
  case (Suc fuel)
  then obtain n where n: "fuel' = Suc n" by (cases fuel') auto
  have step: "dispatch fuel env unix_ms now (s'\<lparr>ps_last_activity := now\<rparr>) =
      dispatch n env unix_ms now (s'\<lparr>ps_last_activity := now\<rparr>)"
    if "pop_next True (ps_queues s) = (Some c, q)"
      "send_outbound_command (se_lib env) (se_json env) (se_identity env) (se_session_id env) c unix_ms now
         (s\<lparr>ps_queues := q\<rparr>) = (Inr x, s')" for c q x s'
    using Suc.prems n pop_next_count [OF that(1)] send_keeps_queues [OF that(2)]
    by (intro Suc.IH) simp_all
  show ?case unfolding n dispatch.simps using step by (auto split: prod.splits option.splits sum.splits)
qed simp

section \<open>One round of a connected session\<close>

lemma moves_then_run:
  assumes "moves id_text s (snd r)" "\<And>s. moves id_text s (snd (k s))"
  shows "moves id_text s (snd (then_run r k))"
  using assms by (cases r) (auto simp: then_run_def intro: moves_trans split: session_exit.splits)

lemma moves_send_keepalive: "moves id_text s (snd (send_keepalive env nonce now s))"
proof -
  obtain w s' where w: "write_frame (se_json env) None ''write peer websocket keepalive: '' (PingFrame nonce) s = (w, s')"
    by fastforce
  have "moves id_text s s'" using moves_write_frame [of None "PingFrame nonce" id_text s] w by (metis snd_conv wire_tag.simps(2))
  moreover have "moves id_text s' (s'\<lparr>ps_keepalive := k, ps_next_keepalive := n\<rparr>)" for k n
    by (rule moves_aside) simp_all
  ultimately show ?thesis
    using w by (auto simp: send_keepalive_def intro: moves_trans moves_fail_session split: sum.splits)
qed

lemma moves_check_timers: "moves id_text s (snd (check_timers env nonce now s))"
  unfolding check_timers_def Let_def
  by (rule moves_trans [OF moves_expire])
    (auto intro!: moves_fail_session moves_then_run moves_send_keepalive)

lemma moves_handle_item: "moves id_text s (snd (handle_item env item unix_ms now s))"
proof -
  let ?s = "s\<lparr>ps_last_activity := now\<rparr>"
  have handled: "moves id_text s s'"
    if "handle_outbound_frame (se_json env) frame (se_installation_id env) (se_session_id env) unix_ms ?s = (r, s')"
    for frame r s'
  proof -
    have "moves id_text s ?s" by (rule moves_aside) simp_all
    also note moves_handle_frame [of id_text ?s "se_json env" frame "se_installation_id env" "se_session_id env" unix_ms]
    finally show ?thesis using that by simp
  qed
  show ?thesis
    by (auto simp: handle_item_def moves_fail_session intro: handled moves_trans [OF handled moves_fail_session]
        split: stream_item.splits sum.splits option.splits prod.splits)
qed

lemma moves_select_step:
  assumes "event_wf id_text event"
  shows "moves id_text s (snd (select_step env event unix_ms now s))"
proof -
  have "moves id_text s (s\<lparr>ps_channel_open := False\<rparr>)" by (rule moves_aside) simp_all
  then show ?thesis
    using assms by (auto simp: select_step_def event_wf_def moves_handle_item moves_receive
        split: select_event.splits option.splits)
qed

lemma moves_receive_all:
  "list_all (command_wf id_text) cs \<Longrightarrow> moves id_text s (fold receive_command cs s)"
  by (induction cs arbitrary: s) (auto intro: moves_trans moves_receive)

lemma moves_iteration:
  assumes "list_all (command_wf id_text) pending" "event_wf id_text event"
  shows "moves id_text s (snd (session_iteration env pending nonce unix_ms now event s))"
  unfolding session_iteration_def Let_def
  by (rule moves_trans [OF moves_receive_all [OF assms(1)]])
    (intro moves_then_run moves_dispatch moves_check_timers moves_select_step [OF assms(2)])

lemma send_message_ok:
  assumes "send_message lib json idn session_id command latest now s = (Ok (), s')" "oc_delivery command \<noteq> TagEphemeral"
    and "m = envelope_new lib idn session_id (oc_message_id command) (oc_conversation_id command)
      (oc_sequence command) (oc_created_at command) (oc_ciphertext command)"
  shows "last (ps_sent s') = (Some (oc_delivery command), MessageFrame m)"
    and "hm_get (oc_message_id command) (ps_active s') =
      Some \<lparr> ad_delivery = oc_delivery command, ad_expected_ciphertext_hash = ciphertext_hash lib m,
             ad_endpoint_sequence = latest, ad_sent_at = now \<rparr>"
    and "ps_events_open s' = ps_events_open s"
  using assms by (auto simp: send_message_def Let_def seq_def change_def write_frame_def
      split: sum.splits list.splits option.splits)

section \<open>The task of a contact\<close>

definition extends_events :: "'a client_action \<Rightarrow> bool" where
  "extends_events m \<longleftrightarrow> (\<forall>io. \<exists>es. io_events (snd (m io)) = io_events io @ es)"

lemma extends_seq:
  assumes "extends_events m" "\<And>x. extends_events (k x)"
  shows "extends_events (seq m k)"
  unfolding extends_events_def
proof
  fix io
  obtain r io' where m: "m io = (r, io')" by fastforce
  obtain es where es: "io_events io' = io_events io @ es" using assms(1) m by (metis extends_events_def snd_conv)
  show "\<exists>es. io_events (snd (seq m k io)) = io_events io @ es"
  proof (cases r)
    case (Inr x)
    obtain es' where "io_events (snd (k x io')) = io_events io' @ es'" using assms(2) by (metis extends_events_def)
    then show ?thesis using m es Inr by (simp add: seq_def)
  qed (use m es in \<open>simp add: seq_def\<close>)
qed

lemma extends_simple:
  "extends_events (lift r)" "extends_events (return x)" "extends_events (on_socket m)" "extends_events (client_event e)"
  by (auto simp: extends_events_def lift_def return_def on_socket_def client_event_def change_def
      split: sum.splits prod.splits)

lemma connect_extends: "extends_events (connect_outbound lib json idn command dial nonce)"
  unfolding connect_outbound_def Let_def by (intro extends_seq extends_simple)

lemma moves_connect_events:
  assumes "connect_outbound lib json idn command dial nonce \<lparr>io_socket = ws, io_events = ps_events s\<rparr> =
      (r, \<lparr>io_socket = ws', io_events = events\<rparr>)"
  shows "moves id_text s (s\<lparr>ps_events := events\<rparr>)"
proof (rule moves_aside)
  show "\<exists>es. ps_events (s\<lparr>ps_events := events\<rparr>) = ps_events s @ es"
    using connect_extends [of lib json idn command dial nonce] assms
    by (force simp: extends_events_def dest!: spec [where x = "\<lparr>io_socket = ws, io_events = ps_events s\<rparr>"])
qed simp_all

text \<open>A session leaves nothing in flight when it ends.\<close>

definition at_rest :: "peer_session \<Rightarrow> bool" where
  "at_rest s \<longleftrightarrow> ps_active s = [] \<and> ps_awaiting s = []"

definition ends_at_rest :: "session_exit \<times> peer_session \<Rightarrow> bool" where
  "ends_at_rest r \<longleftrightarrow> fst r \<noteq> Running \<longrightarrow> at_rest (snd r)"

lemma fail_session_rests [simp]: "ends_at_rest (fail_session env error s)"
proof -
  have "ps_active (fold (\<lambda>(_, delivery) s. fail_delivery inst error (ad_delivery delivery)
          (on_queues (complete (ad_delivery delivery)) s)) ds s) = ps_active s" for inst s and ds :: "(128 word \<times> active_delivery) list"
    by (induction ds arbitrary: s) (auto simp: fail_delivery_def)
  then show ?thesis
    by (simp add: ends_at_rest_def at_rest_def fail_session_def fail_active_deliveries_def complete_persisted_waiters_def)
qed

lemma running_rests [simp]: "ends_at_rest (Running, s)"
  by (simp add: ends_at_rest_def)

lemma then_run_rests:
  "ends_at_rest r \<Longrightarrow> (\<And>s. ends_at_rest (k s)) \<Longrightarrow> ends_at_rest (then_run r k)"
  by (cases r) (auto simp: then_run_def ends_at_rest_def split: session_exit.splits)

lemma dispatch_rests: "ends_at_rest (dispatch fuel env unix_ms now s)"
proof (induction fuel arbitrary: s)
  case (Suc fuel)
  then show ?case
    by (auto simp: Let_def ends_at_rest_def [of "(ClosedOk, _)"] at_rest_def complete_persisted_waiters_def
        simp del: One_nat_def split: prod.splits option.splits sum.splits)
qed simp

lemma check_timers_rests: "ends_at_rest (check_timers env nonce now s)"
  by (auto simp: check_timers_def Let_def send_keepalive_def ends_at_rest_def [of "(ClosedOk, _)"] at_rest_def
      session_quiet_def intro!: then_run_rests split: sum.splits prod.splits)

lemma select_step_rests: "ends_at_rest (select_step env event unix_ms now s)"
  by (auto simp: select_step_def handle_item_def
      split: select_event.splits option.splits stream_item.splits sum.splits prod.splits)

lemma iteration_rests: "ends_at_rest (session_iteration env pending nonce unix_ms now event s)"
  unfolding session_iteration_def Let_def
  by (intro then_run_rests dispatch_rests check_timers_rests select_step_rests)

lemma moves_begin_session:
  assumes "at_rest s"
  shows "moves id_text s (begin_session now s)"
  by (rule moves_aside) (use assms in \<open>simp_all add: begin_session_def at_rest_def\<close>)

lemma moves_drop_ephemeral: "moves id_text s (on_queues drop_ephemeral_without_session s)"
  by (rule moves_same)
    (auto simp: drop_ephemeral_without_session_def pipeline_of_def session_ok_def slots_ok_def)

lemma moves_drop_lease: "moves id_text s (drop_lease inst session s)"
  by (simp add: drop_lease_def moves_emit)

definition task_ok :: "(128 word \<Rightarrow> string) \<Rightarrow> contact_task \<Rightarrow> bool" where
  "task_ok id_text t \<longleftrightarrow> session_ok id_text (fst t) \<and> (snd t = None \<longrightarrow> at_rest (fst t))"

lemma fail_queued_rests: "at_rest (fail_queued_commands inst error s) = at_rest s"
  by (simp add: at_rest_def fail_queued_commands_def fail_fold_fields split: prod.splits)

lemma receive_rests: "at_rest (receive_command command s) = at_rest s"
  by (simp add: at_rest_def receive_command_def)

lemma on_queues_rests: "at_rest (on_queues f s) = at_rest s"
  by (simp add: at_rest_def)

lemma moves_contact_step:
  assumes "contact_step id_text t t'" "task_ok id_text t"
  shows "moves id_text (fst t) (fst t') \<and> (snd t' = None \<longrightarrow> at_rest (fst t'))"
  using assms(1)
proof cases
  case (take_command command s)
  then show ?thesis using assms(2) by (simp add: moves_receive receive_rests task_ok_def)
next
  case (wait_command s command)
  then show ?thesis using assms(2)
    by (auto simp: task_ok_def on_queues_rests receive_rests intro: moves_trans [OF moves_receive moves_drop_ephemeral])
next
  case (connected s command lib json idn dial nonce ws session_id ws' events now inst)
  have "at_rest (s\<lparr>ps_events := events\<rparr>)" using assms(2) connected(1) by (simp add: task_ok_def at_rest_def)
  then show ?thesis
    using connected moves_trans [OF moves_connect_events [OF connected(4)] moves_begin_session] by simp
next
  case (connect_failed s command lib json idn dial nonce ws error ws' events inst)
  have "at_rest (s\<lparr>ps_events := events\<rparr>)" using assms(2) connect_failed(1) by (simp add: task_ok_def at_rest_def)
  then show ?thesis
    using connect_failed moves_trans [OF moves_connect_events [OF connect_failed(4)] moves_fail_queued]
    by (simp add: fail_queued_rests)
next
  case (running pending event env nonce unix_ms now s s')
  then show ?thesis using moves_iteration [OF running(3,4), of s env nonce unix_ms now] by simp
next
  case (closed pending event env nonce unix_ms now s s')
  have "moves id_text s s'" using moves_iteration [OF closed(3,4), of s env nonce unix_ms now] closed(5) by simp
  moreover have "at_rest s'"
    using iteration_rests [of env pending nonce unix_ms now event s] closed(5) by (simp add: ends_at_rest_def)
  ultimately show ?thesis
    using closed(1,2) moves_trans [OF _ moves_drop_lease] by (simp add: at_rest_def drop_lease_def)
next
  case (failed pending event env nonce unix_ms now s error s')
  have "moves id_text s s'" using moves_iteration [OF failed(3,4), of s env nonce unix_ms now] failed(5) by simp
  from moves_trans [OF moves_trans [OF this moves_drop_lease] moves_fail_queued] have "moves id_text s (fst t')"
    using failed(2) by simp
  moreover have "at_rest s'"
    using iteration_rests [of env pending nonce unix_ms now event s] failed(5) by (simp add: ends_at_rest_def)
  ultimately show ?thesis
    using failed(1,2) by (simp add: fail_queued_rests) (simp add: at_rest_def drop_lease_def)
qed

lemma task_step_ok:
  assumes "task_ok id_text t" "contact_step id_text t t'"
  shows "task_ok id_text t'" "pipe_steps (pipeline_of (fst t)) (pipeline_of (fst t'))"
  using moves_contact_step [OF assms(2,1)] assms(1) by (auto simp: task_ok_def moves_def)

lemma start_ok: "contact_start t \<Longrightarrow> task_ok id_text t"
  by (simp add: contact_start_def session_start_def task_ok_def at_rest_def session_ok_def slots_ok_def maps_ok_def
      queues_default_def pipeline_of_def pipe_inv_def pipe_shape_def pipe_order_def pipe_reports_def flight_tags_def)

interpretation contact_system: invariant_system contact_start "contact_step id_text" "task_ok id_text" for id_text
  by unfold_locales (auto intro: start_ok task_step_ok)

section \<open>What a contact's task guarantees\<close>

text \<open>C7: The task of a contact implements the delivery pipeline: every step of a reachable task, whether it
  accepts a command, dials, runs a round of the connected session with its writes, acknowledgements and
  timers, or ends a session, is a sequence of pipeline steps on the durable deliveries.\<close>

theorem contact_refines_pipeline:
  assumes "reachable contact_start (contact_step id_text) t" "contact_step id_text t t'"
  shows "pipe_steps (pipeline_of (fst t)) (pipeline_of (fst t'))"
  using contact_system.reachable_inv [OF assms(1)] assms(2) by (rule task_step_ok)

text \<open>C4: Durable deliveries keep their order and run one at a time. In every reachable state of a
  contact's task, the durable messages put on the wire so far, over all sessions, followed by those still
  queued, are a subsequence of the deliveries accepted, in the order of acceptance; nothing is written
  twice without being accepted twice; and at most one delivery awaits the peer's acknowledgement.\<close>

theorem wire_order_is_accept_order:
  assumes "reachable contact_start (contact_step id_text) (s, link)"
  shows "subseq (concat (map wire_tag (ps_sent s)) @ map oc_delivery (cq_durable (ps_queues s)))
           (map oc_delivery (ps_accepted s)) \<and> length (ps_active s) \<le> MAX_IN_FLIGHT"
  using contact_system.reachable_inv [OF assms]
  by (simp add: task_ok_def session_ok_def pipe_inv_def pipe_order_def pipeline_of_def maps_ok_def)

text \<open>C5: No accepted delivery is lost. In every reachable state of a contact's task, each acceptance of a
  durable delivery is matched by a report to the engine (an acknowledgement that it was stored,
  delivered or rejected, or a failure), or the delivery is still queued or in flight; and a delivery's
  deduplication key is held exactly while it is queued, in flight or stored but not yet delivered, so
  that a reported delivery can be accepted again.\<close>

theorem accepted_delivery_accounted:
  assumes "reachable contact_start (contact_step id_text) (s, link)"
  shows "count_list (map oc_delivery (ps_accepted s)) t \<le>
           count_list (concat (map report_tag (ps_events s))) t +
           count_list (map oc_delivery (cq_durable (ps_queues s)) @ flight_tags (ps_active s)) t \<and>
         cq_dedupe (ps_queues s) =
           key_of ` (oc_delivery ` set (cq_durable (ps_queues s)) \<union> set (flight_tags (ps_active s)) \<union>
                     (ad_delivery \<circ> snd) ` set (ps_awaiting s))"
  using contact_system.reachable_inv [OF assms]
  by (simp add: task_ok_def session_ok_def pipe_inv_def pipe_shape_def pipe_reports_def pipeline_of_def Un_assoc)


section \<open>A run\<close>

text \<open>One message is accepted, the session is authenticated, and the message is written.\<close>

definition sample_session :: peer_session where
  "sample_session =
     \<lparr> ps_queues = queues_default, ps_active = [], ps_awaiting = [], ps_probes = [], ps_sent_endpoint_sequence = 0,
       ps_last_activity = 0, ps_next_keepalive = 0, ps_keepalive = None, ps_channel_open = True,
       ps_write_results = [], ps_sent = [], ps_events_open = True, ps_events = [], ps_accepted = [] \<rparr>"

definition sample_envelope :: peer_message_envelope where
  "sample_envelope = envelope_new sample_crypto sample_alice 77 3 ''c'' 1 0 [1]"

definition session_json :: json_lib where
  "session_json = frames_json (sample_frames @ [MessageFrame sample_envelope])"

definition sample_env :: session_env where
  "sample_env =
     \<lparr> se_lib = sample_crypto, se_json = session_json, se_identity = sample_alice, se_installation_id = ''bob'',
       se_session_id = 77, se_endpoint = oc_endpoint sample_command \<rparr>"

lemma session_fits:
  assumes "f \<in> set sample_frames"
  shows "fits_preauth session_json f"
proof -
  have "length (sample_frames @ [MessageFrame sample_envelope]) = 5"
    by (simp add: sample_frames_def handshake_frames_def Let_def)
  moreover have "f \<in> set (sample_frames @ [MessageFrame sample_envelope])" using assms by simp
  ultimately obtain b where "frame_to_vec session_json f = Ok b" "length b < 100 + 5"
    using index_frame_in [of f _ 100] by (fastforce simp: session_json_def frames_json_def)
  then show ?thesis by (simp add: fits_preauth_def MAX_PREAUTH_FRAME_BYTES_def)
qed

lemma session_connects:
  "\<exists>ws ws' events. connect_outbound sample_crypto session_json sample_alice sample_command (Ok ()) (replicate 32 4)
     \<lparr> io_socket = ws, io_events = [] \<rparr> = (Ok 77, \<lparr> io_socket = ws', io_events = events \<rparr>)"
proof -
  obtain h c p a where f: "sample_frames = [h, c, p, a]"
    by (simp add: sample_frames_def handshake_frames_def Let_def)
  have "h \<in> set sample_frames" "c \<in> set sample_frames" "p \<in> set sample_frames" "a \<in> set sample_frames"
    unfolding f by simp_all
  note each = this [THEN session_fits]
  have "frame_json_ok session_json" by (simp add: session_json_def frames_json_ok)
  from connect_runs [OF this verify_own_signature [OF sample_crypto_ok] _ _ _ _ f [unfolded sample_frames_def] each]
  show ?thesis
    by (fastforce simp: sample_command_def sample_peer_endpoint_def endpoint_new_fields)
qed

definition sample_flight :: active_delivery where
  "sample_flight =
     \<lparr> ad_delivery = TagMessage ''m'', ad_expected_ciphertext_hash = ciphertext_hash sample_crypto sample_envelope,
       ad_endpoint_sequence = None, ad_sent_at = 0 \<rparr>"

lemma sample_writes:
  assumes "ps_write_results s = []"
  shows "send_outbound_command sample_crypto session_json sample_alice 77 sample_command 0 0 s =
     (Ok (), s\<lparr>ps_sent := ps_sent s @ [(Some (TagMessage ''m''), MessageFrame sample_envelope)],
        ps_active := hm_insert 3 sample_flight (ps_active s)\<rparr>)"
proof -
  obtain b where "index_frame (sample_frames @ [MessageFrame sample_envelope]) (MessageFrame sample_envelope) 100 = Ok b"
    using index_frame_in [of "MessageFrame sample_envelope" "sample_frames @ [MessageFrame sample_envelope]" 100] by auto
  then have e: "encode_frame session_json (MessageFrame sample_envelope) = Ok b"
    by (simp add: encode_frame_def session_json_def frames_json_def)
  have command: "oc_delivery sample_command = TagMessage ''m''" "oc_endpoint_updates sample_command = []"
    "envelope_new sample_crypto sample_alice 77 (oc_message_id sample_command) (oc_conversation_id sample_command)
       (oc_sequence sample_command) (oc_created_at sample_command) (oc_ciphertext sample_command) = sample_envelope"
    "oc_message_id sample_command = 3"
    by (simp_all add: sample_command_def sample_envelope_def)
  show ?thesis
    using assms unfolding send_outbound_command_def send_message_def Let_def command(1-3)
    by (cases s) (simp add: command(4) seq_def return_def write_frame_def e change_def sample_flight_def)
qed

definition sample_connected :: "peer_transport_event list \<Rightarrow> peer_session" where
  "sample_connected events =
     \<lparr> ps_queues = queues_default\<lparr>cq_durable := [sample_command], cq_dedupe := {key_of (TagMessage ''m'')}\<rparr>,
       ps_active = [], ps_awaiting = [], ps_probes = [], ps_sent_endpoint_sequence = 0,
       ps_last_activity = 0, ps_next_keepalive = 25000, ps_keepalive = None, ps_channel_open = True,
       ps_write_results = [], ps_sent = [], ps_events_open = True, ps_events = events,
       ps_accepted = [sample_command] \<rparr>"

definition sample_written :: "peer_transport_event list \<Rightarrow> peer_session" where
  "sample_written events = (sample_connected events)\<lparr>
     ps_queues := queues_default\<lparr>cq_dedupe := {key_of (TagMessage ''m'')}\<rparr>,
     ps_active := [(3, sample_flight)], ps_sent := [(Some (TagMessage ''m''), MessageFrame sample_envelope)]\<rparr>"

lemma sample_begins:
  "begin_session 0 ((receive_command sample_command sample_session)\<lparr>ps_events := events\<rparr>) = sample_connected events"
proof -
  have "oc_delivery sample_command = TagMessage ''m''" by (simp add: sample_command_def)
  then show ?thesis
    by (simp add: begin_session_def receive_command_def sample_session_def sample_connected_def on_queues_def
        enqueue_def insert_dedupe_def queues_default_def KEEPALIVE_INTERVAL_def key_of_def)
qed

lemma sample_dispatch: "dispatch (Suc (Suc 0)) sample_env 0 0 (sample_connected events) = (Running, sample_written events)"
proof -
  let ?q = "queues_default\<lparr>cq_dedupe := {key_of (TagMessage ''m'')}\<rparr>"
  let ?s = "(sample_connected events)\<lparr>ps_queues := ?q\<rparr>"
  have pop: "pop_next True (ps_queues (sample_connected events)) = (Some sample_command, ?q)"
    by (simp add: sample_connected_def pop_next_def queues_default_def)
  have run: "send_outbound_command (se_lib sample_env) (se_json sample_env) (se_identity sample_env)
      (se_session_id sample_env) sample_command 0 0 ?s = (Ok (), sample_written events)"
    using sample_writes [of ?s]
    by (simp add: sample_env_def) (simp add: sample_written_def sample_connected_def hm_insert_def)
  have "same_peer_endpoint (se_endpoint sample_env) (oc_endpoint sample_command)"
    by (simp add: sample_env_def same_peer_endpoint_def)
  moreover have "(sample_written events)\<lparr>ps_last_activity := 0\<rparr> = sample_written events"
    "ps_active (sample_connected events) = []" "ps_active (sample_written events) = [(3, sample_flight)]"
    by (simp_all add: sample_written_def sample_connected_def)
  ultimately show ?thesis
    using run by (simp only: dispatch.simps pop) (simp add: MAX_IN_FLIGHT_def)
qed

lemma sample_round:
  "session_iteration sample_env [] 0 0 0 SelectTick (sample_connected events) = (Running, sample_written events)"
proof -
  have "queued_count (ps_queues (sample_connected events)) = Suc 0"
    by (simp add: queued_count_def sample_connected_def queues_default_def)
  moreover have "check_timers sample_env 0 0 (sample_written events) = (Running, sample_written events)"
    by (simp add: check_timers_def expire_persisted_waiters_def sample_written_def sample_connected_def ack_overdue_def
        sample_flight_def ACK_TIMEOUT_def send_keepalive_def then_run_def session_quiet_def)
  ultimately show ?thesis
    using sample_dispatch [of events]
    by (simp add: session_iteration_def Let_def then_run_def select_step_def del: dispatch.simps)
qed

lemma session_run:
  "\<exists>events. reachable contact_start (contact_step (\<lambda>_. ''m'')) (sample_written events, Some sample_env)"
proof -
  let ?step = "contact_step (\<lambda>_. ''m'')" and ?s1 = "receive_command sample_command sample_session"
  have "contact_start (sample_session, None)"
    by (simp add: contact_start_def session_start_def sample_session_def)
  then have "reachable contact_start ?step (sample_session, None)" by (rule reachable.intros)
  moreover have "?step (sample_session, None) (?s1, None)"
    by (rule contact_step.take_command) (simp add: command_wf_def sample_command_def)
  ultimately have r1: "reachable contact_start ?step (?s1, None)" by (rule reachable.intros)
  obtain ws ws' events where c: "connect_outbound sample_crypto session_json sample_alice sample_command (Ok ())
      (replicate 32 4) \<lparr> io_socket = ws, io_events = [] \<rparr> = (Ok 77, \<lparr> io_socket = ws', io_events = events \<rparr>)"
    using session_connects by blast
  have "?step (?s1, None) (begin_session 0 (?s1\<lparr>ps_events := events\<rparr>), Some sample_env)"
    unfolding sample_env_def
  proof (rule contact_step.connected [where lib = sample_crypto and json = session_json and idn = sample_alice
          and command = sample_command and ws = ws and ws' = ws'])
    show "connection_template (ps_queues ?s1) = Some sample_command"
      by (simp add: receive_command_def sample_session_def enqueue_def insert_dedupe_def queues_default_def
          connection_template_def sample_command_def)
    have "ps_events ?s1 = []" by (simp add: receive_command_def sample_session_def on_queues_def)
    then show "connect_outbound sample_crypto session_json sample_alice sample_command (Ok ()) (replicate 32 4)
       \<lparr> io_socket = ws, io_events = ps_events ?s1 \<rparr> = (Ok 77, \<lparr> io_socket = ws', io_events = events \<rparr>)"
      using c by simp
  qed
  with r1 have "reachable contact_start ?step (sample_connected events, Some sample_env)"
    unfolding sample_begins by (rule reachable.intros)
  moreover have "?step (sample_connected events, Some sample_env) (sample_written events, Some sample_env)"
    by (rule contact_step.running [OF _ _ sample_round]) (simp_all add: event_wf_def)
  ultimately show ?thesis by (blast intro: reachable.intros)
qed

theorem contact_refines_pipeline_witness:
  "pipe_steps (pipeline_of sample_session) (pipeline_of (receive_command sample_command sample_session))"
proof -
  have "reachable contact_start (contact_step (\<lambda>_. ''m'')) (sample_session, None)"
    by (rule reachable.intros) (simp add: contact_start_def session_start_def sample_session_def)
  moreover have "contact_step (\<lambda>_. ''m'') (sample_session, None) (receive_command sample_command sample_session, None)"
    by (rule contact_step.take_command) (simp add: command_wf_def sample_command_def)
  ultimately show ?thesis using contact_refines_pipeline by fastforce
qed

theorem wire_order_is_accept_order_witness:
  "\<exists>events. subseq (concat (map wire_tag (ps_sent (sample_written events))) @
       map oc_delivery (cq_durable (ps_queues (sample_written events))))
     (map oc_delivery (ps_accepted (sample_written events))) \<and>
   concat (map wire_tag (ps_sent (sample_written events))) = [TagMessage ''m''] \<and>
   length (ps_active (sample_written events)) = 1"
  using session_run wire_order_is_accept_order
  by (fastforce simp: sample_written_def [unfolded sample_connected_def])

theorem accepted_delivery_accounted_witness:
  "\<exists>events. count_list (map oc_delivery (ps_accepted (sample_written events))) (TagMessage ''m'') \<le>
     count_list (concat (map report_tag (ps_events (sample_written events)))) (TagMessage ''m'') +
     count_list (map oc_delivery (cq_durable (ps_queues (sample_written events))) @
       flight_tags (ps_active (sample_written events))) (TagMessage ''m'') \<and>
   ps_accepted (sample_written events) = [sample_command]"
proof -
  obtain events where "reachable contact_start (contact_step (\<lambda>_. ''m'')) (sample_written events, Some sample_env)"
    using session_run by blast
  from accepted_delivery_accounted [OF this, of "TagMessage ''m''"] show ?thesis
    by (intro exI [of _ events]) (simp add: sample_written_def [unfolded sample_connected_def])
qed


end
