(* ===== verification/Peer_Inbound.thy ===== *)
theory Peer_Inbound
  imports Peer_Pipeline
begin

text \<open>
  The listening side of a session, \<open>serve_inbound\<close> of \<^verbatim>\<open>src/packages/torchat-peer/src/peer/inbound.rs\<close>: what an
  authenticated peer's frames do to the engine's event queue, to the frames queued for the writer task
  and to the shared table of authorized contacts. One reading of the clock serves a frame; the bounded
  queues are taken to have room. Other sessions and the engine's answers are steps of their own in
  \<open>inbound_step\<close>, so the theorems hold for every interleaving.
\<close>

section \<open>State of an inbound session\<close>

record inbound_state =
  ib_shared :: shared_peer_state
  ib_peer_endpoint :: peer_endpoint_bundle
  ib_writer_open :: bool
  ib_outbox :: "peer_frame list"
  ib_events_open :: bool
  ib_events :: "peer_transport_event list"

type_synonym 'a inbound_action = "(inbound_state, string, 'a) action"

definition queue_frame :: "peer_frame \<Rightarrow> unit inbound_action" where
  "queue_frame frame = (\<lambda>s.
     if ib_writer_open s then (Ok (), s\<lparr>ib_outbox := ib_outbox s @ [frame]\<rparr>)
     else (Err ''peer websocket writer stopped'', s))"

definition post_event :: "peer_transport_event \<Rightarrow> unit inbound_action" where
  "post_event e = (\<lambda>s.
     if ib_events_open s then (Ok (), s\<lparr>ib_events := ib_events s @ [e]\<rparr>)
     else (Err ''engine peer event queue is closed'', s))"

section \<open>Frames of an authenticated peer\<close>

definition received_ack :: "crypto_lib \<Rightarrow> 128 word \<Rightarrow> peer_message_envelope \<Rightarrow> peer_ack" where
  "received_ack lib session_id envelope =
     \<lparr> pa_session_id = session_id, pa_message_id = me_message_id envelope, pa_kind = AckReceived,
       pa_ciphertext_hash = ciphertext_hash lib envelope \<rparr>"

definition inbound_message ::
  "crypto_lib \<Rightarrow> inbound_session \<Rightarrow> peer_message_envelope \<Rightarrow> unit inbound_action" where
  "inbound_message lib session envelope =
     seq (lift (ensure (\<not> me_session_id envelope \<noteq> is_session_id session) ''peer message session mismatch'')) (\<lambda>_.
     seq (lift (envelope_verify lib envelope (is_peer_id session) (is_peer_key session))) (\<lambda>_.
     seq (queue_frame (AckFrame (received_ack lib (is_session_id session) envelope))) (\<lambda>_.
     post_event (InboundMessage envelope))))"

definition store_endpoint :: "inbound_session \<Rightarrow> unit inbound_action" where
  "store_endpoint session = (\<lambda>s.
     case hm_get (is_peer_id session) (sp_authorized (ib_shared s)) of
       None \<Rightarrow> (Err ''peer authorization disappeared'', s)
     | Some previous \<Rightarrow>
         (Ok (), s\<lparr>ib_shared := (ib_shared s)\<lparr>sp_authorized := hm_insert (is_peer_id session)
            \<lparr> au_public_key = is_peer_key session, au_endpoint = ib_peer_endpoint s,
              au_local_endpoint = au_local_endpoint previous,
              au_inbound_capability_id = au_inbound_capability_id previous,
              au_capability_secret = au_capability_secret previous \<rparr> (sp_authorized (ib_shared s))\<rparr>\<rparr>))"

definition inbound_endpoint_update ::
  "crypto_lib \<Rightarrow> inbound_session \<Rightarrow> int \<Rightarrow> peer_endpoint_update \<Rightarrow> unit inbound_action" where
  "inbound_endpoint_update lib session now update = (\<lambda>s.
     if ep_installation_id (eu_endpoint update) \<noteq> is_peer_id session \<or>
        ep_identity_public_key (eu_endpoint update) \<noteq> is_peer_key session
     then (Err ''peer endpoint update changed authenticated identity'', s)
     else if ep_sequence (eu_endpoint update) \<le> ep_sequence (ib_peer_endpoint s) then (Ok (), s)
     else
       seq (lift (update_validate lib update (ib_peer_endpoint s) now)) (\<lambda>_.
       seq (change (\<lambda>s. s\<lparr>ib_peer_endpoint := eu_endpoint update\<rparr>)) (\<lambda>_.
       seq (store_endpoint session) (\<lambda>_.
       post_event (EndpointUpdated (eu_endpoint update))))) s)"

definition handle_inbound_frame ::
  "crypto_lib \<Rightarrow> inbound_session \<Rightarrow> int \<Rightarrow> peer_frame \<Rightarrow> unit inbound_action" where
  "handle_inbound_frame lib session now frame =
     (case frame of
        MessageFrame envelope \<Rightarrow> inbound_message lib session envelope
      | EndpointUpdateFrame update \<Rightarrow> inbound_endpoint_update lib session now update
      | PingFrame nonce \<Rightarrow> queue_frame (PongFrame nonce)
      | PresenceFrame state _ expires_at _ \<Rightarrow>
          post_event (PresenceChangedEvent (is_peer_id session)
            (state \<noteq> PresenceOffline \<and> expires_at \<ge> now * 1000) (state = PresenceAway) (now * 1000) expires_at)
      | TypingFrame typing _ expires_at _ \<Rightarrow>
          post_event (TypingChangedEvent (is_peer_id session) (typing \<and> expires_at \<ge> now * 1000) expires_at)
      | FocusFrame focused _ expires_at _ \<Rightarrow>
          post_event (FocusChangedEvent (is_peer_id session) (focused \<and> expires_at \<ge> now * 1000) expires_at)
      | ProbeRequestFrame nonce \<Rightarrow> queue_frame (ProbeResponseFrame nonce PresenceOnline (now * 1000))
      | ProbeResponseFrame _ presence _ \<Rightarrow>
          post_event (PresenceChangedEvent (is_peer_id session) (presence \<noteq> PresenceOffline)
            (presence = PresenceAway) (now * 1000) (now * 1000 + 45000))
      | PongFrame _ \<Rightarrow> return ()
      | AckFrame _ \<Rightarrow> return ()
      | _ \<Rightarrow> throw ''unexpected authenticated peer frame'')"

text \<open>The task that forwards the engine's answers for one message: nothing is sent unless the message was
  stored in time.\<close>

definition forward_acks :: "peer_ack option \<Rightarrow> peer_ack option \<Rightarrow> inbound_state \<Rightarrow> inbound_state" where
  "forward_acks persisted delivered s =
     (case persisted of
        None \<Rightarrow> s
      | Some p \<Rightarrow>
          (case queue_frame (AckFrame p) s of
             (Inl _, s') \<Rightarrow> s'
           | (Inr _, s') \<Rightarrow>
               (case delivered of None \<Rightarrow> s' | Some d \<Rightarrow> snd (queue_frame (AckFrame d) s'))))"

section \<open>The session loop\<close>

fun inbound_loop ::
  "crypto_lib \<Rightarrow> json_lib \<Rightarrow> inbound_session \<Rightarrow> (stream_item \<times> int) list \<Rightarrow> unit inbound_action" where
  "inbound_loop lib json session [] = return ()"
| "inbound_loop lib json session ((item, now) # items) =
     (case item of
        StreamEnd \<Rightarrow> return ()
      | ReadError error \<Rightarrow> throw (''read peer frame: '' @ error)
      | Item message \<Rightarrow>
          (case decode_message json message True of
             Inl error \<Rightarrow> throw error
           | Inr None \<Rightarrow> return ()
           | Inr (Some frame) \<Rightarrow>
               seq (handle_inbound_frame lib session now frame) (\<lambda>_. inbound_loop lib json session items)))"

definition inbound_started :: "inbound_session \<Rightarrow> shared_peer_state \<Rightarrow> bool \<Rightarrow> inbound_state" where
  "inbound_started session st events_open =
     snd (post_event (ConnectionChanged (is_peer_id session) (Some (is_session_id session)) PcConnected None None)
       \<lparr> ib_shared = st, ib_peer_endpoint = is_peer_endpoint session, ib_writer_open = True, ib_outbox = [],
         ib_events_open = events_open, ib_events = [] \<rparr>)"

definition drop_inbound_lease :: "inbound_session \<Rightarrow> inbound_state \<Rightarrow> inbound_state" where
  "drop_inbound_lease session s =
     snd (post_event (ConnectionChanged (is_peer_id session) (Some (is_session_id session)) PcOffline None None) s)"

definition serve_inbound ::
  "crypto_lib \<Rightarrow> json_lib \<Rightarrow> identity \<Rightarrow> unit checked \<Rightarrow> bytes \<Rightarrow> 128 word \<Rightarrow> web_socket \<Rightarrow>
   (stream_item \<times> int) list \<Rightarrow> shared_peer_state \<Rightarrow> bool \<Rightarrow> unit checked \<times> inbound_state option" where
  "serve_inbound lib json idn upgrade nonce session_id ws items st events_open =
     (case upgrade of
        Inl error \<Rightarrow> (Err error, None)
      | Inr _ \<Rightarrow>
          (case authenticate_inbound lib json idn st nonce session_id ws of
             (Inl error, _) \<Rightarrow> (Err error, None)
           | (Inr session, _) \<Rightarrow>
               (case inbound_loop lib json session items (inbound_started session st events_open) of
                  (result, s) \<Rightarrow> (result, Some (drop_inbound_lease session s)))))"

text \<open>Between two frames other sessions may change the table of authorized contacts and the engine may
  answer for messages it was given.\<close>

inductive inbound_step :: "crypto_lib \<Rightarrow> inbound_session \<Rightarrow> inbound_state \<Rightarrow> inbound_state \<Rightarrow> bool"
  for lib session where
  frame: "handle_inbound_frame lib session now frame s = (r, s') \<Longrightarrow> inbound_step lib session s s'"
| forwarded: "inbound_step lib session s (forward_acks persisted delivered s)"
| table: "inbound_step lib session s (s\<lparr>ib_shared := st\<rparr>)"
| writer_stopped: "inbound_step lib session s (s\<lparr>ib_writer_open := False\<rparr>)"
| engine_stopped: "inbound_step lib session s (s\<lparr>ib_events_open := False\<rparr>)"

definition inbound_start :: "inbound_session \<Rightarrow> inbound_state \<Rightarrow> bool" where
  "inbound_start session s \<longleftrightarrow> (\<exists>st events_open. s = inbound_started session st events_open)"

section \<open>What reaches the engine\<close>

fun inbound_envelopes :: "peer_transport_event list \<Rightarrow> peer_message_envelope list" where
  "inbound_envelopes [] = []"
| "inbound_envelopes (InboundMessage m # es) = m # inbound_envelopes es"
| "inbound_envelopes (_ # es) = inbound_envelopes es"

fun updated_endpoints :: "peer_transport_event list \<Rightarrow> peer_endpoint_bundle list" where
  "updated_endpoints [] = []"
| "updated_endpoints (EndpointUpdated e # es) = e # updated_endpoints es"
| "updated_endpoints (_ # es) = updated_endpoints es"

lemma inbound_envelopes_append [simp]:
  "inbound_envelopes (es @ fs) = inbound_envelopes es @ inbound_envelopes fs"
  by (induction es rule: inbound_envelopes.induct) simp_all

lemma updated_endpoints_append [simp]:
  "updated_endpoints (es @ fs) = updated_endpoints es @ updated_endpoints fs"
  by (induction es rule: updated_endpoints.induct) simp_all

definition envelopes_ok :: "crypto_lib \<Rightarrow> inbound_session \<Rightarrow> inbound_state \<Rightarrow> bool" where
  "envelopes_ok lib session s \<longleftrightarrow>
     (\<forall>m \<in> set (inbound_envelopes (ib_events s)).
        me_session_id m = is_session_id session \<and>
        envelope_verify lib m (is_peer_id session) (is_peer_key session) = Ok () \<and>
        AckFrame (received_ack lib (is_session_id session) m) \<in> set (ib_outbox s))"

definition endpoints_ok :: "crypto_lib \<Rightarrow> inbound_session \<Rightarrow> inbound_state \<Rightarrow> bool" where
  "endpoints_ok lib session s \<longleftrightarrow>
     sorted_wrt (<) (ep_sequence (is_peer_endpoint session) # map ep_sequence (updated_endpoints (ib_events s))) \<and>
     (\<forall>e \<in> set (is_peer_endpoint session # updated_endpoints (ib_events s)).
        ep_sequence e \<le> ep_sequence (ib_peer_endpoint s)) \<and>
     (\<forall>e \<in> set (updated_endpoints (ib_events s)).
        ep_installation_id e = is_peer_id session \<and> ep_identity_public_key e = is_peer_key session \<and>
        (\<exists>now. endpoint_validate lib e now = Ok ()))"

definition inbound_inv :: "crypto_lib \<Rightarrow> inbound_session \<Rightarrow> inbound_state \<Rightarrow> bool" where
  "inbound_inv lib session s \<longleftrightarrow> envelopes_ok lib session s \<and> endpoints_ok lib session s"

definition grows :: "inbound_state \<Rightarrow> inbound_state \<Rightarrow> bool" where
  "grows s s' \<longleftrightarrow>
     inbound_envelopes (ib_events s') = inbound_envelopes (ib_events s) \<and>
     updated_endpoints (ib_events s') = updated_endpoints (ib_events s) \<and>
     set (ib_outbox s) \<subseteq> set (ib_outbox s') \<and>
     ep_sequence (ib_peer_endpoint s) \<le> ep_sequence (ib_peer_endpoint s')"

lemma grows_inv: "grows s s' \<Longrightarrow> inbound_inv lib session s \<Longrightarrow> inbound_inv lib session s'"
  by (auto simp: grows_def inbound_inv_def envelopes_ok_def endpoints_ok_def intro: order_trans)

lemma queue_frame_grows: "queue_frame f s = (r, s') \<Longrightarrow> grows s s'"
  by (auto simp: queue_frame_def grows_def split: if_splits)

lemma forward_acks_grows: "grows s (forward_acks persisted delivered s)"
  by (auto simp: forward_acks_def queue_frame_def grows_def split: option.splits)

lemma post_event_grows:
  "post_event e s = (r, s') \<Longrightarrow> inbound_envelopes [e] = [] \<Longrightarrow> updated_endpoints [e] = [] \<Longrightarrow> grows s s'"
  by (auto simp: post_event_def grows_def split: if_splits)

lemma inbound_message_inv:
  assumes "inbound_message lib session m s = (r, s')" "inbound_inv lib session s"
  shows "inbound_inv lib session s'"
  using assms
  by (auto simp: inbound_message_def seq_def lift_def ensure_def queue_frame_def post_event_def inbound_inv_def
      envelopes_ok_def endpoints_ok_def split: sum.splits if_splits)

lemma endpoint_update_inv:
  assumes run: "inbound_endpoint_update lib session now update s = (r, s')" and inv: "inbound_inv lib session s"
  shows "inbound_inv lib session s'"
proof -
  let ?e = "eu_endpoint update"
  consider (same) "s' = s"
    | (kept) "s' = s\<lparr>ib_peer_endpoint := ?e, ib_shared := ib_shared s'\<rparr>" "ep_sequence (ib_peer_endpoint s) < ep_sequence ?e"
    | (posted) "s' = s\<lparr>ib_peer_endpoint := ?e, ib_shared := ib_shared s', ib_events := ib_events s @ [EndpointUpdated ?e]\<rparr>"
        "ep_sequence (ib_peer_endpoint s) < ep_sequence ?e" "update_validate lib update (ib_peer_endpoint s) now = Ok ()"
        "ep_installation_id ?e = is_peer_id session" "ep_identity_public_key ?e = is_peer_key session"
    using run
    by (cases s) (auto simp: inbound_endpoint_update_def seq_def lift_def change_def store_endpoint_def post_event_def
        not_le split: if_splits sum.splits option.splits)
  then show ?thesis
  proof cases
    case kept
    then obtain st where "s' = s\<lparr>ib_peer_endpoint := ?e, ib_shared := st\<rparr>" by blast
    then have "grows s s'" using kept(2) by (simp add: grows_def)
    then show ?thesis using inv by (rule grows_inv)
  next
    case posted
    then obtain st where s': "s' = s\<lparr>ib_peer_endpoint := ?e, ib_shared := st, ib_events := ib_events s @ [EndpointUpdated ?e]\<rparr>"
      by blast
    have "endpoint_validate lib ?e now = Ok ()"
      using posted(3) by (simp add: update_validate_def validate_successor_def and_then_ok_iff)
    moreover have "\<forall>e \<in> set (is_peer_endpoint session # updated_endpoints (ib_events s)). ep_sequence e < ep_sequence ?e"
      using inv posted(2) by (auto simp: inbound_inv_def endpoints_ok_def)
    ultimately show ?thesis
      using inv posted(2,4,5) unfolding s'
      by (auto simp: inbound_inv_def envelopes_ok_def endpoints_ok_def sorted_wrt_append intro: less_imp_le)
  qed (use inv in simp)
qed

lemma inbound_frame_inv:
  assumes "handle_inbound_frame lib session now frame s = (r, s')" "inbound_inv lib session s"
  shows "inbound_inv lib session s'"
proof (cases frame)
  case (MessageFrame m)
  then show ?thesis using assms inbound_message_inv by (auto simp: handle_inbound_frame_def)
next
  case (EndpointUpdateFrame u)
  then show ?thesis using assms endpoint_update_inv by (auto simp: handle_inbound_frame_def)
qed (use assms in \<open>auto simp: handle_inbound_frame_def return_def throw_def dest: queue_frame_grows post_event_grows
    intro: grows_inv\<close>)

lemma inbound_step_inv: "inbound_inv lib session s \<Longrightarrow> inbound_step lib session s s' \<Longrightarrow> inbound_inv lib session s'"
  by (erule inbound_step.cases)
    (auto intro: inbound_frame_inv grows_inv [OF forward_acks_grows] grows_inv [rotated] simp: grows_def)

lemma inbound_start_inv: "inbound_start session s \<Longrightarrow> inbound_inv lib session s"
  by (cases "ib_events_open s")
    (auto simp: inbound_start_def inbound_started_def post_event_def inbound_inv_def envelopes_ok_def endpoints_ok_def
      split: if_splits)

interpretation inbound_system: invariant_system "inbound_start session" "inbound_step lib session" "inbound_inv lib session"
  for lib session
  by unfold_locales (auto intro: inbound_start_inv inbound_step_inv)

text \<open>The loop of a session is a run of these steps.\<close>

lemma inbound_loop_reachable:
  "reachable (inbound_start session) (inbound_step lib session) s \<Longrightarrow>
   inbound_loop lib json session items s = (r, s') \<Longrightarrow>
   reachable (inbound_start session) (inbound_step lib session) s'"
proof (induction lib json session items arbitrary: s rule: inbound_loop.induct)
  case (2 lib json session item now items)
  have step: "reachable (inbound_start session) (inbound_step lib session) s1"
    if "handle_inbound_frame lib session now frame s = (x, s1)" for frame x s1
    using 2(2) inbound_step.frame [OF that] by (rule reachable.intros)
  show ?case
  proof (cases item)
    case (Item message)
    show ?thesis
    proof (cases "decode_message json message True")
      case (Inr f)
      show ?thesis
      proof (cases f)
        case (Some frame)
        obtain x s1 where h: "handle_inbound_frame lib session now frame s = (x, s1)" by fastforce
        show ?thesis
          using 2(1) [OF Item Inr Some] step [OF h] 2(3) h Item Inr Some by (cases x) (auto simp: seq_def)
      qed (use 2(2,3) Item Inr in \<open>simp add: return_def\<close>)
    qed (use 2(2,3) Item in \<open>simp add: throw_def\<close>)
  qed (use 2(2,3) in \<open>simp_all add: throw_def return_def\<close>)
qed (simp add: return_def)

lemma serve_inbound_run:
  assumes "serve_inbound lib json idn upgrade nonce session_id ws items st events_open = (r, Some s)"
  obtains session ws' s0 where
    "authenticate_inbound lib json idn st nonce session_id ws = (Ok session, ws')"
    "reachable (inbound_start session) (inbound_step lib session) s0" "s = drop_inbound_lease session s0"
proof -
  obtain session ws' where a: "authenticate_inbound lib json idn st nonce session_id ws = (Ok session, ws')"
    using assms by (auto simp: serve_inbound_def split: sum.splits prod.splits)
  obtain x s0 where l: "inbound_loop lib json session items (inbound_started session st events_open) = (x, s0)"
    by fastforce
  have "reachable (inbound_start session) (inbound_step lib session) (inbound_started session st events_open)"
    by (rule reachable.intros) (auto simp: inbound_start_def)
  from inbound_loop_reachable [OF this l] show ?thesis
    using that assms a l by (auto simp: serve_inbound_def split: sum.splits)
qed

lemma signed_envelope:
  assumes "invite_json_ok json" "unforgeable lib json made" "statement_fits lib json (MessageStatement m)"
    and "envelope_verify lib m sender public_key = Ok ()"
  shows "\<exists>m'. MessageStatement m' \<in> made public_key \<and>
     m'\<lparr>me_ciphertext := [], me_signature := []\<rparr> = m\<lparr>me_ciphertext := [], me_signature := []\<rparr> \<and>
     ciphertext_hash lib m' = ciphertext_hash lib m"
proof -
  have "verify_signature lib public_key (envelope_signing_bytes lib m) (me_signature m)"
    using assms(4) by (simp add: envelope_verify_def and_then_ok_iff)
  then obtain s where s: "s \<in> made public_key" "statement_fits lib json s"
      "statement_bytes lib json s = Ok (envelope_signing_bytes lib m)"
    using assms(2) by (auto simp: unforgeable_def)
  have "claim_of lib json s = claim_of lib json (MessageStatement m)"
    by (rule statement_bytes_claim [OF assms(1) s(2) assms(3) s(3)]) simp
  then show ?thesis using s(1) by (cases s) auto
qed

lemma drop_lease_events [simp]:
  "inbound_envelopes (ib_events (drop_inbound_lease session s)) = inbound_envelopes (ib_events s)"
  "ib_outbox (drop_inbound_lease session s) = ib_outbox s"
  by (simp_all add: drop_inbound_lease_def post_event_def)



lemma endpoint_update_accepted:
  assumes "ep_installation_id (eu_endpoint u) = is_peer_id session" "ep_identity_public_key (eu_endpoint u) = is_peer_key session"
    and "update_validate lib u (ib_peer_endpoint s) now = Ok ()" "ib_events_open s"
    and "hm_get (is_peer_id session) (sp_authorized (ib_shared s)) = Some au"
  shows "handle_inbound_frame lib session now (EndpointUpdateFrame u) s =
     (Ok (), s\<lparr>ib_peer_endpoint := eu_endpoint u,
        ib_shared := (ib_shared s)\<lparr>sp_authorized := hm_insert (is_peer_id session)
          (au\<lparr>au_public_key := is_peer_key session, au_endpoint := eu_endpoint u\<rparr>) (sp_authorized (ib_shared s))\<rparr>,
        ib_events := ib_events s @ [EndpointUpdated (eu_endpoint u)]\<rparr>)"
proof -
  have "\<not> ep_sequence (eu_endpoint u) \<le> ep_sequence (ib_peer_endpoint s)"
    using assms(3) by (simp add: update_validate_def validate_successor_def and_then_ok_iff)
  then show ?thesis
    using assms by (cases s; cases au)
      (simp add: handle_inbound_frame_def inbound_endpoint_update_def seq_def lift_def change_def store_endpoint_def post_event_def)
qed

text \<open>C34: Two sessions with one contact roll its endpoint back. When both know the same endpoint, one
  accepts an update and then the other accepts an older one, both succeed and the table of authorized
  contacts ends with the older endpoint.\<close>

theorem stale_session_rolls_back:
  assumes same: "is_peer_id a = is_peer_id b" "is_peer_key a = is_peer_key b" "ib_peer_endpoint s = ib_peer_endpoint t"
    and open_events: "ib_events_open s" "ib_events_open t"
    and known: "hm_get (is_peer_id b) (sp_authorized (ib_shared t)) = Some au"
    and ids: "ep_installation_id (eu_endpoint u) = is_peer_id b" "ep_identity_public_key (eu_endpoint u) = is_peer_key b"
      "ep_installation_id (eu_endpoint v) = is_peer_id b" "ep_identity_public_key (eu_endpoint v) = is_peer_key b"
    and valid: "update_validate lib u (ib_peer_endpoint t) now = Ok ()" "update_validate lib v (ib_peer_endpoint t) now = Ok ()"
    and newer: "ep_sequence (eu_endpoint u) < ep_sequence (eu_endpoint v)"
    and first: "handle_inbound_frame lib b now (EndpointUpdateFrame v) t = (rt, t')"
    and second: "handle_inbound_frame lib a now (EndpointUpdateFrame u) (s\<lparr>ib_shared := ib_shared t'\<rparr>) = (rs, s')"
  shows "rt = Ok () \<and> rs = Ok () \<and>
     map_option (ep_sequence \<circ> au_endpoint) (hm_get (is_peer_id b) (sp_authorized (ib_shared t'))) =
       Some (ep_sequence (eu_endpoint v)) \<and>
     map_option (ep_sequence \<circ> au_endpoint) (hm_get (is_peer_id b) (sp_authorized (ib_shared s'))) =
       Some (ep_sequence (eu_endpoint u))"
proof -
  note t' = endpoint_update_accepted [OF ids(3,4) valid(2) open_events(2) known]
  have "hm_get (is_peer_id a) (sp_authorized (ib_shared (s\<lparr>ib_shared := ib_shared t'\<rparr>))) =
      Some (au\<lparr>au_public_key := is_peer_key b, au_endpoint := eu_endpoint v\<rparr>)"
    using t' first same by auto
  note s' = endpoint_update_accepted [OF _ _ _ _ this, of u lib now]
  show ?thesis
    using t' first s' second same ids(1,2) valid(1) open_events(1) by auto
qed

section \<open>A message and its acknowledgement\<close>

lemma ack_understood:
  assumes "hm_get (me_message_id m) (ps_active s) = Some d" "ad_expected_ciphertext_hash d = ciphertext_hash lib m"
    and "ps_events_open s"
  shows "fst (handle_ack inst session_id ((received_ack lib session_id m)\<lparr>pa_kind := kind\<rparr>) s) = Ok ()"
    and "ps_events (snd (handle_ack inst session_id ((received_ack lib session_id m)\<lparr>pa_kind := kind\<rparr>) s)) =
      ps_events s @ [AckEvent (ad_delivery d) kind inst (ad_endpoint_sequence d)]"
  using assms
  by (cases kind; simp add: handle_ack_def received_ack_def Let_def emit_event_def settle_ack_def persist_ack_def on_queues_def
      split: peer_delivery_tag.splits)+

lemma own_message_accepted:
  assumes "crypto_lib_ok lib" "sequence \<noteq> 0" "ciphertext \<noteq> []"
    and "m = envelope_new lib idn session_id message conversation sequence created ciphertext"
    and "is_peer_id session = identity_installation_id lib idn" "is_peer_key session = identity_public_key lib idn"
      "is_session_id session = session_id" "ib_writer_open r" "ib_events_open r"
  shows "handle_inbound_frame lib session now (MessageFrame m) r =
       (Ok (), r\<lparr>ib_outbox := ib_outbox r @ [AckFrame (received_ack lib session_id m)],
                 ib_events := ib_events r @ [InboundMessage m]\<rparr>)"
proof -
  have "envelope_verify lib m (is_peer_id session) (is_peer_key session) = Ok ()"
    using assms envelope_new_verifies [OF assms(1)] by simp
  moreover have "me_session_id m = session_id" using assms(4) by (simp add: envelope_new_fields)
  ultimately show ?thesis
    using assms(5-) by (cases r) (simp add: handle_inbound_frame_def inbound_message_def seq_def lift_def
        queue_frame_def post_event_def ensure_def)
qed

section \<open>Runs\<close>

text \<open>A signature scheme under which one transcript and one envelope verify.\<close>

definition served_crypto :: crypto_lib where
  "served_crypto = sample_crypto\<lparr>ed25519_verify := (\<lambda>pk m sig. m = sample_transcript \<or>
     m = envelope_signing_bytes sample_crypto sample_envelope)\<rparr>"

definition served_made :: "string \<Rightarrow> signed_statement set" where
  "served_made public_key = insert (MessageStatement sample_envelope) (strict_made public_key)"

lemma served_ids [simp]:
  "identity_installation_id served_crypto = identity_installation_id sample_crypto"
  "identity_public_key served_crypto = identity_public_key sample_crypto"
  "identity_sign served_crypto = identity_sign sample_crypto"
  "client_hello served_crypto = client_hello sample_crypto"
  "agreed_transcript served_crypto = agreed_transcript sample_crypto"
  "handshake_frames served_crypto = handshake_frames sample_crypto"
  "verify_capability_proof served_crypto = verify_capability_proof sample_crypto"
  "ciphertext_hash served_crypto = ciphertext_hash sample_crypto"
  "envelope_signing_bytes served_crypto = envelope_signing_bytes sample_crypto"
  by (simp_all add: fun_eq_iff served_crypto_def identity_installation_id_def identity_public_key_def
      identity_sign_def client_hello_def capability_proof_def agreed_transcript_def handshake_frames_def Let_def
      verify_capability_proof_def ciphertext_hash_def envelope_signing_bytes_def split: option.splits)

lemma served_fits: "statement_fits served_crypto json (MessageStatement sample_envelope)"
proof -
  have "length (sha256 sample_crypto b) = 32" for b by (simp add: sample_crypto_def)
  then show ?thesis
    by (simp add: sample_envelope_def envelope_new_def Let_def bytes_fit_def sample_sizes ciphertext_hash_def is_i64_def
        i64_min_def i64_max_def served_crypto_def)
qed

lemma served_unforgeable: "unforgeable served_crypto json served_made"
proof -
  have v: "verify_signature served_crypto pk m s \<Longrightarrow>
      m = sample_transcript \<or> m = envelope_signing_bytes sample_crypto sample_envelope" for pk m s
    by (auto simp: verify_signature_def served_crypto_def split: option.splits)
  have "\<exists>s \<in> strict_made pk. statement_fits served_crypto json s \<and> statement_bytes served_crypto json s = Ok sample_transcript"
    for pk
    by (simp add: strict_made_def sample_transcript_def agreed_transcript_def sample_onion sample_sizes bytes_fit_def
        client_hello_fields)
  moreover have "statement_bytes served_crypto json (MessageStatement sample_envelope) =
      Ok (envelope_signing_bytes sample_crypto sample_envelope)" by simp
  ultimately show ?thesis
    using served_fits unfolding unforgeable_def served_made_def by (blast dest: v)
qed

definition served_session :: inbound_session where
  "served_session =
     \<lparr> is_peer_id = identity_installation_id sample_crypto sample_alice,
       is_peer_key = identity_public_key sample_crypto sample_alice,
       is_peer_endpoint = sample_peer_endpoint sample_alice, is_session_id = 77 \<rparr>"

lemma served_hello:
  "check_hello served_crypto sample_shared (client_hello sample_crypto sample_alice sample_command (replicate 32 4)) =
     Ok sample_authorized"
proof -
  have "verify_capability_proof sample_crypto (oc_capability_secret sample_command)
      (client_hello sample_crypto sample_alice sample_command (replicate 32 4))"
    using sample_crypto_ok by (intro capability_proof_verifies) (simp_all add: crypto_lib_ok_def sample_command_def)
  then show ?thesis
    by (simp add: check_hello_ok client_hello_fields sample_shared_def hm_get_def sample_authorized_def
        sample_command_def)
qed

lemma served_authenticates:
  "\<exists>ws ws'. authenticate_inbound served_crypto session_json sample_bob sample_shared (replicate 32 5) 77 ws =
     (Ok served_session, ws')"
proof -
  obtain h c p a where f: "sample_frames = [h, c, p, a]"
    by (simp add: sample_frames_def handshake_frames_def Let_def)
  have "h \<in> set sample_frames" "c \<in> set sample_frames" "p \<in> set sample_frames" "a \<in> set sample_frames"
    unfolding f by simp_all
  note each = this [THEN session_fits]
  have frames: "handshake_frames served_crypto sample_alice sample_bob sample_command (replicate 32 4)
      (replicate 32 5) 77 = [h, c, p, a]"
    using f by (simp add: sample_frames_def)
  have own: "verify_signature served_crypto (identity_public_key sample_crypto sample_alice) sample_transcript
      (identity_sign sample_crypto sample_alice sample_transcript)"
    by (simp add: verify_signature_def served_crypto_def sample_crypto_def identity_public_key_def identity_sign_def)
  have "frame_json_ok session_json" by (simp add: session_json_def frames_json_ok)
  from authenticate_runs [OF this _ _ _ _ _ frames each, of sample_shared sample_authorized] own served_hello
  show ?thesis
    by (fastforce simp: sample_transcript_def sample_authorized_def sample_command_def served_session_def)
qed

lemma served_message:
  assumes "ib_writer_open s" "ib_events_open s"
  shows "handle_inbound_frame served_crypto served_session now (MessageFrame sample_envelope) s =
     (Ok (), s\<lparr>ib_outbox := ib_outbox s @ [AckFrame (received_ack served_crypto 77 sample_envelope)],
               ib_events := ib_events s @ [InboundMessage sample_envelope]\<rparr>)"
proof -
  have "verify_signature served_crypto (identity_public_key sample_crypto sample_alice)
      (envelope_signing_bytes sample_crypto sample_envelope) (me_signature sample_envelope)"
    by (simp add: verify_signature_def served_crypto_def sample_crypto_def identity_public_key_def identity_sign_def
        sample_envelope_def envelope_new_def Let_def)
  then show ?thesis
    using assms
    by (cases s) (simp add: handle_inbound_frame_def inbound_message_def served_session_def envelope_verify_def
        seq_def lift_def queue_frame_def post_event_def sample_envelope_def envelope_new_fields and_then_def ensure_def)
qed


text \<open>Three endpoints of one identity.\<close>

definition moving_endpoint :: "64 word \<Rightarrow> peer_endpoint_bundle" where
  "moving_endpoint sequence =
     endpoint_new sample_crypto sample_alice (replicate 56 CHR ''a'' @ ''.onion'') sequence 0 None"

definition moving_session :: inbound_session where
  "moving_session =
     \<lparr> is_peer_id = identity_installation_id sample_crypto sample_alice,
       is_peer_key = identity_public_key sample_crypto sample_alice,
       is_peer_endpoint = moving_endpoint 1, is_session_id = 77 \<rparr>"

definition moving_update :: "64 word \<Rightarrow> peer_endpoint_update" where
  "moving_update sequence = \<lparr> eu_previous_sequence = 1, eu_endpoint = moving_endpoint sequence \<rparr>"

lemma moving_fields:
  "ep_installation_id (moving_endpoint n) = identity_installation_id sample_crypto sample_alice"
  "ep_identity_public_key (moving_endpoint n) = identity_public_key sample_crypto sample_alice"
  "ep_sequence (moving_endpoint n) = n"
  by (simp_all add: moving_endpoint_def endpoint_new_fields)

lemma moving_valid:
  assumes "1 < n"
  shows "update_validate sample_crypto (moving_update n) (moving_endpoint 1) 0 = Ok ()"
proof -
  have onion: "is_valid_onion_address (to_ascii_lowercase (trim (replicate 56 CHR ''a'' @ ''.onion'')))" by code_simp
  have "i64_sub 0 0 \<le> MAX_ENDPOINT_CLOCK_SKEW_SECS" "validate_expiry None 0 = Ok ()" by code_simp+
  then have "endpoint_validate sample_crypto (moving_endpoint n) 0 = Ok ()"
    using assms unfolding moving_endpoint_def
    by (intro endpoint_new_validates [OF sample_crypto_ok _ _ onion]) auto
  then show ?thesis
    using assms by (simp add: update_validate_def validate_successor_def moving_update_def moving_fields and_then_def ensure_def)
qed

abbreviation moving_start :: inbound_state where
  "moving_start \<equiv> inbound_started moving_session sample_shared True"

lemma moving_accepted:
  assumes "1 < n" "ib_peer_endpoint s = moving_endpoint 1" "ib_events_open s"
    and "hm_get (identity_installation_id sample_crypto sample_alice) (sp_authorized (ib_shared s)) = Some au"
  shows "\<exists>s'. handle_inbound_frame sample_crypto moving_session 0 (EndpointUpdateFrame (moving_update n)) s = (Ok (), s') \<and>
     ib_events s' = ib_events s @ [EndpointUpdated (moving_endpoint n)]"
proof -
  have "update_validate sample_crypto (moving_update n) (ib_peer_endpoint s) 0 = Ok ()"
    using moving_valid [OF assms(1)] assms(2) by simp
  from endpoint_update_accepted [OF _ _ this assms(3), of moving_session au] assms(4) show ?thesis
    by (simp add: moving_session_def moving_update_def moving_fields)
qed

lemma moving_known:
  "hm_get (identity_installation_id sample_crypto sample_alice) (sp_authorized sample_shared) = Some sample_authorized"
  by (simp add: sample_shared_def hm_get_def)

lemma moving_started:
  "ib_peer_endpoint moving_start = moving_endpoint 1" "ib_events_open moving_start" "ib_shared moving_start = sample_shared"
  "updated_endpoints (ib_events moving_start) = []"
  by (simp_all add: inbound_started_def post_event_def moving_session_def)


theorem stale_session_rolls_back_witness:
  "\<exists>(t' :: inbound_state) s'. map_option (ep_sequence \<circ> au_endpoint) (hm_get (is_peer_id moving_session) (sp_authorized (ib_shared t'))) = Some 3 \<and>
     handle_inbound_frame sample_crypto moving_session 0 (EndpointUpdateFrame (moving_update 2))
       (moving_start\<lparr>ib_shared := ib_shared t'\<rparr>) = (Ok (), s') \<and>
     map_option (ep_sequence \<circ> au_endpoint) (hm_get (is_peer_id moving_session) (sp_authorized (ib_shared s'))) = Some 2"
proof -
  obtain rt t' where t: "handle_inbound_frame sample_crypto moving_session 0 (EndpointUpdateFrame (moving_update 3)) moving_start =
      (rt, t')" by fastforce
  obtain rs s' where s: "handle_inbound_frame sample_crypto moving_session 0 (EndpointUpdateFrame (moving_update 2))
      (moving_start\<lparr>ib_shared := ib_shared t'\<rparr>) = (rs, s')" by fastforce
  have "update_validate sample_crypto (moving_update 2) (ib_peer_endpoint moving_start) 0 = Ok ()"
    "update_validate sample_crypto (moving_update 3) (ib_peer_endpoint moving_start) 0 = Ok ()"
    using moving_valid by (simp_all add: moving_started)
  note valid = this
  have "hm_get (is_peer_id moving_session) (sp_authorized (ib_shared moving_start)) = Some sample_authorized"
    using moving_known by (simp add: moving_started) (simp add: moving_session_def)
  note known = this
  have ids: "ep_installation_id (eu_endpoint (moving_update n)) = is_peer_id moving_session"
    "ep_identity_public_key (eu_endpoint (moving_update n)) = is_peer_key moving_session"
    "ep_sequence (eu_endpoint (moving_update n)) = n" for n
    by (simp_all add: moving_update_def moving_session_def moving_fields)
  have newer: "ep_sequence (eu_endpoint (moving_update 2)) < ep_sequence (eu_endpoint (moving_update 3))"
    unfolding ids(3) by simp
  note stale_session_rolls_back [OF refl refl refl moving_started(2,2) known ids(1,2) ids(1,2) valid newer t s, unfolded ids(3)]
  then show ?thesis using s by blast
qed

end
