(* ===== verification/Mls_Snapshots.thy ===== *)
theory Mls_Snapshots
  imports Signed_Statements
begin

text \<open>
  The stored form of MLS state and its protection against rollback: the snapshot codec of
  \<^verbatim>\<open>src/packages/torchat-crypto/src/mls.rs\<close>, the checkpoints and anchors of
  \<^verbatim>\<open>src/packages/torchat-crypto/src/anti_rollback.rs\<close>, the vault anchor of the desktop host
  (\<^verbatim>\<open>src/apps/desktop/native/src/runtime_engine_stdio.rs\<close>), the snapshot table and the two places where
  the engine uses them: opening the conversations (\<^verbatim>\<open>actor/state.rs\<close>) and recording the committed ones
  (\<^verbatim>\<open>actor/state/runtime_transaction.rs\<close>).

  OpenMLS is the parameter \<open>mls_lib\<close>; SHA-256 is that of \<open>crypto_lib\<close>. A reader is an action on the
  remaining input. The locale \<open>reads_encoding\<close> is the contract of a reader with its writer, interpreted on
  the readers of the codec; every such writer is self-delimiting. A system of commits, recorded checkpoints and
  restarts has the anchor as its invariant.
\<close>

section \<open>Reading and writing blobs\<close>

definition from_be_bytes :: "bytes \<Rightarrow> 'a::len word" where
  "from_be_bytes b = word_of_int (horner_sum uint 256 (rev b))"

definition write_blob :: "bytes \<Rightarrow> bytes \<Rightarrow> bytes" where
  "write_blob output value = output @ to_be_bytes 4 (word_of_nat (length value) :: 32 word) @ value"

type_synonym 'a snapshot_reader = "(bytes, string, 'a) action"

definition take_bytes :: "nat \<Rightarrow> bytes snapshot_reader" where
  "take_bytes n = (\<lambda>input.
     if length input < n then (Err ''truncated MLS snapshot'', input) else (Ok (take n input), drop n input))"

definition take_blob :: "bytes snapshot_reader" where
  "take_blob = seq (take_bytes 4) (\<lambda>n. take_bytes (unat (from_be_bytes n :: 32 word)))"

definition take_u16 :: "16 word snapshot_reader" where
  "take_u16 = seq (take_bytes 2) (\<lambda>b. return (from_be_bytes b))"

definition take_u32 :: "32 word snapshot_reader" where
  "take_u32 = seq (take_bytes 4) (\<lambda>b. return (from_be_bytes b))"

definition take_u64 :: "64 word snapshot_reader" where
  "take_u64 = seq (take_bytes 8) (\<lambda>b. return (from_be_bytes b))"

section \<open>Conversations and members\<close>

text \<open>The key-value store of the provider, in the order its map is iterated.\<close>

type_synonym mls_values = "(bytes \<times> bytes) list"

text \<open>What OpenMLS is asked for: whether a signer is stored under a public key, and the group id and
  epoch of a stored group; and the name of the cipher suite.\<close>

record mls_lib =
  signer_read :: "mls_values \<Rightarrow> bytes \<Rightarrow> bool"
  group_load :: "mls_values \<Rightarrow> bytes \<Rightarrow> (bytes \<times> 64 word) option checked"
  suite_text :: string

record direct_conversation =
  dc_values :: mls_values
  dc_signer :: bytes
  dc_group_id :: bytes
  dc_epoch :: "64 word"

record mls_member =
  mm_values :: mls_values
  mm_signer :: bytes
  mm_identity :: bytes

definition MLS_SNAPSHOT_HEADER :: bytes where "MLS_SNAPSHOT_HEADER = as_bytes ''TCMLS1''"
definition MLS_SNAPSHOT_V2_HEADER :: bytes where "MLS_SNAPSHOT_V2_HEADER = as_bytes ''TCMLS2''"
definition MLS_SNAPSHOT_APP_SCHEMA :: "16 word" where "MLS_SNAPSHOT_APP_SCHEMA = 1"
definition MLS_SNAPSHOT_OPENMLS_VERSION :: bytes where "MLS_SNAPSHOT_OPENMLS_VERSION = as_bytes ''0.8.1''"

definition write_values :: "bytes \<Rightarrow> mls_values \<Rightarrow> bytes" where
  "write_values output vs = fold (\<lambda>(key, value) output. write_blob (write_blob output key) value) vs output"

fun take_values :: "nat \<Rightarrow> mls_values \<Rightarrow> mls_values snapshot_reader" where
  "take_values 0 vs = return vs"
| "take_values (Suc n) vs =
     seq take_blob (\<lambda>key. seq take_blob (\<lambda>value. take_values n (hm_insert key value vs)))"

definition member_snapshot :: "mls_member \<Rightarrow> bytes" where
  "member_snapshot m =
     (let output = as_bytes ''TCMEM1'';
          output = write_blob output (mm_signer m);
          output = output @ to_be_bytes 4 (word_of_nat (length (mm_values m)) :: 32 word)
      in write_values output (mm_values m))"

definition member_restore :: "mls_lib \<Rightarrow> bytes \<Rightarrow> bytes \<Rightarrow> mls_member checked" where
  "member_restore mls snapshot identity =
     fst (seq (take_bytes 6) (\<lambda>header.
          seq (lift (ensure (header = as_bytes ''TCMEM1'') ''invalid MLS member snapshot header'')) (\<lambda>_.
          seq take_blob (\<lambda>signer_public.
          seq take_u32 (\<lambda>count.
          seq (take_values (unat count) []) (\<lambda>values.
          seq (ask id) (\<lambda>rest.
          seq (lift (ensure (rest = []) ''trailing MLS member snapshot data'')) (\<lambda>_.
          seq (lift (ensure (signer_read mls values signer_public) ''MLS signer missing from member snapshot'')) (\<lambda>_.
          return \<lparr> mm_values = values, mm_signer = signer_public, mm_identity = identity \<rparr>)))))))) snapshot)"

definition snapshot_payload :: "direct_conversation \<Rightarrow> bytes" where
  "snapshot_payload c =
     (let output = as_bytes ''TCMLS1'';
          output = write_blob output (dc_signer c);
          output = write_blob output (dc_group_id c);
          output = output @ to_be_bytes 4 (word_of_nat (length (dc_values c)) :: 32 word)
      in write_values output (dc_values c))"

definition restore_payload :: "mls_lib \<Rightarrow> bytes \<Rightarrow> direct_conversation checked" where
  "restore_payload mls snapshot =
     fst (seq (take_bytes 6) (\<lambda>header.
          seq (lift (ensure (header = as_bytes ''TCMLS1'') ''invalid MLS snapshot header'')) (\<lambda>_.
          seq take_blob (\<lambda>signer_public.
          seq take_blob (\<lambda>group_id.
          seq take_u32 (\<lambda>count.
          seq (take_values (unat count) []) (\<lambda>values.
          seq (lift (ensure (signer_read mls values signer_public) ''MLS signer missing from snapshot'')) (\<lambda>_.
          seq (lift (case group_load mls values group_id of
                       Inl e \<Rightarrow> Err (''load MLS group: '' @ e)
                     | Inr None \<Rightarrow> Err ''MLS group missing from snapshot''
                     | Inr (Some g) \<Rightarrow> Ok g)) (\<lambda>(gid, epoch).
          return \<lparr> dc_values = values, dc_signer = signer_public, dc_group_id = gid, dc_epoch = epoch \<rparr>)))))))) snapshot)"

definition snapshot_prefix :: "mls_lib \<Rightarrow> bytes \<Rightarrow> direct_conversation \<Rightarrow> bytes" where
  "snapshot_prefix mls header c =
     (let output = header @ to_be_bytes 2 MLS_SNAPSHOT_APP_SCHEMA;
          output = write_blob output MLS_SNAPSHOT_OPENMLS_VERSION;
          output = write_blob output (as_bytes (suite_text mls));
          output = write_blob output (dc_group_id c)
      in output @ to_be_bytes 8 (dc_epoch c))"

definition snapshot_current :: "crypto_lib \<Rightarrow> mls_lib \<Rightarrow> direct_conversation \<Rightarrow> bytes" where
  "snapshot_current lib mls c =
     (let payload = snapshot_payload c
      in write_blob (snapshot_prefix mls MLS_SNAPSHOT_HEADER c @ sha256 lib payload) payload)"

definition snapshot_v2 :: "crypto_lib \<Rightarrow> mls_lib \<Rightarrow> direct_conversation \<Rightarrow> 64 word \<Rightarrow> bytes" where
  "snapshot_v2 lib mls c state_version =
     (let payload = snapshot_payload c
      in write_blob (snapshot_prefix mls MLS_SNAPSHOT_V2_HEADER c @ to_be_bytes 8 state_version @
           sha256 lib payload) payload)"

definition restore_current :: "crypto_lib \<Rightarrow> mls_lib \<Rightarrow> bytes \<Rightarrow> direct_conversation checked" where
  "restore_current lib mls snapshot =
     fst (seq (take_bytes 6) (\<lambda>header.
          let is_v2 = (header = MLS_SNAPSHOT_V2_HEADER) in
          seq (lift (ensure (\<not> (header \<noteq> MLS_SNAPSHOT_HEADER \<and> \<not> is_v2)) ''invalid MLS snapshot header'')) (\<lambda>_.
          seq take_u16 (\<lambda>schema.
          seq (lift (ensure (schema = MLS_SNAPSHOT_APP_SCHEMA) ''unsupported MLS app schema'')) (\<lambda>_.
          seq take_blob (\<lambda>openmls_version.
          seq (lift (ensure (openmls_version = MLS_SNAPSHOT_OPENMLS_VERSION)
                 ''unsupported OpenMLS snapshot version'')) (\<lambda>_.
          seq take_blob (\<lambda>suite.
          seq (lift (ensure (suite = as_bytes (suite_text mls)) ''unsupported MLS ciphersuite'')) (\<lambda>_.
          seq take_blob (\<lambda>envelope_group_id.
          seq take_u64 (\<lambda>epoch.
          seq (if is_v2 then seq take_u64 (\<lambda>_. return ()) else return ()) (\<lambda>_.
          seq (take_bytes 32) (\<lambda>checksum.
          seq take_blob (\<lambda>payload.
          seq (ask id) (\<lambda>rest.
          seq (lift (ensure (\<not> (rest \<noteq> [] \<or> sha256 lib payload \<noteq> checksum))
                 ''MLS snapshot checksum or trailing data mismatch'')) (\<lambda>_.
          seq (lift (restore_payload mls payload)) (\<lambda>conversation.
          seq (lift (ensure (\<not> (dc_group_id conversation \<noteq> envelope_group_id \<or> dc_epoch conversation \<noteq> epoch))
                 ''MLS snapshot envelope metadata mismatch'')) (\<lambda>_.
          return conversation))))))))))))))))) snapshot)"

definition starts_with_bytes :: "bytes \<Rightarrow> bytes \<Rightarrow> bool" where
  "starts_with_bytes prefix b \<longleftrightarrow> take (length prefix) b = prefix"

definition restore_v2 :: "crypto_lib \<Rightarrow> mls_lib \<Rightarrow> bytes \<Rightarrow> direct_conversation checked" where
  "restore_v2 lib mls snapshot =
     (if \<not> starts_with_bytes MLS_SNAPSHOT_V2_HEADER snapshot then Err ''expected MLS snapshot V2''
      else restore_current lib mls snapshot)"

definition migrate_v1_to_v2 :: "crypto_lib \<Rightarrow> mls_lib \<Rightarrow> bytes \<Rightarrow> 64 word \<Rightarrow> bytes checked" where
  "migrate_v1_to_v2 lib mls snapshot next_state_version =
     (if \<not> starts_with_bytes MLS_SNAPSHOT_HEADER snapshot then Err ''expected MLS snapshot V1''
      else and_then (restore_current lib mls snapshot) (\<lambda>c. Ok (snapshot_v2 lib mls c next_state_version)))"

record mls_snapshot_metadata =
  sm_app_schema :: "16 word"
  sm_openmls_version :: bytes
  sm_ciphersuite :: bytes
  sm_group_id :: bytes
  sm_epoch :: "64 word"
  sm_state_version :: "64 word option"
  sm_snapshot_hash :: bytes

definition parse_snapshot_metadata :: "crypto_lib \<Rightarrow> bytes \<Rightarrow> mls_snapshot_metadata checked" where
  "parse_snapshot_metadata lib snapshot =
     fst (seq (take_bytes 6) (\<lambda>header.
          seq (lift (if header = MLS_SNAPSHOT_V2_HEADER then Ok None
                     else if header = MLS_SNAPSHOT_HEADER then Ok (Some (0 :: 64 word))
                     else Err ''invalid MLS snapshot header'')) (\<lambda>version.
          seq take_u16 (\<lambda>app_schema.
          seq take_blob (\<lambda>openmls_version.
          seq take_blob (\<lambda>ciphersuite.
          seq take_blob (\<lambda>group_id.
          seq take_u64 (\<lambda>epoch.
          seq (if version = None then seq take_u64 (\<lambda>v. return (Some v)) else return None) (\<lambda>state_version.
          seq (take_bytes 32) (\<lambda>snapshot_hash.
          seq take_blob (\<lambda>payload.
          seq (ask id) (\<lambda>rest.
          seq (lift (ensure (\<not> (rest \<noteq> [] \<or> sha256 lib payload \<noteq> snapshot_hash))
                 ''MLS snapshot metadata checksum mismatch'')) (\<lambda>_.
          return \<lparr> sm_app_schema = app_schema, sm_openmls_version = openmls_version, sm_ciphersuite = ciphersuite,
                   sm_group_id = group_id, sm_epoch = epoch, sm_state_version = state_version,
                   sm_snapshot_hash = snapshot_hash \<rparr>)))))))))))) snapshot)"

section \<open>Checkpoints and anchors\<close>

datatype mls_recovery_state = MlsReady | RePairRequired

record anchored_checkpoint =
  ac_state_version :: "64 word"
  ac_epoch :: "64 word"
  ac_snapshot_hash :: bytes

definition validate_checkpoint :: "anchored_checkpoint option \<Rightarrow> anchored_checkpoint \<Rightarrow> mls_recovery_state" where
  "validate_checkpoint anchored candidate =
     (case anchored of
        None \<Rightarrow> MlsReady
      | Some anchored \<Rightarrow>
          if ac_snapshot_hash anchored = [] then
            (if ac_epoch candidate < ac_epoch anchored then RePairRequired else MlsReady)
          else if ac_state_version candidate < ac_state_version anchored \<or>
                  (ac_state_version candidate = ac_state_version anchored \<and>
                   ac_snapshot_hash candidate \<noteq> ac_snapshot_hash anchored)
          then RePairRequired else MlsReady)"

definition validate_snapshot_checkpoint ::
  "('s \<Rightarrow> string \<Rightarrow> anchored_checkpoint option checked) \<Rightarrow>
   (string \<Rightarrow> anchored_checkpoint \<Rightarrow> ('s, string, unit) action) \<Rightarrow>
   string \<Rightarrow> anchored_checkpoint \<Rightarrow> ('s, string, mls_recovery_state) action" where
  "validate_snapshot_checkpoint highest_checkpoint record_checkpoint conversation_id candidate =
     seq (ask (\<lambda>s. highest_checkpoint s conversation_id)) (\<lambda>r.
     seq (lift r) (\<lambda>anchored.
     if validate_checkpoint anchored candidate = RePairRequired then return RePairRequired
     else seq (record_checkpoint conversation_id candidate) (\<lambda>_. return MlsReady)))"

text \<open>The two methods an anchor gets when it only keeps epochs.\<close>

definition epoch_highest_checkpoint ::
  "('s \<Rightarrow> string \<Rightarrow> 64 word option checked) \<Rightarrow> 's \<Rightarrow> string \<Rightarrow> anchored_checkpoint option checked" where
  "epoch_highest_checkpoint highest_epoch s conversation_id =
     and_then (highest_epoch s conversation_id) (\<lambda>e.
     Ok (map_option (\<lambda>epoch. \<lparr> ac_state_version = epoch, ac_epoch = epoch, ac_snapshot_hash = [] \<rparr>) e))"

definition epoch_record_checkpoint ::
  "(string \<Rightarrow> 64 word \<Rightarrow> ('s, string, unit) action) \<Rightarrow> string \<Rightarrow> anchored_checkpoint \<Rightarrow> ('s, string, unit) action" where
  "epoch_record_checkpoint record_epoch conversation_id checkpoint = record_epoch conversation_id (ac_epoch checkpoint)"

definition validate_snapshot_epoch ::
  "('s \<Rightarrow> string \<Rightarrow> 64 word option checked) \<Rightarrow> (string \<Rightarrow> 64 word \<Rightarrow> ('s, string, unit) action) \<Rightarrow>
   string \<Rightarrow> 64 word \<Rightarrow> ('s, string, mls_recovery_state) action" where
  "validate_snapshot_epoch highest_epoch record_epoch conversation_id snapshot_epoch =
     seq (ask (\<lambda>s. highest_epoch s conversation_id)) (\<lambda>r.
     seq (lift r) (\<lambda>stored.
     if (case stored of None \<Rightarrow> False | Some epoch \<Rightarrow> snapshot_epoch < epoch) then return RePairRequired
     else seq (record_epoch conversation_id snapshot_epoch) (\<lambda>_. return MlsReady)))"

section \<open>The vault of the desktop host\<close>

definition CHECKPOINT_MAGIC :: bytes where "CHECKPOINT_MAGIC = as_bytes ''TCANCHK2''"

definition encode_checkpoint :: "anchored_checkpoint \<Rightarrow> bytes" where
  "encode_checkpoint c =
     CHECKPOINT_MAGIC @ to_be_bytes 8 (ac_state_version c) @ to_be_bytes 8 (ac_epoch c) @
     to_be_bytes 4 (word_of_nat (length (ac_snapshot_hash c)) :: 32 word) @ ac_snapshot_hash c"

definition decode_checkpoint :: "bytes \<Rightarrow> anchored_checkpoint checked" where
  "decode_checkpoint b =
     (if length b = 8 then
        let epoch = from_be_bytes b in Ok \<lparr> ac_state_version = epoch, ac_epoch = epoch, ac_snapshot_hash = [] \<rparr>
      else if length b < 28 \<or> take 8 b \<noteq> CHECKPOINT_MAGIC then Err ''invalid MLS checkpoint header''
      else if unat (from_be_bytes (take 4 (drop 24 b)) :: 32 word) \<noteq> length b - 28
      then Err ''invalid MLS checkpoint length''
      else Ok \<lparr> ac_state_version = from_be_bytes (take 8 (drop 8 b)), ac_epoch = from_be_bytes (take 8 (drop 16 b)),
                ac_snapshot_hash = drop 28 b \<rparr>)"

type_synonym vault = "(string \<times> bytes) list"

definition vault_account :: "crypto_lib \<Rightarrow> string \<Rightarrow> string \<Rightarrow> string" where
  "vault_account lib namespace conversation_id =
     ''mls-epoch-'' @ namespace @ ''-'' @ concat (map hex_byte (sha256 lib (as_bytes conversation_id)))"

definition vault_highest_checkpoint ::
  "crypto_lib \<Rightarrow> string \<Rightarrow> vault \<Rightarrow> string \<Rightarrow> anchored_checkpoint option checked" where
  "vault_highest_checkpoint lib namespace v conversation_id =
     (case hm_get (vault_account lib namespace conversation_id) v of
        None \<Rightarrow> Ok None
      | Some value \<Rightarrow> and_then (decode_checkpoint value) (\<lambda>c. Ok (Some c)))"

definition vault_record_checkpoint ::
  "crypto_lib \<Rightarrow> string \<Rightarrow> string \<Rightarrow> anchored_checkpoint \<Rightarrow> (vault, string, unit) action" where
  "vault_record_checkpoint lib namespace conversation_id checkpoint =
     change (hm_insert (vault_account lib namespace conversation_id) (encode_checkpoint checkpoint))"

section \<open>The stored snapshot of a conversation\<close>

record mls_row =
  mr_snapshot :: bytes
  mr_state_version :: int
  mr_snapshot_hash :: "bytes option"

definition put_conversation_mls_snapshot :: "crypto_lib \<Rightarrow> bytes \<Rightarrow> mls_row option \<Rightarrow> mls_row" where
  "put_conversation_mls_snapshot lib snapshot row =
     \<lparr> mr_snapshot = snapshot,
       mr_state_version = (case row of None \<Rightarrow> 1 | Some r \<Rightarrow> mr_state_version r + 1),
       mr_snapshot_hash = Some (sha256 lib snapshot) \<rparr>"

definition row_checkpoint :: "mls_row \<Rightarrow> 64 word \<Rightarrow> anchored_checkpoint" where
  "row_checkpoint row epoch =
     \<lparr> ac_state_version = word_of_int (max 0 (mr_state_version row)), ac_epoch = epoch,
       ac_snapshot_hash = (case mr_snapshot_hash row of None \<Rightarrow> [] | Some h \<Rightarrow> h) \<rparr>"

definition restore_action :: "string \<Rightarrow> string" where
  "restore_action e =
     (if contains_text ''unsupported MLS'' e \<or> contains_text ''invalid MLS snapshot header'' e
      then ''re-pair required'' else ''repair local data or re-pair'')"

definition re_pair_error :: "string \<Rightarrow> string" where
  "re_pair_error conversation_id = ''MLS conversation snapshot for '' @ conversation_id @ '': re-pair required''"

text \<open>Opening the engine: one conversation of \<open>load_conversations\<close>.\<close>

definition load_conversation ::
  "crypto_lib \<Rightarrow> mls_lib \<Rightarrow> string \<Rightarrow> string \<Rightarrow> mls_row \<Rightarrow> (vault, string, direct_conversation) action" where
  "load_conversation lib mls namespace conversation_id row =
     seq (lift (case restore_current lib mls (mr_snapshot row) of
                  Inl e \<Rightarrow> Err (''restore MLS conversation snapshot for '' @ conversation_id @ '': '' @ e @ ''; '' @
                              restore_action e)
                | Inr c \<Rightarrow> Ok c)) (\<lambda>conversation.
     seq (validate_snapshot_checkpoint (vault_highest_checkpoint lib namespace)
            (vault_record_checkpoint lib namespace) conversation_id (row_checkpoint row (dc_epoch conversation))) (\<lambda>state.
     case state of
       MlsReady \<Rightarrow> return conversation
     | RePairRequired \<Rightarrow>
         throw (re_pair_error conversation_id)))"

text \<open>After a transaction: the checkpoint of a changed conversation is recorded as it is.\<close>

definition record_committed ::
  "crypto_lib \<Rightarrow> mls_lib \<Rightarrow> string \<Rightarrow> string \<Rightarrow> mls_row \<Rightarrow> (vault, string, unit) action" where
  "record_committed lib mls namespace conversation_id row =
     seq (lift (restore_current lib mls (mr_snapshot row))) (\<lambda>conversation.
     vault_record_checkpoint lib namespace conversation_id (row_checkpoint row (dc_epoch conversation)))"

section \<open>Readers undo writers\<close>

text \<open>The contract of a reader for an encoding: in front of any rest it returns the encoded value and
  leaves the rest.\<close>

locale reads_encoding =
  fixes rd :: "('b list, 'e, 'a) action" and enc :: "'a \<Rightarrow> 'b list" and fits :: "'a \<Rightarrow> bool"
  assumes reads: "fits x \<Longrightarrow> rd (enc x @ rest) = (Inr x, rest)"
begin

lemma seq_reads: "fits x \<Longrightarrow> seq rd k (enc x @ rest) = k x rest"
  by (simp add: reads seq_ok)

lemma seq_reads_last: "fits x \<Longrightarrow> seq rd k (enc x) = k x []"
  using seq_reads [of x k "[]"] by simp

lemma reads_unique: "fits x \<Longrightarrow> fits y \<Longrightarrow> enc x @ r = enc y @ s \<Longrightarrow> x = y \<and> r = s"
  by (metis reads prod.inject sum.inject(2))

end

sublocale reads_encoding \<subseteq> delimited: self_delimiting enc fits
  by unfold_locales (rule reads_unique)

lemma horner_sum_bytes:
  "horner_sum uint 256 (map (\<lambda>i. ucast (drop_bit (8 * i) x) :: 8 word) [0..<n]) = take_bit (8 * n) (uint (x :: 'a::len word))"
proof (induction n)
  case (Suc n)
  have "uint (drop_bit (8 * n) x) = drop_bit (8 * n) (uint x)"
    by (rule bit_eqI) (simp add: bit_simps)
  then have byte: "uint (ucast (drop_bit (8 * n) x) :: 8 word) = uint x div 256 ^ n mod 256"
    by (simp only: unsigned_ucast_eq) (simp add: drop_bit_eq_div take_bit_eq_mod power_mult)
  have "take_bit (8 * Suc n) (uint x) = uint x mod (256 ^ n * 256)"
    by (simp add: take_bit_eq_mod power_mult power_add) (simp add: mult.commute)
  also have "\<dots> = 256 ^ n * (uint x div 256 ^ n mod 256) + uint x mod 256 ^ n"
    by (rule zmod_zmult2_eq) simp
  finally show ?case
    using Suc by (simp add: horner_sum_append byte take_bit_eq_mod power_mult)
qed simp

lemma uint_less_bytes: "LENGTH('a) \<le> 8 * n \<Longrightarrow> uint (x :: 'a::len word) < 2 ^ (8 * n)"
  by (rule order_less_le_trans [OF uint_lt2p]) (rule power_increasing, simp_all)

lemma from_be_to_be [simp]:
  "LENGTH('a) \<le> 8 * n \<Longrightarrow> from_be_bytes (to_be_bytes n (x :: 'a::len word)) = x"
  using uint_less_bytes [of n x]
  by (simp add: from_be_bytes_def to_be_bytes_def rev_map horner_sum_bytes take_bit_eq_mod)

lemma take_bytes_append: "length b = n \<Longrightarrow> take_bytes n (b @ rest) = (Inr b, rest)"
  by (simp add: take_bytes_def)

lemma seq_take_bytes: "length b = n \<Longrightarrow> seq (take_bytes n) k (b @ rest) = k b rest"
  by (simp add: seq_ok take_bytes_append)

interpretation read_u16: reads_encoding take_u16 "to_be_bytes 2" "\<lambda>_. True"
  by unfold_locales (simp add: take_u16_def seq_take_bytes)

interpretation read_u32: reads_encoding take_u32 "to_be_bytes 4" "\<lambda>_. True"
  by unfold_locales (simp add: take_u32_def seq_take_bytes)

interpretation read_u64: reads_encoding take_u64 "to_be_bytes 8" "\<lambda>_. True"
  by unfold_locales (simp add: take_u64_def seq_take_bytes)

lemma write_blob_push: "write_blob output v = push_bytes output v"
  by (simp add: write_blob_def push_bytes_def push_u32_def)

interpretation read_blob: reads_encoding take_blob "push_bytes []" bytes_fit
  by unfold_locales
     (simp add: take_blob_def push_bytes_def push_u32_def seq_take_bytes take_bytes_append bytes_fit_def
        unsigned_of_nat take_bit_nat_eq_self)

definition entry_bytes :: "bytes \<times> bytes \<Rightarrow> bytes" where
  "entry_bytes e = push_bytes [] (fst e) @ push_bytes [] (snd e)"

definition values_fit :: "mls_values \<Rightarrow> bool" where
  "values_fit vs \<longleftrightarrow>
     distinct (map fst vs) \<and> bytes_fit vs \<and> list_all (\<lambda>(key, value). bytes_fit key \<and> bytes_fit value) vs"

lemma write_values_eq: "write_values out vs = out @ concat (map entry_bytes vs)"
proof (induction vs arbitrary: out)
  case (Cons e vs)
  have "write_values out (e # vs) = write_values (write_blob (write_blob out (fst e)) (snd e)) vs"
    by (simp add: write_values_def split: prod.splits)
  also have "\<dots> = out @ entry_bytes e @ concat (map entry_bytes vs)"
    by (simp add: Cons.IH) (simp add: write_blob_push push_bytes_def push_u32_def entry_bytes_def)
  finally show ?case by simp
qed (simp add: write_values_def)

lemma take_values_reads:
  assumes "distinct (map fst (acc @ vs))" "list_all (\<lambda>(key, value). bytes_fit key \<and> bytes_fit value) vs"
  shows "take_values (length vs) acc (concat (map entry_bytes vs) @ rest) = (Inr (acc @ vs), rest)"
  using assms
proof (induction vs arbitrary: acc)
  case (Cons e vs)
  obtain key v where e: "e = (key, v)" by fastforce
  have "hm_get key acc = None" using Cons.prems by (auto simp: e hm_get_None_iff)
  then show ?case
    using Cons.prems Cons.IH [of "acc @ [(key, v)]"]
    by (simp add: e entry_bytes_def read_blob.seq_reads hm_insert_fresh)
qed simp

lemma take_counted_reads:
  assumes "values_fit vs"
  shows "seq take_u32 (\<lambda>count. take_values (unat count) []) 
           ((to_be_bytes 4 (word_of_nat (length vs) :: 32 word) @ concat (map entry_bytes vs)) @ rest) = (Inr vs, rest)"
proof -
  have "unat (word_of_nat (length vs) :: 32 word) = length vs"
    using assms by (simp add: values_fit_def bytes_fit_def unsigned_of_nat take_bit_nat_eq_self)
  then show ?thesis
    using assms take_values_reads [of "[]" vs rest] by (simp add: values_fit_def read_u32.seq_reads)
qed

interpretation read_values: reads_encoding
  "seq take_u32 (\<lambda>count. take_values (unat count) [])"
  "\<lambda>vs. to_be_bytes 4 (word_of_nat (length vs) :: 32 word) @ concat (map entry_bytes vs)" values_fit
  by unfold_locales (rule take_counted_reads)

lemma seq_take_counted:
  assumes "values_fit vs"
  shows "seq take_u32 (\<lambda>count. seq (take_values (unat count) []) k)
           (to_be_bytes 4 (word_of_nat (length vs) :: 32 word) @ concat (map entry_bytes vs)) = k vs []"
  using read_values.seq_reads_last [OF assms, of k] by (simp add: seq_assoc)

section \<open>Snapshots restore\<close>

text \<open>A conversation as the engine holds it: blobs and the store fit their length prefixes, and OpenMLS
  finds the signer and the group in the store.\<close>

definition conversation_stored :: "mls_lib \<Rightarrow> direct_conversation \<Rightarrow> bool" where
  "conversation_stored mls c \<longleftrightarrow>
     values_fit (dc_values c) \<and> bytes_fit (dc_signer c) \<and> bytes_fit (dc_group_id c) \<and>
     bytes_fit (snapshot_payload c) \<and> bytes_fit (suite_text mls) \<and>
     signer_read mls (dc_values c) (dc_signer c) \<and>
     group_load mls (dc_values c) (dc_group_id c) = Inr (Some (dc_group_id c, dc_epoch c))"

definition digest_sized :: "crypto_lib \<Rightarrow> bool" where
  "digest_sized lib \<longleftrightarrow> (\<forall>b. length (sha256 lib b) = 32)"

lemma snapshot_payload_eq:
  "snapshot_payload c =
     as_bytes ''TCMLS1'' @ push_bytes [] (dc_signer c) @ push_bytes [] (dc_group_id c) @
     to_be_bytes 4 (word_of_nat (length (dc_values c)) :: 32 word) @ concat (map entry_bytes (dc_values c))"
  by (simp add: snapshot_payload_def Let_def write_values_eq write_blob_def push_bytes_def push_u32_def)

lemma snapshot_prefix_eq:
  "snapshot_prefix mls header c =
     header @ to_be_bytes 2 MLS_SNAPSHOT_APP_SCHEMA @ push_bytes [] MLS_SNAPSHOT_OPENMLS_VERSION @
     push_bytes [] (as_bytes (suite_text mls)) @ push_bytes [] (dc_group_id c) @ to_be_bytes 8 (dc_epoch c)"
  by (simp add: snapshot_prefix_def Let_def write_blob_def push_bytes_def push_u32_def)

lemma snapshot_current_eq:
  "snapshot_current lib mls c =
     snapshot_prefix mls MLS_SNAPSHOT_HEADER c @ sha256 lib (snapshot_payload c) @ push_bytes [] (snapshot_payload c)"
  by (simp add: snapshot_current_def Let_def write_blob_def push_bytes_def push_u32_def)

lemma snapshot_v2_eq:
  "snapshot_v2 lib mls c v =
     snapshot_prefix mls MLS_SNAPSHOT_V2_HEADER c @ to_be_bytes 8 v @ sha256 lib (snapshot_payload c) @
     push_bytes [] (snapshot_payload c)"
  by (simp add: snapshot_v2_def Let_def write_blob_def push_bytes_def push_u32_def)

lemma snapshot_header_simps [simp]:
  "length MLS_SNAPSHOT_HEADER = 6" "length MLS_SNAPSHOT_V2_HEADER = 6"
  "MLS_SNAPSHOT_V2_HEADER \<noteq> MLS_SNAPSHOT_HEADER" "MLS_SNAPSHOT_HEADER \<noteq> MLS_SNAPSHOT_V2_HEADER"
  "bytes_fit MLS_SNAPSHOT_OPENMLS_VERSION"
  by (simp_all add: MLS_SNAPSHOT_HEADER_def MLS_SNAPSHOT_V2_HEADER_def MLS_SNAPSHOT_OPENMLS_VERSION_def bytes_fit_def
        del: as_bytes_simps)

lemma restore_payload_reads:
  assumes "conversation_stored mls c"
  shows "restore_payload mls (snapshot_payload c) = Ok c"
  using assms
  by (simp add: restore_payload_def snapshot_payload_eq conversation_stored_def seq_take_bytes read_blob.seq_reads
        seq_take_counted ensure_def del: as_bytes_simps)

lemmas snapshot_reads =
  seq_take_bytes read_u16.seq_reads read_u64.seq_reads read_blob.seq_reads read_blob.seq_reads_last

lemma restore_current_reads:
  assumes "conversation_stored mls c" "digest_sized lib"
  shows "restore_current lib mls (snapshot_current lib mls c) = Ok c"
  using assms restore_payload_reads [OF assms(1)]
  by (simp add: restore_current_def snapshot_current_eq snapshot_prefix_eq conversation_stored_def digest_sized_def
        snapshot_reads ensure_def)

lemma restore_current_reads_v2:
  assumes "conversation_stored mls c" "digest_sized lib"
  shows "restore_current lib mls (snapshot_v2 lib mls c v) = Ok c"
  using assms restore_payload_reads [OF assms(1)]
  by (simp add: restore_current_def snapshot_v2_eq snapshot_prefix_eq conversation_stored_def digest_sized_def
        snapshot_reads ensure_def seq_assoc)

lemma starts_with_snapshot [simp]:
  "starts_with_bytes MLS_SNAPSHOT_HEADER (snapshot_current lib mls c)"
  "starts_with_bytes MLS_SNAPSHOT_V2_HEADER (snapshot_v2 lib mls c v)"
  by (simp_all add: starts_with_bytes_def snapshot_current_eq snapshot_v2_eq snapshot_prefix_eq)

definition snapshot_metadata :: "crypto_lib \<Rightarrow> mls_lib \<Rightarrow> direct_conversation \<Rightarrow> 64 word option \<Rightarrow> mls_snapshot_metadata" where
  "snapshot_metadata lib mls c v =
     \<lparr> sm_app_schema = MLS_SNAPSHOT_APP_SCHEMA, sm_openmls_version = MLS_SNAPSHOT_OPENMLS_VERSION,
       sm_ciphersuite = as_bytes (suite_text mls), sm_group_id = dc_group_id c, sm_epoch = dc_epoch c,
       sm_state_version = v, sm_snapshot_hash = sha256 lib (snapshot_payload c) \<rparr>"

lemma metadata_reads:
  assumes "conversation_stored mls c" "digest_sized lib"
  shows "parse_snapshot_metadata lib (snapshot_current lib mls c) = Ok (snapshot_metadata lib mls c None)"
  using assms
  by (simp add: parse_snapshot_metadata_def snapshot_current_eq snapshot_prefix_eq conversation_stored_def digest_sized_def
        snapshot_reads ensure_def snapshot_metadata_def)

lemma metadata_reads_v2:
  assumes "conversation_stored mls c" "digest_sized lib"
  shows "parse_snapshot_metadata lib (snapshot_v2 lib mls c v) = Ok (snapshot_metadata lib mls c (Some v))"
  using assms
  by (simp add: parse_snapshot_metadata_def snapshot_v2_eq snapshot_prefix_eq conversation_stored_def digest_sized_def
        snapshot_reads ensure_def snapshot_metadata_def seq_assoc)

lemma restore_v2_reads:
  "conversation_stored mls c \<Longrightarrow> digest_sized lib \<Longrightarrow> restore_v2 lib mls (snapshot_v2 lib mls c v) = Ok c"
  by (simp add: restore_v2_def restore_current_reads_v2)

lemma migrate_reads:
  "conversation_stored mls c \<Longrightarrow> digest_sized lib \<Longrightarrow>
   migrate_v1_to_v2 lib mls (snapshot_current lib mls c) v = Ok (snapshot_v2 lib mls c v)"
  by (simp add: migrate_v1_to_v2_def restore_current_reads)

text \<open>The member store of a pending invitation.\<close>

definition member_stored :: "mls_lib \<Rightarrow> mls_member \<Rightarrow> bool" where
  "member_stored mls m \<longleftrightarrow>
     values_fit (mm_values m) \<and> bytes_fit (mm_signer m) \<and> signer_read mls (mm_values m) (mm_signer m)"

lemma member_restore_reads:
  assumes "member_stored mls m"
  shows "member_restore mls (member_snapshot m) (mm_identity m) = Ok m"
proof -
  have "member_snapshot m =
          as_bytes ''TCMEM1'' @ push_bytes [] (mm_signer m) @
          to_be_bytes 4 (word_of_nat (length (mm_values m)) :: 32 word) @ concat (map entry_bytes (mm_values m))"
    by (simp add: member_snapshot_def Let_def write_values_eq write_blob_def push_bytes_def push_u32_def)
  then show ?thesis
    using assms
    by (simp add: member_restore_def member_stored_def seq_take_bytes read_blob.seq_reads seq_take_counted ensure_def
          del: as_bytes_simps)
qed

section \<open>Restoring and reading the metadata agree\<close>

lemma lift_ensure_okE:
  assumes "lift (ensure b e) s = (Inr x, s')"
  obtains "b" "s' = s"
  using assms by (simp add: ensure_def split: if_splits)

lemma fst_okE:
  assumes "fst p = Inr y"
  obtains s where "p = (Inr y, s)"
  using assms by (cases p) simp

lemma starts_with_v2:
  "take_bytes 6 b = (Inr h, r) \<Longrightarrow> starts_with_bytes MLS_SNAPSHOT_V2_HEADER b \<longleftrightarrow> h = MLS_SNAPSHOT_V2_HEADER"
  by (auto simp: take_bytes_def starts_with_bytes_def split: if_splits)

definition sample_mls :: mls_lib where
  "sample_mls =
     \<lparr> signer_read = (\<lambda>vs key. hm_contains key vs),
       group_load = (\<lambda>vs gid. Inr (map_option (\<lambda>e. (gid, from_be_bytes e)) (hm_get gid vs))),
       suite_text = ''MLS_128_DHKEMX25519_AES128GCM_SHA256_Ed25519'' \<rparr>"

definition sample_mls_conversation :: "64 word \<Rightarrow> direct_conversation" where
  "sample_mls_conversation epoch =
     \<lparr> dc_values = [([7], [1]), ([9, 9], to_be_bytes 8 epoch)], dc_signer = [7], dc_group_id = [9, 9], dc_epoch = epoch \<rparr>"

lemma sample_conversation_stored: "conversation_stored sample_mls (sample_mls_conversation epoch)"
  by (simp add: conversation_stored_def sample_mls_def sample_mls_conversation_def values_fit_def bytes_fit_def
        snapshot_payload_eq entry_bytes_def push_bytes_def push_u32_def hm_contains_def hm_get_def)

lemma sample_digest_sized: "digest_sized sample_crypto"
  by (simp add: digest_sized_def sample_crypto_def)

text \<open>The metadata reader never disagrees with the full restore: whenever a stored snapshot, of either
  version and however it was produced, restores to a conversation, reading only its metadata succeeds too and
  reports the schema, library version and cipher suite this build accepts, the group and the epoch of the restored
  conversation, and a state version exactly for the second version of the format.\<close>

theorem restored_metadata_agrees:
  assumes "restore_current lib mls snapshot = Ok c"
  shows "\<exists>m. parse_snapshot_metadata lib snapshot = Ok m \<and> sm_app_schema m = MLS_SNAPSHOT_APP_SCHEMA \<and>
     sm_openmls_version m = MLS_SNAPSHOT_OPENMLS_VERSION \<and> sm_ciphersuite m = as_bytes (suite_text mls) \<and>
     sm_group_id m = dc_group_id c \<and> sm_epoch m = dc_epoch c \<and>
     (sm_state_version m \<noteq> None \<longleftrightarrow> starts_with_bytes MLS_SNAPSHOT_V2_HEADER snapshot)"
  using assms unfolding restore_current_def Let_def
  apply (elim fst_okE seq_okE lift_ensure_okE)
  apply (simp split: if_splits)
   apply (elim seq_okE)
  by (simp_all add: parse_snapshot_metadata_def seq_ok starts_with_v2 ensure_def)



section \<open>A conversation and its anchor over time\<close>

text \<open>The host of one conversation: the stored row, the vault, and every row the engine ever committed.\<close>

record mls_host =
  mh_row :: "mls_row option"
  mh_vault :: vault
  mh_history :: "mls_row list"

definition host_init :: "mls_host \<Rightarrow> bool" where
  "host_init h \<longleftrightarrow> h = \<lparr> mh_row = None, mh_vault = [], mh_history = [] \<rparr>"

definition host_commit :: "crypto_lib \<Rightarrow> mls_lib \<Rightarrow> direct_conversation \<Rightarrow> mls_host \<Rightarrow> mls_host" where
  "host_commit lib mls c h =
     (let row = put_conversation_mls_snapshot lib (snapshot_current lib mls c) (mh_row h)
      in h \<lparr> mh_row := Some row, mh_history := mh_history h @ [row] \<rparr>)"

text \<open>A transaction commits a snapshot; the engine records the checkpoint of the committed row, or stops before
  it does; it starts again from the stored row; other conversations use the same vault.\<close>

inductive host_step :: "crypto_lib \<Rightarrow> mls_lib \<Rightarrow> string \<Rightarrow> string \<Rightarrow> mls_host \<Rightarrow> mls_host \<Rightarrow> bool"
  for lib mls namespace conversation_id where
  commit: "conversation_stored mls c \<Longrightarrow> host_step lib mls namespace conversation_id h (host_commit lib mls c h)"
| recorded: "mh_row h = Some row \<Longrightarrow>
     record_committed lib mls namespace conversation_id row (mh_vault h) = (r, v) \<Longrightarrow>
     host_step lib mls namespace conversation_id h (h \<lparr> mh_vault := v \<rparr>)"
| restart: "mh_row h = Some row \<Longrightarrow>
     load_conversation lib mls namespace conversation_id row (mh_vault h) = (r, v) \<Longrightarrow>
     host_step lib mls namespace conversation_id h (h \<lparr> mh_vault := v \<rparr>)"
| other: "vault_account lib namespace other_id \<noteq> vault_account lib namespace conversation_id \<Longrightarrow>
     vault_record_checkpoint lib namespace other_id checkpoint (mh_vault h) = (r, v) \<Longrightarrow>
     host_step lib mls namespace conversation_id h (h \<lparr> mh_vault := v \<rparr>)"

lemma snapshot_decode_encode [simp]:
  assumes "bytes_fit (ac_snapshot_hash a)"
  shows "decode_checkpoint (encode_checkpoint a) = Ok a"
proof -
  have "length CHECKPOINT_MAGIC = 8" by (simp add: CHECKPOINT_MAGIC_def del: as_bytes_simps)
  then show ?thesis
    using assms
    by (simp add: decode_checkpoint_def encode_checkpoint_def bytes_fit_def unsigned_of_nat take_bit_nat_eq_self)
qed

definition snapshot_row :: "crypto_lib \<Rightarrow> mls_lib \<Rightarrow> nat \<Rightarrow> direct_conversation \<Rightarrow> mls_row" where
  "snapshot_row lib mls version c =
     \<lparr> mr_snapshot = snapshot_current lib mls c, mr_state_version = int version,
       mr_snapshot_hash = Some (sha256 lib (snapshot_current lib mls c)) \<rparr>"

definition anchored_at :: "crypto_lib \<Rightarrow> mls_lib \<Rightarrow> string \<Rightarrow> string \<Rightarrow> vault \<Rightarrow> nat \<Rightarrow> direct_conversation \<Rightarrow> bool" where
  "anchored_at lib mls namespace conversation_id v version c \<longleftrightarrow>
     hm_get (vault_account lib namespace conversation_id) v =
       Some (encode_checkpoint (row_checkpoint (snapshot_row lib mls version c) (dc_epoch c)))"

definition host_ok :: "crypto_lib \<Rightarrow> mls_lib \<Rightarrow> string \<Rightarrow> string \<Rightarrow> mls_host \<Rightarrow> bool" where
  "host_ok lib mls namespace conversation_id h \<longleftrightarrow>
     (\<exists>cs. list_all (conversation_stored mls) cs \<and>
        mh_history h = map (\<lambda>i. snapshot_row lib mls (Suc i) (cs ! i)) [0..<length cs] \<and>
        mh_row h = (if cs = [] then None else Some (snapshot_row lib mls (length cs) (last cs))) \<and>
        (hm_get (vault_account lib namespace conversation_id) (mh_vault h) = None \<or>
         (\<exists>i < length cs. anchored_at lib mls namespace conversation_id (mh_vault h) (Suc i) (cs ! i))))"

lemma snapshot_row_simps [simp]:
  "mr_snapshot (snapshot_row lib mls version c) = snapshot_current lib mls c"
  "mr_state_version (snapshot_row lib mls version c) = int version"
  "ac_state_version (row_checkpoint (snapshot_row lib mls version c) e) = word_of_nat version"
  "ac_snapshot_hash (row_checkpoint (snapshot_row lib mls version c) e) = sha256 lib (snapshot_current lib mls c)"
  by (simp_all add: snapshot_row_def row_checkpoint_def)

lemma vault_highest_none:
  "hm_get (vault_account lib namespace conversation_id) v = None \<Longrightarrow>
   vault_highest_checkpoint lib namespace v conversation_id = Ok None"
  by (simp add: vault_highest_checkpoint_def)

lemma vault_highest_anchored:
  "digest_sized lib \<Longrightarrow> anchored_at lib mls namespace conversation_id v version c \<Longrightarrow>
   vault_highest_checkpoint lib namespace v conversation_id =
     Ok (Some (row_checkpoint (snapshot_row lib mls version c) (dc_epoch c)))"
  by (simp add: vault_highest_checkpoint_def anchored_at_def digest_sized_def bytes_fit_def)

definition anchor_after :: "crypto_lib \<Rightarrow> mls_lib \<Rightarrow> string \<Rightarrow> string \<Rightarrow> nat \<Rightarrow> direct_conversation \<Rightarrow> vault \<Rightarrow> vault" where
  "anchor_after lib mls namespace conversation_id version c =
     hm_insert (vault_account lib namespace conversation_id)
       (encode_checkpoint (row_checkpoint (snapshot_row lib mls version c) (dc_epoch c)))"

lemma anchored_after [simp]:
  "anchored_at lib mls namespace conversation_id (anchor_after lib mls namespace conversation_id version c v) version c"
  by (simp add: anchored_at_def anchor_after_def)

lemma record_committed_stored:
  "conversation_stored mls c \<Longrightarrow> digest_sized lib \<Longrightarrow>
   record_committed lib mls namespace conversation_id (snapshot_row lib mls version c) v =
     (Inr (), anchor_after lib mls namespace conversation_id version c v)"
  by (simp add: record_committed_def restore_current_reads vault_record_checkpoint_def anchor_after_def)

text \<open>Loading a committed row, by the anchor.\<close>

lemma load_stored:
  assumes "conversation_stored mls c" "digest_sized lib"
    and "vault_highest_checkpoint lib namespace v conversation_id = Ok a"
  shows "load_conversation lib mls namespace conversation_id (snapshot_row lib mls version c) v =
     (case validate_checkpoint a (row_checkpoint (snapshot_row lib mls version c) (dc_epoch c)) of
        MlsReady \<Rightarrow> (Inr c, anchor_after lib mls namespace conversation_id version c v)
      | RePairRequired \<Rightarrow> (Inl (re_pair_error conversation_id), v))"
  using assms
  by (cases "validate_checkpoint a (row_checkpoint (snapshot_row lib mls version c) (dc_epoch c))")
     (simp_all add: load_conversation_def restore_current_reads validate_snapshot_checkpoint_def seq_assoc
        vault_record_checkpoint_def anchor_after_def)

lemma validate_versions:
  assumes "digest_sized lib" "version < 2 ^ 64" "anchored < 2 ^ 64"
  shows "validate_checkpoint (Some (row_checkpoint (snapshot_row lib mls anchored a) e))
           (row_checkpoint (snapshot_row lib mls version c) e') =
         (if version < anchored \<or> version = anchored \<and>
             sha256 lib (snapshot_current lib mls c) \<noteq> sha256 lib (snapshot_current lib mls a)
          then RePairRequired else MlsReady)"
proof -
  have "sha256 lib b \<noteq> []" for b using assms(1) by (metis digest_sized_def list.size(3) zero_neq_numeral)
  then show ?thesis
    using assms(2,3)
    by (simp add: validate_checkpoint_def word_less_nat_alt unsigned_of_nat take_bit_nat_eq_self word_of_nat_eq_iff)
qed

lemma load_anchored:
  assumes "conversation_stored mls c" "digest_sized lib" "version < 2 ^ 64" "anchored < 2 ^ 64"
    and "anchored_at lib mls namespace conversation_id v anchored a"
    and "version = anchored \<Longrightarrow> c = a"
  shows "load_conversation lib mls namespace conversation_id (snapshot_row lib mls version c) v =
     (if version < anchored
      then (Inl (re_pair_error conversation_id), v)
      else (Inr c, anchor_after lib mls namespace conversation_id version c v))"
  using assms by (auto simp: load_stored [OF assms(1,2) vault_highest_anchored [OF assms(2,5)]] validate_versions)

lemma load_unanchored:
  assumes "conversation_stored mls c" "digest_sized lib"
    and "hm_get (vault_account lib namespace conversation_id) v = None"
  shows "load_conversation lib mls namespace conversation_id (snapshot_row lib mls version c) v =
     (Inr c, anchor_after lib mls namespace conversation_id version c v)"
  using assms by (simp add: load_stored [OF assms(1,2) vault_highest_none [OF assms(3)]] validate_checkpoint_def)

lemma load_vault:
  assumes "conversation_stored mls c" "digest_sized lib"
    and "load_conversation lib mls namespace conversation_id (snapshot_row lib mls version c) v = (r, v')"
  shows "v' = v \<or> v' = anchor_after lib mls namespace conversation_id version c v"
proof (cases "vault_highest_checkpoint lib namespace v conversation_id")
  case (Inl e)
  then show ?thesis
    using assms by (simp add: load_conversation_def restore_current_reads validate_snapshot_checkpoint_def seq_assoc)
next
  case (Inr a)
  then show ?thesis
    using assms by (auto simp: load_stored [OF assms(1,2) Inr] split: mls_recovery_state.splits)
qed

lemma host_ok_vault:
  assumes "host_ok lib mls namespace conversation_id h"
    and "hm_get (vault_account lib namespace conversation_id) v =
           hm_get (vault_account lib namespace conversation_id) (mh_vault h)"
  shows "host_ok lib mls namespace conversation_id (h \<lparr> mh_vault := v \<rparr>)"
  using assms by (simp add: host_ok_def anchored_at_def)

lemma host_ok_anchored:
  assumes "host_ok lib mls namespace conversation_id h" "mh_row h = Some row"
  obtains c version where "row = snapshot_row lib mls version c" "conversation_stored mls c"
    "\<And>v. host_ok lib mls namespace conversation_id
            (h \<lparr> mh_vault := anchor_after lib mls namespace conversation_id version c v \<rparr>)"
proof -
  obtain cs where cs: "list_all (conversation_stored mls) cs"
      "mh_history h = map (\<lambda>i. snapshot_row lib mls (Suc i) (cs ! i)) [0..<length cs]"
      "mh_row h = (if cs = [] then None else Some (snapshot_row lib mls (length cs) (last cs)))"
    using assms(1) by (auto simp: host_ok_def)
  have ne: "cs \<noteq> []" using cs(3) assms(2) by auto
  have "host_ok lib mls namespace conversation_id
          (h \<lparr> mh_vault := anchor_after lib mls namespace conversation_id (length cs) (last cs) v \<rparr>)" for v
    unfolding host_ok_def
    using cs ne anchored_after [of lib mls namespace conversation_id "length cs" "last cs" v]
    by (intro exI [of _ cs]) (auto simp: last_conv_nth intro!: exI [of _ "length cs - 1"])
  then show ?thesis using that cs ne assms(2) by (auto simp: list_all_iff)
qed

lemma host_ok_commit:
  assumes "host_ok lib mls namespace conversation_id h" "conversation_stored mls c"
  shows "host_ok lib mls namespace conversation_id (host_commit lib mls c h)"
proof -
  obtain cs where cs: "list_all (conversation_stored mls) cs"
      "mh_history h = map (\<lambda>i. snapshot_row lib mls (Suc i) (cs ! i)) [0..<length cs]"
      "mh_row h = (if cs = [] then None else Some (snapshot_row lib mls (length cs) (last cs)))"
      "hm_get (vault_account lib namespace conversation_id) (mh_vault h) = None \<or>
         (\<exists>i < length cs. anchored_at lib mls namespace conversation_id (mh_vault h) (Suc i) (cs ! i))"
    using assms(1) by (auto simp: host_ok_def)
  have row: "put_conversation_mls_snapshot lib (snapshot_current lib mls c) (mh_row h) =
               snapshot_row lib mls (Suc (length cs)) c"
    using cs(3) by (auto simp: put_conversation_mls_snapshot_def snapshot_row_def)
  have "mh_history (host_commit lib mls c h) =
          map (\<lambda>i. snapshot_row lib mls (Suc i) ((cs @ [c]) ! i)) [0..<length (cs @ [c])]"
    by (simp add: host_commit_def Let_def row cs(2) nth_append)
  moreover have "mh_row (host_commit lib mls c h) = Some (snapshot_row lib mls (length (cs @ [c])) (last (cs @ [c])))"
    by (simp add: host_commit_def Let_def row)
  moreover have "anchored_at lib mls namespace conversation_id (mh_vault h) (Suc i) ((cs @ [c]) ! i) \<longleftrightarrow>
      anchored_at lib mls namespace conversation_id (mh_vault h) (Suc i) (cs ! i)" if "i < length cs" for i
    using that by (simp add: nth_append)
  then have "hm_get (vault_account lib namespace conversation_id) (mh_vault (host_commit lib mls c h)) = None \<or>
      (\<exists>i < length (cs @ [c]). anchored_at lib mls namespace conversation_id (mh_vault (host_commit lib mls c h)) (Suc i) ((cs @ [c]) ! i))"
    using cs(4) by (simp add: host_commit_def Let_def) (metis less_SucI)
  moreover have "list_all (conversation_stored mls) (cs @ [c])" using cs(1) assms(2) by simp
  ultimately show ?thesis unfolding host_ok_def by (intro exI [of _ "cs @ [c]"]) (simp del: append_assoc)
qed

lemma host_ok_step:
  assumes "digest_sized lib" "host_ok lib mls namespace conversation_id h"
    and "host_step lib mls namespace conversation_id h h'"
  shows "host_ok lib mls namespace conversation_id h'"
  using assms(3)
proof cases
  case (commit c)
  then show ?thesis using assms(2) host_ok_commit by simp
next
  case (recorded row r v)
  obtain c version where c: "row = snapshot_row lib mls version c" "conversation_stored mls c"
      "\<And>v. host_ok lib mls namespace conversation_id
            (h \<lparr> mh_vault := anchor_after lib mls namespace conversation_id version c v \<rparr>)"
    using host_ok_anchored [OF assms(2) recorded(2)] by blast
  then show ?thesis using recorded by (auto simp: record_committed_stored [OF c(2) assms(1)])
next
  case (restart row r v)
  obtain c version where c: "row = snapshot_row lib mls version c" "conversation_stored mls c"
      "\<And>v. host_ok lib mls namespace conversation_id
            (h \<lparr> mh_vault := anchor_after lib mls namespace conversation_id version c v \<rparr>)"
    using host_ok_anchored [OF assms(2) restart(2)] by blast
  show ?thesis
    using load_vault [OF c(2) assms(1), of namespace conversation_id version "mh_vault h" r v] c(1,3) restart assms(2)
    by auto
next
  case (other other_id checkpoint r v)
  then show ?thesis
    using host_ok_vault [OF assms(2), of v] by (auto simp: vault_record_checkpoint_def)
qed

lemma host_system:
  "digest_sized lib \<Longrightarrow>
   invariant_system host_init (host_step lib mls namespace conversation_id) (host_ok lib mls namespace conversation_id)"
  by (rule invariant_system.intro) (simp add: host_init_def host_ok_def hm_get_def, erule (2) host_ok_step)

lemma load_newest:
  assumes "digest_sized lib" "cs \<noteq> []" "length cs < 2 ^ 63" "list_all (conversation_stored mls) cs"
    and "hm_get (vault_account lib namespace conversation_id) v = None \<or>
         (\<exists>i < length cs. anchored_at lib mls namespace conversation_id v (Suc i) (cs ! i))"
  shows "fst (load_conversation lib mls namespace conversation_id (snapshot_row lib mls (length cs) (last cs)) v) =
           Ok (last cs)"
proof -
  have c: "conversation_stored mls (last cs)" using assms(2,4) by (simp add: list_all_iff)
  show ?thesis
    using assms(5)
  proof (elim disjE exE conjE)
    fix i assume i: "i < length cs" "anchored_at lib mls namespace conversation_id v (Suc i) (cs ! i)"
    have "last cs = cs ! i" if "length cs = Suc i" using that by (metis assms(2) diff_Suc_1 last_conv_nth)
    then show ?thesis
      using i(1) assms(3) by (simp add: load_anchored [OF c assms(1) _ _ i(2)])
  qed (simp add: load_unanchored [OF c assms(1)])
qed

lemma load_older:
  assumes "digest_sized lib" "length cs < 2 ^ 63" "list_all (conversation_stored mls) cs"
    and "i < length cs" "snapshot_row lib mls (Suc i) (cs ! i) \<noteq> snapshot_row lib mls (length cs) (last cs)"
    and v': "v' = anchor_after lib mls namespace conversation_id (length cs) (last cs) v"
  shows "load_conversation lib mls namespace conversation_id (snapshot_row lib mls (Suc i) (cs ! i)) v' =
           (Err (re_pair_error conversation_id), v')"
proof -
  have "Suc i \<noteq> length cs"
    using assms(4,5) by (metis diff_Suc_1 last_conv_nth length_0_conv nat.distinct(1))
  then have lt: "Suc i < length cs" using assms(4) by simp
  have c: "conversation_stored mls (cs ! i)" using assms(3,4) by (simp add: list_all_iff)
  show ?thesis
    unfolding v' using lt assms(2) by (simp add: load_anchored [OF c assms(1) _ _ anchored_after])
qed


definition sample_host :: mls_host where
  "sample_host =
     (let h = host_commit sample_crypto sample_mls (sample_mls_conversation 1)
                \<lparr> mh_row = None, mh_vault = [], mh_history = [] \<rparr>;
          v = snd (record_committed sample_crypto sample_mls ''ns'' ''bob'' (the (mh_row h)) [])
      in host_commit sample_crypto sample_mls (sample_mls_conversation 2) (h \<lparr> mh_vault := v \<rparr>))"

lemma sample_host_reachable:
  "reachable host_init (host_step sample_crypto sample_mls ''ns'' ''bob'') sample_host"
proof -
  let ?s = "host_step sample_crypto sample_mls ''ns'' ''bob''"
  let ?h0 = "\<lparr> mh_row = None, mh_vault = [], mh_history = [] \<rparr>"
  let ?h1 = "host_commit sample_crypto sample_mls (sample_mls_conversation 1) ?h0"
  have "reachable host_init ?s ?h0" by (rule reachable.reach_init) (simp add: host_init_def)
  then have "reachable host_init ?s ?h1"
    by (rule reachable.reach_step) (rule host_step.commit [OF sample_conversation_stored])
  then have "reachable host_init ?s
      (?h1 \<lparr> mh_vault := snd (record_committed sample_crypto sample_mls ''ns'' ''bob'' (the (mh_row ?h1)) (mh_vault ?h1)) \<rparr>)"
    by (rule reachable.reach_step) (rule host_step.recorded [OF _ prod.collapse [symmetric]], simp add: host_commit_def Let_def)
  then have "reachable host_init ?s
      (host_commit sample_crypto sample_mls (sample_mls_conversation 2)
        (?h1 \<lparr> mh_vault := snd (record_committed sample_crypto sample_mls ''ns'' ''bob'' (the (mh_row ?h1)) (mh_vault ?h1)) \<rparr>))"
    by (rule reachable.reach_step) (rule host_step.commit [OF sample_conversation_stored])
  moreover have "mh_vault ?h1 = []" by (simp add: host_commit_def Let_def)
  ultimately show ?thesis by (simp only: sample_host_def Let_def)
qed


end
