(* ===== verification/Probe_Scheduler.thy ===== *)
theory Probe_Scheduler
  imports Signed_Statements
begin

text \<open>
  Timing in the client engine: the probe coordinator of
  \<^verbatim>\<open>src/packages/torchat-client-engine/src/probing.rs\<close> with every operation, the probe part of a peer
  probe round (\<^verbatim>\<open>actor/input_handlers.rs\<close> and \<^verbatim>\<open>actor/state/peer_control.rs\<close>), the
  scheduler plan and the worker that fires its timers (\<^verbatim>\<open>scheduler/plan.rs\<close>,
  \<^verbatim>\<open>scheduler/worker.rs\<close>), and the actor's check of a timer's generation (\<^verbatim>\<open>actor/run.rs\<close>).

  Instants and durations are natural numbers of nanoseconds; the clock is read where the code reads it, so every
  operation takes its instants as arguments. A watch channel is the value it retains. The coordinator and the pair
  of worker and actor are transition systems whose invariants carry the properties.
\<close>

section \<open>Probes\<close>

datatype probe_kind =
  EngineProbe | OnionServiceProbe | ContactPeer | ContactPresence | ContactFocus | PeerEndpointProbe | CapabilityProbe

record probe_key =
  pk_kind :: probe_kind
  pk_target_id :: "string option"

datatype probe_status = ProbeUnknown | ProbeChecking | ProbeOnline | ProbeOffline | ProbeDegraded | ProbeStale

definition pseudonymous_target_id :: "crypto_lib \<Rightarrow> string \<Rightarrow> string" where
  "pseudonymous_target_id lib target_id = concat (map hex_byte (take 6 (sha256 lib (as_bytes target_id))))"

definition probe_key_new :: "probe_kind \<Rightarrow> string option \<Rightarrow> probe_key" where
  "probe_key_new kind target_id = \<lparr> pk_kind = kind, pk_target_id = target_id \<rparr>"

definition key_contact :: "string \<Rightarrow> probe_key" where
  "key_contact contact_id = probe_key_new ContactPeer (Some contact_id)"

definition key_contact_presence :: "string \<Rightarrow> probe_key" where
  "key_contact_presence contact_id = probe_key_new ContactPresence (Some contact_id)"

definition key_contact_focus :: "string \<Rightarrow> probe_key" where
  "key_contact_focus contact_id = probe_key_new ContactFocus (Some contact_id)"

definition key_peer_endpoint :: "string \<Rightarrow> probe_key" where
  "key_peer_endpoint contact_id = probe_key_new PeerEndpointProbe (Some contact_id)"

definition key_capability :: "string \<Rightarrow> probe_key" where
  "key_capability contact_id = probe_key_new CapabilityProbe (Some contact_id)"

definition key_engine :: probe_key where
  "key_engine = probe_key_new EngineProbe None"

definition key_onion_service :: probe_key where
  "key_onion_service = probe_key_new OnionServiceProbe None"

text \<open>Instants and durations in nanoseconds.\<close>

type_synonym instant = nat
type_synonym duration = nat

definition secs :: "nat \<Rightarrow> duration" where
  "secs n = n * 10 ^ 9"

definition DURATION_MAX :: duration where
  "DURATION_MAX = 2 ^ 64 * 10 ^ 9 - 1"

definition duration_saturating_mul :: "duration \<Rightarrow> nat \<Rightarrow> duration" where
  "duration_saturating_mul d n = min (d * n) DURATION_MAX"

record probe_state =
  pb_status :: probe_status
  pb_last_checked_at :: "instant option"
  pb_next_check_at :: instant
  pb_consecutive_failures :: nat
  pb_latency :: "duration option"
  pb_revision :: nat
  pb_in_flight_until :: "instant option"

definition probe_state_new :: "instant \<Rightarrow> probe_state" where
  "probe_state_new now =
     \<lparr> pb_status = ProbeUnknown, pb_last_checked_at = None, pb_next_check_at = now, pb_consecutive_failures = 0,
       pb_latency = None, pb_revision = 0, pb_in_flight_until = None \<rparr>"

record probe_snapshot =
  pn_key :: probe_key
  pn_status :: probe_status
  pn_last_checked_at :: "instant option"
  pn_next_check_at :: instant
  pn_consecutive_failures :: nat
  pn_latency :: "duration option"
  pn_revision :: nat
  pn_in_flight_until :: "instant option"

definition probe_snapshot_of :: "probe_state \<Rightarrow> probe_key \<Rightarrow> probe_snapshot" where
  "probe_snapshot_of s key =
     \<lparr> pn_key = key, pn_status = pb_status s, pn_last_checked_at = pb_last_checked_at s,
       pn_next_check_at = pb_next_check_at s, pn_consecutive_failures = pb_consecutive_failures s,
       pn_latency = pb_latency s, pn_revision = pb_revision s, pn_in_flight_until = pb_in_flight_until s \<rparr>"

text \<open>An entry keeps the value its watch channel retains for subscribers.\<close>

record probe_entry =
  en_state :: probe_state
  en_retained :: probe_snapshot

definition probe_entry_new :: "probe_key \<Rightarrow> instant \<Rightarrow> probe_entry" where
  "probe_entry_new key now =
     (let st = probe_state_new now in \<lparr> en_state = st, en_retained = probe_snapshot_of st key \<rparr>)"

definition publish :: "probe_key \<Rightarrow> probe_entry \<Rightarrow> probe_entry" where
  "publish key e = e \<lparr> en_retained := probe_snapshot_of (en_state e) key \<rparr>"

section \<open>The coordinator\<close>

record probe_coordinator =
  co_entries :: "(probe_key \<times> probe_entry) list"
  co_next_round_at :: instant

definition coordinator_new :: "instant \<Rightarrow> probe_coordinator" where
  "coordinator_new now = \<lparr> co_entries = [], co_next_round_at = now \<rparr>"

definition probe_ensure :: "probe_key \<Rightarrow> instant \<Rightarrow> probe_coordinator \<Rightarrow> probe_coordinator" where
  "probe_ensure key now c =
     (if hm_contains key (co_entries c) then c
      else c \<lparr> co_entries := hm_insert key (probe_entry_new key now) (co_entries c) \<rparr>)"

definition probe_remove :: "probe_key \<Rightarrow> probe_coordinator \<Rightarrow> probe_coordinator" where
  "probe_remove key c = c \<lparr> co_entries := hm_remove key (co_entries c) \<rparr>"

definition update_state :: "(probe_state \<Rightarrow> probe_state) \<Rightarrow> probe_entry \<Rightarrow> probe_entry" where
  "update_state f e = e \<lparr> en_state := f (en_state e) \<rparr>"

definition bump_revision :: "probe_state \<Rightarrow> probe_state" where
  "bump_revision s = s \<lparr> pb_revision := u64_saturating_add (pb_revision s) 1 \<rparr>"

definition request_now :: "probe_key \<Rightarrow> instant \<Rightarrow> probe_coordinator \<Rightarrow> probe_coordinator" where
  "request_now key now c =
     (let c = probe_ensure key now c
      in c \<lparr> co_entries := hm_modify key
           (\<lambda>e. publish key (update_state (\<lambda>s. bump_revision (s \<lparr> pb_next_check_at := now \<rparr>)) e)) (co_entries c) \<rparr>)"

text \<open>A subscription receives the retained value and every later one; here, the value it starts with.\<close>

definition subscribe :: "probe_key \<Rightarrow> instant \<Rightarrow> probe_coordinator \<Rightarrow> probe_snapshot option \<times> probe_coordinator" where
  "subscribe key now c =
     (let c = probe_ensure key now c in (map_option en_retained (hm_get key (co_entries c)), c))"

definition subscribe_contact :: "string \<Rightarrow> instant \<Rightarrow> probe_coordinator \<Rightarrow> probe_snapshot option list \<times> probe_coordinator" where
  "subscribe_contact contact_id now c =
     fold (\<lambda>key (rs, c). let (r, c) = subscribe key now c in (rs @ [r], c))
       [key_contact contact_id, key_contact_presence contact_id, key_contact_focus contact_id,
        key_peer_endpoint contact_id, key_capability contact_id] ([], c)"

definition schedule_round :: "instant \<Rightarrow> duration \<Rightarrow> probe_coordinator \<Rightarrow> probe_coordinator" where
  "schedule_round now interval c = c \<lparr> co_next_round_at := now + interval \<rparr>"

definition actively_checking :: "instant \<Rightarrow> probe_state \<Rightarrow> bool" where
  "actively_checking now s \<longleftrightarrow>
     pb_status s = ProbeChecking \<and> (case pb_in_flight_until s of None \<Rightarrow> False | Some deadline \<Rightarrow> now < deadline)"

definition probe_due :: "instant \<Rightarrow> probe_state \<Rightarrow> bool" where
  "probe_due now s \<longleftrightarrow> \<not> (now < pb_next_check_at s \<or> actively_checking now s)"

definition begin_probe :: "instant \<Rightarrow> duration \<Rightarrow> probe_key \<Rightarrow> probe_entry \<Rightarrow> probe_entry" where
  "begin_probe now timeout key e =
     publish key (update_state
       (\<lambda>s. bump_revision (s \<lparr> pb_status := ProbeChecking, pb_in_flight_until := Some (now + timeout) \<rparr>)) e)"

definition begin_due_with_timeout ::
  "instant \<Rightarrow> duration \<Rightarrow> probe_coordinator \<Rightarrow> probe_key list \<times> probe_coordinator" where
  "begin_due_with_timeout now timeout c =
     (map fst (filter (\<lambda>(key, e). probe_due now (en_state e)) (co_entries c)),
      c \<lparr> co_entries := map (\<lambda>(key, e). (key, if probe_due now (en_state e) then begin_probe now timeout key e else e))
                          (co_entries c) \<rparr>)"

definition begin_due :: "instant \<Rightarrow> probe_coordinator \<Rightarrow> probe_key list \<times> probe_coordinator" where
  "begin_due now = begin_due_with_timeout now (secs 30)"

definition recorded_state ::
  "instant \<Rightarrow> probe_status \<Rightarrow> duration option \<Rightarrow> duration \<Rightarrow> probe_state \<Rightarrow> probe_state" where
  "recorded_state now status latency base_interval s =
     (let failures = (if status = ProbeOnline \<or> status = ProbeDegraded then 0
                      else if status = ProbeOffline then u32_saturating_add (pb_consecutive_failures s) 1
                      else pb_consecutive_failures s);
          exponent = min failures 4;
          multiplier = 2 ^ exponent
      in bump_revision (s \<lparr> pb_status := status, pb_last_checked_at := Some now, pb_latency := latency,
           pb_in_flight_until := None, pb_consecutive_failures := failures,
           pb_next_check_at := now + duration_saturating_mul base_interval multiplier \<rparr>))"

definition record_result ::
  "probe_key \<Rightarrow> instant \<Rightarrow> probe_status \<Rightarrow> duration option \<Rightarrow> duration \<Rightarrow> probe_coordinator \<Rightarrow> probe_coordinator" where
  "record_result key now status latency base_interval c =
     c \<lparr> co_entries := hm_modify key
           (\<lambda>e. publish key (update_state (recorded_state now status latency base_interval) e)) (co_entries c) \<rparr>"

definition probe_state_of :: "probe_key \<Rightarrow> probe_coordinator \<Rightarrow> probe_state option" where
  "probe_state_of key c = map_option en_state (hm_get key (co_entries c))"

section \<open>The probe round of the engine\<close>

text \<open>What the round reads and writes of the engine: platform facts, the contacts and their endpoints in the
  database, the coordinator, and, as traces, the log lines, the probes handed to the transport and the presence
  heartbeats queued.\<close>

record probe_engine =
  pr_network_online :: bool
  pr_battery_saver :: bool
  pr_device_idle :: bool
  pr_background_restricted :: bool
  pr_app_foreground :: bool
  pr_socks5_url :: "string option"
  pr_local_peer_endpoint :: "peer_endpoint_bundle option"
  pr_peer_transport :: bool
  pr_contacts :: "string list"
  pr_contact_endpoints :: "(string \<times> peer_endpoint_bundle) list"
  pr_coordinator :: probe_coordinator
  pr_log :: "string list"
  pr_probes :: "string list"
  pr_heartbeats :: "(string \<times> bool) list"

definition RELAY_POLL_INTERVAL :: duration where
  "RELAY_POLL_INTERVAL = 100 * 10 ^ 6"

definition relay_poll_interval :: "probe_engine \<Rightarrow> duration" where
  "relay_poll_interval e =
     (if \<not> pr_network_online e then secs 30
      else if pr_battery_saver e \<or> pr_device_idle e \<or> pr_background_restricted e then secs 5
      else RELAY_POLL_INTERVAL)"

definition peer_probe_interval :: "probe_engine \<Rightarrow> duration" where
  "peer_probe_interval e =
     (if \<not> pr_network_online e then secs 300
      else if pr_battery_saver e \<or> pr_device_idle e \<or> pr_background_restricted e then secs 180
      else if pr_app_foreground e then secs 30
      else secs 120)"

definition ensure_all :: "probe_key list \<Rightarrow> instant \<Rightarrow> probe_engine \<Rightarrow> probe_engine" where
  "ensure_all keys now e = e \<lparr> pr_coordinator := fold (\<lambda>key. probe_ensure key now) keys (pr_coordinator e) \<rparr>"

definition begin_round :: "instant \<Rightarrow> (probe_engine, string, probe_key list) action" where
  "begin_round now = (\<lambda>e.
     let (due, c) = begin_due now (pr_coordinator e) in (Ok due, e \<lparr> pr_coordinator := c \<rparr>))"

text \<open>One due contact. \<open>attempt\<close> is the outcome of building the command (the capability of the contact) and
  handing it to the transport's bounded channel.\<close>

definition probe_contact ::
  "crypto_lib \<Rightarrow> (string \<Rightarrow> unit checked) \<Rightarrow> string \<Rightarrow> (probe_engine, string, unit) action" where
  "probe_contact lib attempt contact_id =
     seq (change (\<lambda>e. e \<lparr> pr_log := pr_log e @
            [''contact_probe_started contact_id_hash='' @ pseudonymous_target_id lib contact_id @
             '' source=peer_scheduler''] \<rparr>)) (\<lambda>_.
     seq (ask (\<lambda>e. hm_get contact_id (pr_contact_endpoints e))) (\<lambda>endpoint.
     case endpoint of
       None \<Rightarrow> return ()
     | Some _ \<Rightarrow>
         seq (lift (attempt contact_id)) (\<lambda>_.
         change (\<lambda>e. e \<lparr> pr_probes := pr_probes e @ [contact_id] \<rparr>))))"

definition queue_endpoint_update_probes ::
  "crypto_lib \<Rightarrow> (string \<Rightarrow> unit checked) \<Rightarrow> instant \<Rightarrow> (probe_engine, string, unit) action" where
  "queue_endpoint_update_probes lib attempt now = (\<lambda>e.
     if \<not> pr_network_online e \<or> pr_socks5_url e = None \<or> pr_local_peer_endpoint e = None \<or> \<not> pr_peer_transport e
     then (Ok (), e)
     else seq (change (ensure_all (map key_contact
                 (filter (\<lambda>c. hm_contains c (pr_contact_endpoints e)) (pr_contacts e))) now)) (\<lambda>_.
          seq (begin_round now) (\<lambda>due.
          for_each (filter (\<lambda>c. Some c \<in> set (map pk_target_id due)) (pr_contacts e)) (probe_contact lib attempt))) e)"

definition queue_presence_heartbeats :: "instant \<Rightarrow> (probe_engine, string, unit) action" where
  "queue_presence_heartbeats now = (\<lambda>e.
     if \<not> pr_network_online e \<or> pr_socks5_url e = None \<or> pr_local_peer_endpoint e = None then (Ok (), e)
     else let online = (pr_app_foreground e \<and> \<not> pr_background_restricted e) in
          seq (change (ensure_all (map key_contact_presence (pr_contacts e)) now)) (\<lambda>_.
          seq (begin_round now) (\<lambda>due.
          let targets = map pk_target_id (filter (\<lambda>k. pk_kind k = ContactPresence) due) in
          for_each (filter (\<lambda>c. Some c \<in> set targets) (pr_contacts e))
            (\<lambda>c. change (\<lambda>e. e \<lparr> pr_heartbeats := pr_heartbeats e @ [(c, online)] \<rparr>)))) e)"

text \<open>The probes of a peer probe round, with the instants read by the two calls and after them; the results of
  both calls are ignored.\<close>

definition peer_probe_round ::
  "crypto_lib \<Rightarrow> (string \<Rightarrow> unit checked) \<Rightarrow> instant \<Rightarrow> instant \<Rightarrow> instant \<Rightarrow> probe_engine \<Rightarrow> probe_engine" where
  "peer_probe_round lib attempt now1 now2 now3 e =
     (let e = snd (queue_endpoint_update_probes lib attempt now1 e);
          e = snd (queue_presence_heartbeats now2 e)
      in e \<lparr> pr_coordinator := schedule_round now3 (peer_probe_interval e) (pr_coordinator e) \<rparr>)"

section \<open>The scheduler\<close>

datatype timer_kind = RelayPoll | PeerProbeRound | RetryDue

record scheduler_plan =
  pl_generation :: nat
  pl_relay_poll_at :: "instant option"
  pl_peer_probe_at :: "instant option"
  pl_retry_at :: "instant option"

definition plan_deadlines :: "scheduler_plan \<Rightarrow> instant list" where
  "plan_deadlines p = List.map_filter id [pl_relay_poll_at p, pl_peer_probe_at p, pl_retry_at p]"

definition next_deadline :: "scheduler_plan \<Rightarrow> instant option" where
  "next_deadline p = (case plan_deadlines p of [] \<Rightarrow> None | d # ds \<Rightarrow> Some (fold min ds d))"

definition due_at :: "instant \<Rightarrow> instant option \<Rightarrow> bool" where
  "due_at now d = (case d of None \<Rightarrow> False | Some deadline \<Rightarrow> deadline \<le> now)"

definition due_kinds :: "scheduler_plan \<Rightarrow> instant \<Rightarrow> timer_kind list" where
  "due_kinds p now =
     map snd (filter (\<lambda>(d, kind). due_at now d)
       [(pl_relay_poll_at p, RelayPoll), (pl_peer_probe_at p, PeerProbeRound), (pl_retry_at p, RetryDue)])"

text \<open>The worker sleeps on the plan it last read, or has fired that plan's timers and waits for another
  generation. The actor drops timers of other generations; acting on one always publishes a new plan.\<close>

datatype scheduler_worker = Watching scheduler_plan | Fired nat

record timer_system =
  ts_plan :: scheduler_plan
  ts_worker :: scheduler_worker
  ts_inbox :: "(timer_kind \<times> nat) list"
  ts_generation :: nat
  ts_acted :: "(timer_kind \<times> nat) list"

definition publish_plan :: "scheduler_plan \<Rightarrow> timer_system \<Rightarrow> timer_system" where
  "publish_plan p s =
     (let g = u64_saturating_add (ts_generation s) 1
      in s \<lparr> ts_generation := g, ts_plan := p \<lparr> pl_generation := g \<rparr> \<rparr>)"

definition fire_timers :: "scheduler_plan \<Rightarrow> instant \<Rightarrow> timer_system \<Rightarrow> timer_system" where
  "fire_timers p now s =
     s \<lparr> ts_inbox := ts_inbox s @ map (\<lambda>kind. (kind, pl_generation p)) (due_kinds p now),
         ts_worker := Fired (pl_generation p) \<rparr>"

definition timer_input :: "timer_kind \<Rightarrow> nat \<Rightarrow> scheduler_plan \<Rightarrow> timer_system \<Rightarrow> timer_system" where
  "timer_input kind generation p s =
     (if generation \<noteq> ts_generation s then s
      else publish_plan p (s \<lparr> ts_acted := ts_acted s @ [(kind, generation)] \<rparr>))"

inductive timer_step :: "timer_system \<Rightarrow> timer_system \<Rightarrow> bool" where
  observe: "ts_worker s = Watching p \<Longrightarrow> timer_step s (s \<lparr> ts_worker := Watching (ts_plan s) \<rparr>)"
| fire: "ts_worker s = Watching p \<Longrightarrow> next_deadline p = Some d \<Longrightarrow> d \<le> now \<Longrightarrow> timer_step s (fire_timers p now s)"
| resume: "ts_worker s = Fired g \<Longrightarrow> pl_generation (ts_plan s) \<noteq> g \<Longrightarrow>
     timer_step s (s \<lparr> ts_worker := Watching (ts_plan s) \<rparr>)"
| timer: "ts_inbox s = (kind, g) # rest \<Longrightarrow> timer_step s (timer_input kind g p (s \<lparr> ts_inbox := rest \<rparr>))"
| input: "timer_step s (publish_plan p s)"

definition timer_init :: "timer_system \<Rightarrow> bool" where
  "timer_init s \<longleftrightarrow> pl_generation (ts_plan s) = 1 \<and> ts_worker s = Watching (ts_plan s) \<and> ts_inbox s = [] \<and>
     ts_generation s = 1 \<and> ts_acted s = []"

section \<open>Lemmas on the coordinator\<close>

definition entry_current :: "probe_key \<Rightarrow> probe_entry \<Rightarrow> bool" where
  "entry_current key e \<longleftrightarrow> en_retained e = probe_snapshot_of (en_state e) key \<and>
     pb_consecutive_failures (en_state e) \<le> u32_max \<and> pb_revision (en_state e) \<le> u64_max"

definition coordinator_ok :: "probe_coordinator \<Rightarrow> bool" where
  "coordinator_ok c \<longleftrightarrow> distinct (map fst (co_entries c)) \<and> list_all (\<lambda>(key, e). entry_current key e) (co_entries c)"

lemma entry_current_new [simp]: "entry_current key (probe_entry_new key now)"
  by (simp add: entry_current_def probe_entry_new_def Let_def probe_state_new_def)

lemma entry_current_publish [simp]:
  "entry_current key (publish key e) \<longleftrightarrow>
     pb_consecutive_failures (en_state e) \<le> u32_max \<and> pb_revision (en_state e) \<le> u64_max"
  by (simp add: entry_current_def publish_def)

lemma entry_current_bounds:
  "entry_current key e \<Longrightarrow> pb_consecutive_failures (en_state e) \<le> u32_max"
  "entry_current key e \<Longrightarrow> pb_revision (en_state e) \<le> u64_max"
  by (simp_all add: entry_current_def)

lemma bump_revision_simps [simp]:
  "pb_status (bump_revision s) = pb_status s" "pb_next_check_at (bump_revision s) = pb_next_check_at s"
  "pb_consecutive_failures (bump_revision s) = pb_consecutive_failures s"
  "pb_in_flight_until (bump_revision s) = pb_in_flight_until s"
  "pb_last_checked_at (bump_revision s) = pb_last_checked_at s" "pb_latency (bump_revision s) = pb_latency s"
  "pb_revision (bump_revision s) = u64_saturating_add (pb_revision s) 1"
  by (simp_all add: bump_revision_def)

lemma publish_simps [simp]:
  "en_state (publish key e) = en_state e" "en_state (update_state f e) = f (en_state e)"
  by (simp_all add: publish_def update_state_def)

lemma u64_saturating_add_le [simp]: "u64_saturating_add a b \<le> u64_max"
  by (simp add: u64_saturating_add_def)

lemma coordinator_ok_modify:
  assumes "coordinator_ok c" "\<And>e. entry_current key e \<Longrightarrow> entry_current key (f e)"
  shows "coordinator_ok (c \<lparr> co_entries := hm_modify key f (co_entries c) \<rparr>)"
  using assms by (auto simp: coordinator_ok_def list_all_iff hm_modify_def comp_def case_prod_beta)

lemma coordinator_ok_ensure:
  assumes "coordinator_ok c"
  shows "coordinator_ok (probe_ensure key now c)"
proof (cases "hm_get key (co_entries c)")
  case None
  then show ?thesis
    using assms
    by (auto simp: probe_ensure_def hm_contains_def coordinator_ok_def hm_insert_fresh hm_get_None_iff)
qed (use assms in \<open>simp add: probe_ensure_def hm_contains_def\<close>)

lemma recorded_failures: "pb_consecutive_failures s \<le> u32_max \<Longrightarrow>
   pb_consecutive_failures (recorded_state now status latency base s) \<le> u32_max"
  by (simp add: recorded_state_def Let_def)

lemma recorded_revision:
  "pb_revision (recorded_state now status latency base s) \<le> u64_max"
  by (simp add: recorded_state_def Let_def)

text \<open>The operations of the coordinator, each with the keys it hands out.\<close>

datatype probe_op =
  Ensure probe_key instant
| Remove probe_key
| RequestNow probe_key instant
| Subscribe probe_key instant
| BeginDue instant duration
| RecordResult probe_key instant probe_status "duration option" duration
| ScheduleRound instant duration

fun run_op :: "probe_op \<Rightarrow> probe_coordinator \<Rightarrow> probe_key list \<times> probe_coordinator" where
  "run_op (Ensure key now) c = ([], probe_ensure key now c)"
| "run_op (Remove key) c = ([], probe_remove key c)"
| "run_op (RequestNow key now) c = ([], request_now key now c)"
| "run_op (Subscribe key now) c = ([], snd (subscribe key now c))"
| "run_op (BeginDue now timeout) c = begin_due_with_timeout now timeout c"
| "run_op (RecordResult key now status latency base) c = ([], record_result key now status latency base c)"
| "run_op (ScheduleRound now interval) c = ([], schedule_round now interval c)"

fun run_ops :: "probe_op list \<Rightarrow> probe_coordinator \<Rightarrow> probe_key list \<times> probe_coordinator" where
  "run_ops [] c = ([], c)"
| "run_ops (op # ops) c = (let (due, c) = run_op op c; (dues, c) = run_ops ops c in (due @ dues, c))"

fun op_instant :: "probe_op \<Rightarrow> instant option" where
  "op_instant (Remove key) = None"
| "op_instant (Ensure key now) = Some now"
| "op_instant (RequestNow key now) = Some now"
| "op_instant (Subscribe key now) = Some now"
| "op_instant (BeginDue now timeout) = Some now"
| "op_instant (RecordResult key now status latency base) = Some now"
| "op_instant (ScheduleRound now interval) = Some now"

fun settles :: "probe_key \<Rightarrow> probe_op \<Rightarrow> bool" where
  "settles key (Remove key') \<longleftrightarrow> key' = key"
| "settles key (RecordResult key' now status latency base) \<longleftrightarrow> key' = key"
| "settles key _ \<longleftrightarrow> False"

lemma coordinator_ok_begin:
  assumes "coordinator_ok c"
  shows "coordinator_ok (snd (begin_due_with_timeout now timeout c))"
proof -
  have "entry_current key (begin_probe now timeout key e)" if "entry_current key e" for key e
    using that by (simp add: begin_probe_def entry_current_bounds)
  then show ?thesis
    using assms
    by (auto simp: coordinator_ok_def begin_due_with_timeout_def list_all_iff comp_def case_prod_beta)
qed

lemma coordinator_ok_request:
  "coordinator_ok c \<Longrightarrow> coordinator_ok (request_now key now c)"
  unfolding request_now_def Let_def
  by (rule coordinator_ok_modify [OF coordinator_ok_ensure])
     (simp_all add: entry_current_bounds)

lemma coordinator_ok_record:
  "coordinator_ok c \<Longrightarrow> coordinator_ok (record_result key now status latency base c)"
  unfolding record_result_def
  by (rule coordinator_ok_modify)
     (simp_all add: entry_current_bounds recorded_failures recorded_revision)

lemma coordinator_ok_remove: "coordinator_ok c \<Longrightarrow> coordinator_ok (probe_remove key c)"
  using hm_set_remove [of key "co_entries c"]
  by (auto simp: coordinator_ok_def probe_remove_def list_all_iff)

lemma coordinator_ok_op: "coordinator_ok c \<Longrightarrow> coordinator_ok (snd (run_op op c))"
  by (cases op)
     (simp_all add: coordinator_ok_ensure coordinator_ok_remove coordinator_ok_request coordinator_ok_begin
        coordinator_ok_record subscribe_def Let_def, simp add: schedule_round_def coordinator_ok_def)

lemma coordinator_ok_ops: "coordinator_ok c \<Longrightarrow> coordinator_ok (snd (run_ops ops c))"
proof (induction ops arbitrary: c)
  case (Cons op ops)
  then have "coordinator_ok (snd (run_ops ops (snd (run_op op c))))" by (simp add: coordinator_ok_op)
  then show ?case by (simp add: Let_def case_prod_beta)
qed simp

interpretation coordinator_system: invariant_system "\<lambda>c. \<exists>now. c = coordinator_new now"
  "\<lambda>c c'. \<exists>op. c' = snd (run_op op c)" coordinator_ok
proof unfold_locales
  show "coordinator_ok c" if "\<exists>now. c = coordinator_new now" for c
    using that by (auto simp: coordinator_new_def coordinator_ok_def)
qed (auto intro: coordinator_ok_op)

text \<open>A probe in flight until an instant.\<close>

definition probe_in_flight :: "probe_key \<Rightarrow> instant \<Rightarrow> probe_coordinator \<Rightarrow> bool" where
  "probe_in_flight key deadline c \<longleftrightarrow>
     (\<exists>e. hm_get key (co_entries c) = Some e \<and> pb_status (en_state e) = ProbeChecking \<and>
          pb_in_flight_until (en_state e) = Some deadline)"

lemma hm_get_map_values:
  "hm_get key (map (\<lambda>(k, e). (k, f k e)) m) = map_option (f key) (hm_get key m)"
  by (induction m) (auto simp: hm_get_def)

lemma begin_entries:
  "hm_get key (co_entries (snd (begin_due_with_timeout now timeout c))) =
     map_option (\<lambda>e. if probe_due now (en_state e) then begin_probe now timeout key e else e)
       (hm_get key (co_entries c))"
  by (simp add: begin_due_with_timeout_def hm_get_map_values)

lemma begin_due_iff:
  "coordinator_ok c \<Longrightarrow> key \<in> set (fst (begin_due_with_timeout now timeout c)) \<longleftrightarrow>
     (\<exists>e. hm_get key (co_entries c) = Some e \<and> probe_due now (en_state e))"
  by (force simp: begin_due_with_timeout_def coordinator_ok_def hm_get_iff)

lemma begin_in_flight:
  "coordinator_ok c \<Longrightarrow> key \<in> set (fst (begin_due_with_timeout now timeout c)) \<Longrightarrow>
   probe_in_flight key (now + timeout) (snd (begin_due_with_timeout now timeout c))"
  by (auto simp: begin_due_iff probe_in_flight_def begin_entries begin_probe_def)

lemma in_flight_ensure: "probe_in_flight key d c \<Longrightarrow> probe_in_flight key d (probe_ensure key' now c)"
  by (auto simp: probe_in_flight_def probe_ensure_def hm_contains_def)

lemma in_flight_op:
  assumes "probe_in_flight key d c" "\<not> settles key op" "\<And>now. op_instant op = Some now \<Longrightarrow> now < d"
  shows "probe_in_flight key d (snd (run_op op c))"
proof (cases op)
  case (RequestNow key' now)
  then show ?thesis
    using in_flight_ensure [OF assms(1), of key' now]
    by (auto simp: request_now_def Let_def probe_in_flight_def)
next
  case (BeginDue now timeout)
  obtain e where e: "hm_get key (co_entries c) = Some e" "pb_status (en_state e) = ProbeChecking"
      "pb_in_flight_until (en_state e) = Some d"
    using assms(1) by (auto simp: probe_in_flight_def)
  have "\<not> probe_due now (en_state e)" using e assms(3) BeginDue by (simp add: probe_due_def actively_checking_def)
  then show ?thesis using e by (simp add: BeginDue probe_in_flight_def begin_entries)
qed (use assms in \<open>auto simp: in_flight_ensure subscribe_def Let_def probe_in_flight_def probe_remove_def record_result_def
       schedule_round_def intro: in_flight_ensure [unfolded probe_in_flight_def]\<close>)

lemma in_flight_not_due:
  assumes "coordinator_ok c" "probe_in_flight key d c" "\<And>now. op_instant op = Some now \<Longrightarrow> now < d"
  shows "key \<notin> set (fst (run_op op c))"
  using assms by (cases op) (auto simp: begin_due_iff probe_in_flight_def probe_due_def actively_checking_def)

lemma in_flight_not_handed_out:
  assumes "coordinator_ok c" "probe_in_flight key d c"
    and "\<forall>op \<in> set ops. \<not> settles key op \<and> (\<forall>now. op_instant op = Some now \<longrightarrow> now < d)"
  shows "key \<notin> set (fst (run_ops ops c))"
  using assms
proof (induction ops arbitrary: c)
  case (Cons op ops)
  have "key \<notin> set (fst (run_op op c))" using Cons.prems by (intro in_flight_not_due) auto
  moreover have "probe_in_flight key d (snd (run_op op c))" using Cons.prems by (intro in_flight_op) auto
  ultimately show ?case
    using Cons.IH [of "snd (run_op op c)"] Cons.prems coordinator_ok_op [of c op]
    by (auto simp: Let_def split: prod.splits)
qed simp

section \<open>Properties of the coordinator\<close>

text \<open>C20: A probe is handed out to one caller at a time. When a round hands out a probe with a timeout, no
  sequence of operations before its deadline hands it out again, whether they subscribe to it, register it again
  or ask for it at once, unless its result is recorded or it is removed.\<close>

theorem probe_handed_out_once:
  assumes "reachable (\<lambda>c. \<exists>now. c = coordinator_new now) (\<lambda>c c'. \<exists>op. c' = snd (run_op op c)) c"
    and "key \<in> set (fst (begin_due_with_timeout now timeout c))"
    and "\<forall>op \<in> set ops. \<not> settles key op \<and> (\<forall>t. op_instant op = Some t \<longrightarrow> t < now + timeout)"
  shows "key \<notin> set (fst (run_ops ops (snd (begin_due_with_timeout now timeout c))))"
proof -
  have ok: "coordinator_ok c" by (rule coordinator_system.reachable_inv [OF assms(1)])
  show ?thesis
    using in_flight_not_handed_out [OF coordinator_ok_begin [OF ok] begin_in_flight [OF ok assms(2)] assms(3)] .
qed

definition sample_coordinator :: probe_coordinator where
  "sample_coordinator = probe_ensure (key_contact ''bob'') 3 (coordinator_new 0)"

lemma sample_coordinator_reachable:
  "reachable (\<lambda>c. \<exists>now. c = coordinator_new now) (\<lambda>c c'. \<exists>op. c' = snd (run_op op c)) sample_coordinator"
  by (rule reachable.reach_step [OF reachable.reach_init [of _ "coordinator_new 0"]])
     (auto simp: sample_coordinator_def intro!: exI [of _ "Ensure (key_contact ''bob'') 3"])

lemma sample_coordinator_entry:
  "hm_get (key_contact ''bob'') (co_entries sample_coordinator) = Some (probe_entry_new (key_contact ''bob'') 3)"
  by (simp add: sample_coordinator_def probe_ensure_def hm_contains_def coordinator_new_def hm_get_def hm_insert_def)

theorem probe_handed_out_once_witness:
  "key_contact ''bob'' \<in> set (fst (begin_due_with_timeout 4 10 sample_coordinator)) \<and>
   key_contact ''bob'' \<notin> set (fst (run_ops [RequestNow (key_contact ''bob'') 6, BeginDue 7 10]
     (snd (begin_due_with_timeout 4 10 sample_coordinator))))"
proof -
  have "key_contact ''bob'' \<in> set (fst (begin_due_with_timeout 4 10 sample_coordinator))"
    using coordinator_system.reachable_inv [OF sample_coordinator_reachable] sample_coordinator_entry
    by (simp add: begin_due_iff probe_entry_new_def Let_def probe_due_def actively_checking_def probe_state_new_def)
  then show ?thesis
    using probe_handed_out_once [OF sample_coordinator_reachable, of "key_contact ''bob''" 4 10
      "[RequestNow (key_contact ''bob'') 6, BeginDue 7 10]"]
    by simp
qed

text \<open>Every stream shows the current state. In every state of the coordinator that any sequence of its
  operations reaches, a subscriber of any probe, known before or not, is given at once exactly the snapshot of the
  probe's state, and subscribing changes the state of no other probe.\<close>

theorem probe_streams_current:
  assumes "reachable (\<lambda>c. \<exists>now. c = coordinator_new now) (\<lambda>c c'. \<exists>op. c' = snd (run_op op c)) c"
  shows "(\<exists>st. probe_state_of key (snd (subscribe key now c)) = Some st \<and>
            fst (subscribe key now c) = Some (probe_snapshot_of st key)) \<and>
         (\<forall>other. other \<noteq> key \<longrightarrow> probe_state_of other (snd (subscribe key now c)) = probe_state_of other c)"
proof -
  have ok: "coordinator_ok (probe_ensure key now c)"
    by (rule coordinator_ok_ensure) (rule coordinator_system.reachable_inv [OF assms])
  obtain e where e: "hm_get key (co_entries (probe_ensure key now c)) = Some e"
    by (cases "hm_get key (co_entries c)") (auto simp: probe_ensure_def hm_contains_def)
  then have "entry_current key e"
    using ok by (auto simp: coordinator_ok_def list_all_iff dest: hm_get_in)
  then show ?thesis
    using e by (auto simp: subscribe_def Let_def probe_state_of_def entry_current_def probe_ensure_def)
qed

lemma duration_saturating_mul_le: "duration_saturating_mul d n \<le> d * n"
  by (simp add: duration_saturating_mul_def)

text \<open>Backing off is bounded. After any result the next check of a probe lies between the moment it was
  recorded and sixteen base intervals later; after a reachable or degraded result it is exactly one base interval
  away, up to the largest duration; and a failure never shortens the wait of the failure before it.\<close>

theorem probe_backoff_bounded:
  assumes "probe_state_of key c = Some s"
  shows "\<exists>s'. probe_state_of key (record_result key now status latency base c) = Some s' \<and>
     now \<le> pb_next_check_at s' \<and> pb_next_check_at s' \<le> now + 16 * base \<and>
     (status = ProbeOnline \<or> status = ProbeDegraded \<longrightarrow> pb_next_check_at s' = now + min base DURATION_MAX) \<and>
     (status = ProbeOffline \<longrightarrow> duration_saturating_mul base (2 ^ min (pb_consecutive_failures s) 4) \<le> pb_next_check_at s' - now)"
proof -
  let ?s = "recorded_state now status latency base s"
  have pow: "(2 :: nat) ^ min n 4 \<le> 16" for n
    using power_increasing [of "min n 4" 4 "2 :: nat"] by simp
  have "duration_saturating_mul base (2 ^ min n 4) \<le> 16 * base" for n
    using order_trans [OF duration_saturating_mul_le [of base "2 ^ min n 4"] mult_le_mono2 [OF pow [of n]]]
    by (simp add: mult.commute)
  then have upper: "pb_next_check_at ?s \<le> now + 16 * base"
    by (simp add: recorded_state_def Let_def)
  have online: "status = ProbeOnline \<or> status = ProbeDegraded \<Longrightarrow> pb_next_check_at ?s = now + min base DURATION_MAX"
    by (auto simp: recorded_state_def Let_def duration_saturating_mul_def)
  have "min (pb_consecutive_failures s) 4 \<le> min (u32_saturating_add (pb_consecutive_failures s) 1) 4"
    by (simp add: u32_saturating_add_def u32_max_def)
  then have "(2 :: nat) ^ min (pb_consecutive_failures s) 4 \<le> 2 ^ min (u32_saturating_add (pb_consecutive_failures s) 1) 4"
    by (rule power_increasing) simp
  then have offline: "status = ProbeOffline \<Longrightarrow>
      duration_saturating_mul base (2 ^ min (pb_consecutive_failures s) 4) \<le> pb_next_check_at ?s - now"
    by (simp add: recorded_state_def Let_def duration_saturating_mul_def min.coboundedI1 mult_le_mono2)
  have "probe_state_of key (record_result key now status latency base c) = Some ?s"
    using assms by (auto simp: probe_state_of_def record_result_def)
  then show ?thesis
    using upper online offline by (auto simp: recorded_state_def Let_def)
qed

section \<open>The probe round\<close>

lemma for_each_heartbeats:
  "for_each cs (\<lambda>c. change (\<lambda>e. e \<lparr> pr_heartbeats := pr_heartbeats e @ [(c, online)] \<rparr>)) e =
     (Inr (), e \<lparr> pr_heartbeats := pr_heartbeats e @ map (\<lambda>c. (c, online)) cs \<rparr>)"
  by (induction cs arbitrary: e) simp_all

lemma for_each_probes_keep:
  "pr_coordinator (snd (for_each cs (probe_contact lib attempt) e)) = pr_coordinator e \<and>
   pr_heartbeats (snd (for_each cs (probe_contact lib attempt) e)) = pr_heartbeats e \<and>
   pr_contacts (snd (for_each cs (probe_contact lib attempt) e)) = pr_contacts e"
proof (induction cs arbitrary: e)
  case (Cons c cs)
  have "pr_coordinator (snd (probe_contact lib attempt c e)) = pr_coordinator e \<and>
        pr_heartbeats (snd (probe_contact lib attempt c e)) = pr_heartbeats e \<and>
        pr_contacts (snd (probe_contact lib attempt c e)) = pr_contacts e"
    by (cases "attempt c") (auto simp: probe_contact_def split: option.splits)
  then show ?case
    using Cons.IH by (auto simp: seq_def split: prod.splits sum.splits)
qed simp

lemma coordinator_ok_ensures: "coordinator_ok c \<Longrightarrow> coordinator_ok (fold (\<lambda>key. probe_ensure key now) keys c)"
  by (induction keys arbitrary: c) (simp_all add: coordinator_ok_ensure)

lemma ensures_keep:
  "hm_get key (co_entries c) = Some e \<Longrightarrow> hm_get key (co_entries (fold (\<lambda>k. probe_ensure k now) keys c)) = Some e"
proof (induction keys arbitrary: c)
  case (Cons k keys)
  have "hm_get key (co_entries (probe_ensure k now c)) = Some e"
    using Cons.prems by (auto simp: probe_ensure_def hm_contains_def)
  then show ?case using Cons.IH by simp
qed simp

text \<open>Once a round has begun its due probes, an entry is due again only from its own deadlines.\<close>

lemma begun_not_due:
  assumes "coordinator_ok c" "hm_get key (co_entries c) = Some e" "now1 \<le> now2" "now2 < now1 + timeout"
    and "hm_get key (co_entries (snd (begin_due_with_timeout now1 timeout c))) = Some e'"
    and "probe_due now2 (en_state e')"
  shows "\<exists>t. now1 < t \<and> t \<le> now2 \<and> (pb_next_check_at (en_state e) = t \<or> pb_in_flight_until (en_state e) = Some t)"
proof (cases "probe_due now1 (en_state e)")
  case True
  then have "e' = begin_probe now1 timeout key e" using assms(2,5) by (simp add: begin_entries)
  then have "\<not> probe_due now2 (en_state e')"
    using assms(4) by (simp add: begin_probe_def probe_due_def actively_checking_def)
  then show ?thesis using assms(6) by simp
next
  case False
  then have "e' = e" using assms(2,5) by (simp add: begin_entries)
  then show ?thesis
    using False assms(6)
    by (cases "now1 < pb_next_check_at (en_state e)")
       (auto simp: probe_due_def actively_checking_def not_less split: option.splits)
qed

definition presence_entry :: "probe_engine \<Rightarrow> string \<Rightarrow> probe_state option" where
  "presence_entry e contact = probe_state_of (key_contact_presence contact) (pr_coordinator e)"

lemma first_call:
  assumes ok: "coordinator_ok (pr_coordinator e)"
    and online: "pr_network_online e" "pr_socks5_url e \<noteq> None" "pr_local_peer_endpoint e \<noteq> None" "pr_peer_transport e"
    and registered: "presence_entry e contact = Some st"
  shows "\<exists>c1 en. coordinator_ok c1 \<and> hm_get (key_contact_presence contact) (co_entries c1) = Some en \<and> en_state en = st \<and>
     pr_coordinator (snd (queue_endpoint_update_probes lib attempt now1 e)) = snd (begin_due_with_timeout now1 (secs 30) c1) \<and>
     pr_heartbeats (snd (queue_endpoint_update_probes lib attempt now1 e)) = pr_heartbeats e \<and>
     pr_contacts (snd (queue_endpoint_update_probes lib attempt now1 e)) = pr_contacts e"
proof -
  let ?c = "fold (\<lambda>k. probe_ensure k now1)
     (map key_contact (filter (\<lambda>c. hm_contains c (pr_contact_endpoints e)) (pr_contacts e))) (pr_coordinator e)"
  obtain en where en: "hm_get (key_contact_presence contact) (co_entries (pr_coordinator e)) = Some en" "en_state en = st"
    using registered by (auto simp: presence_entry_def probe_state_of_def)
  show ?thesis
    using online coordinator_ok_ensures [OF ok] ensures_keep [OF en(1)] en(2)
    by (intro exI [of _ ?c] exI [of _ en])
       (auto simp add: queue_endpoint_update_probes_def ensure_all_def begin_round_def begin_due_def seq_def case_prod_beta
          for_each_probes_keep)
qed

lemma second_call:
  assumes "pr_heartbeats (snd (queue_presence_heartbeats now e)) = pr_heartbeats e @ hs" "contact \<in> fst ` set hs"
  shows "\<exists>c. c = fold (\<lambda>k. probe_ensure k now) (map key_contact_presence (pr_contacts e)) (pr_coordinator e) \<and>
     key_contact_presence contact \<in> set (fst (begin_due_with_timeout now (secs 30) c))"
proof -
  let ?c = "fold (\<lambda>k. probe_ensure k now) (map key_contact_presence (pr_contacts e)) (pr_coordinator e)"
  let ?due = "fst (begin_due_with_timeout now (secs 30) ?c)"
  have "\<exists>k \<in> set ?due. pk_kind k = ContactPresence \<and> Some contact = pk_target_id k"
    using assms
    by (auto simp: queue_presence_heartbeats_def ensure_all_def begin_round_def begin_due_def seq_def case_prod_beta
          Let_def for_each_heartbeats image_iff split: if_splits)
  moreover have "k = key_contact_presence contact" if "pk_kind k = ContactPresence" "Some contact = pk_target_id k" for k :: probe_key
    using that by (simp add: key_contact_presence_def probe_key_new_def)
  ultimately show ?thesis by blast
qed

lemma heartbeat_deadline:
  assumes ok: "coordinator_ok (pr_coordinator e)"
    and online: "pr_network_online e" "pr_socks5_url e \<noteq> None" "pr_local_peer_endpoint e \<noteq> None" "pr_peer_transport e"
    and registered: "presence_entry e contact = Some st"
    and instants: "now1 \<le> now2" "now2 < now1 + secs 30"
    and sent: "pr_heartbeats (peer_probe_round lib attempt now1 now2 now3 e) = pr_heartbeats e @ hs"
      "contact \<in> fst ` set hs"
  shows "\<exists>t. now1 < t \<and> t \<le> now2 \<and> (pb_next_check_at st = t \<or> pb_in_flight_until st = Some t)"
proof -
  let ?key = "key_contact_presence contact"
  define e1 where "e1 = snd (queue_endpoint_update_probes lib attempt now1 e)"
  obtain c1 en where c1: "coordinator_ok c1" "hm_get ?key (co_entries c1) = Some en" "en_state en = st"
      "pr_coordinator e1 = snd (begin_due_with_timeout now1 (secs 30) c1)"
      "pr_heartbeats e1 = pr_heartbeats e" "pr_contacts e1 = pr_contacts e"
    using first_call [OF ok online registered] unfolding e1_def by blast
  have "pr_heartbeats (snd (queue_presence_heartbeats now2 e1)) = pr_heartbeats e1 @ hs"
    using sent(1) c1(5) by (simp add: peer_probe_round_def Let_def e1_def)
  then obtain c2 where c2: "c2 = fold (\<lambda>k. probe_ensure k now2) (map key_contact_presence (pr_contacts e1)) (pr_coordinator e1)"
      "?key \<in> set (fst (begin_due_with_timeout now2 (secs 30) c2))"
    using second_call sent(2) by blast
  obtain en' where en': "hm_get ?key (co_entries (pr_coordinator e1)) = Some en'"
    using c1(2,4) by (simp add: begin_entries)
  have "coordinator_ok c2"
    unfolding c2(1) c1(4) by (intro coordinator_ok_ensures coordinator_ok_begin c1(1))
  moreover have "hm_get ?key (co_entries c2) = Some en'" unfolding c2(1) by (rule ensures_keep [OF en'])
  ultimately have "probe_due now2 (en_state en')" using c2(2) by (auto simp: begin_due_iff)
  then show ?thesis
    using begun_not_due [OF c1(1,2) instants] en' c1(3,4) by auto
qed

lemma heartbeats_appended:
  "\<exists>hs. pr_heartbeats (peer_probe_round lib attempt now1 now2 now3 e) = pr_heartbeats e @ hs"
proof -
  have "\<exists>hs. pr_heartbeats (snd (queue_presence_heartbeats now e)) = pr_heartbeats e @ hs" for now e
    by (auto simp: queue_presence_heartbeats_def ensure_all_def begin_round_def begin_due_def seq_def case_prod_beta
          Let_def for_each_heartbeats)
  moreover have "pr_heartbeats (snd (queue_endpoint_update_probes lib attempt now1 e)) = pr_heartbeats e"
    by (auto simp: queue_endpoint_update_probes_def ensure_all_def begin_round_def begin_due_def seq_def case_prod_beta
          for_each_probes_keep)
  ultimately have "\<exists>hs. pr_heartbeats (snd (queue_presence_heartbeats now2
      (snd (queue_endpoint_update_probes lib attempt now1 e)))) = pr_heartbeats e @ hs"
    by metis
  then show ?thesis by (simp add: peer_probe_round_def Let_def)
qed

text \<open>C38: Presence heartbeats starve. In a peer probe round the call for endpoint probes first takes every due
  probe, of whatever kind, and leaves them in flight for thirty seconds; the call for presence heartbeats then finds
  none of them due. So a contact whose presence probe is already registered is sent no heartbeat, unless one of the
  two deadlines of that probe falls between the instants the two calls read.\<close>

theorem presence_heartbeats_starve:
  assumes "coordinator_ok (pr_coordinator e)"
    and "pr_network_online e" "pr_socks5_url e \<noteq> None" "pr_local_peer_endpoint e \<noteq> None" "pr_peer_transport e"
    and "presence_entry e contact = Some st"
    and "now1 \<le> now2" "now2 < now1 + secs 30"
    and "\<not> (now1 < pb_next_check_at st \<and> pb_next_check_at st \<le> now2)"
    and "\<forall>d. pb_in_flight_until st = Some d \<longrightarrow> \<not> (now1 < d \<and> d \<le> now2)"
  shows "filter (\<lambda>h. fst h = contact) (pr_heartbeats (peer_probe_round lib attempt now1 now2 now3 e)) =
         filter (\<lambda>h. fst h = contact) (pr_heartbeats e)"
proof -
  obtain hs where hs: "pr_heartbeats (peer_probe_round lib attempt now1 now2 now3 e) = pr_heartbeats e @ hs"
    using heartbeats_appended by blast
  have "contact \<notin> fst ` set hs"
    using heartbeat_deadline [OF assms(1-8) hs] assms(9,10) by blast
  then have "filter (\<lambda>h. fst h = contact) hs = []" by (force simp: filter_empty_conv)
  then show ?thesis by (simp add: hs)
qed

definition sample_prober :: probe_engine where
  "sample_prober =
     \<lparr> pr_network_online = True, pr_battery_saver = False, pr_device_idle = False, pr_background_restricted = False,
       pr_app_foreground = True, pr_socks5_url = Some ''socks5://127.0.0.1:9050'',
       pr_local_peer_endpoint = Some sample_endpoint, pr_peer_transport = True, pr_contacts = [''bob''],
       pr_contact_endpoints = [(''bob'', sample_endpoint)],
       pr_coordinator = probe_ensure (key_contact_presence ''bob'') 0 (coordinator_new 0),
       pr_log = [], pr_probes = [], pr_heartbeats = [] \<rparr>"

lemma sample_presence: "presence_entry sample_prober ''bob'' = Some (probe_state_new 0)"
  by (simp add: presence_entry_def sample_prober_def probe_state_of_def probe_ensure_def hm_contains_def
        coordinator_new_def hm_get_def hm_insert_def probe_entry_new_def Let_def)

lemma sample_prober_ok: "coordinator_ok (pr_coordinator sample_prober)"
  by (simp add: sample_prober_def) (rule coordinator_ok_ensure, simp add: coordinator_new_def coordinator_ok_def)

text \<open>The presence probe of the sample is due, but no heartbeat is sent.\<close>

theorem presence_heartbeats_starve_witness:
  "probe_due 0 (probe_state_new 0) \<and>
   filter (\<lambda>h. fst h = ''bob'') (pr_heartbeats (peer_probe_round sample_crypto (\<lambda>_. Ok ()) 0 0 0 sample_prober)) =
   filter (\<lambda>h. fst h = ''bob'') (pr_heartbeats sample_prober)"
proof
  show "probe_due 0 (probe_state_new 0)"
    by (simp add: probe_due_def actively_checking_def probe_state_new_def)
  show "filter (\<lambda>h. fst h = ''bob'') (pr_heartbeats (peer_probe_round sample_crypto (\<lambda>_. Ok ()) 0 0 0 sample_prober)) =
        filter (\<lambda>h. fst h = ''bob'') (pr_heartbeats sample_prober)"
    by (rule presence_heartbeats_starve [OF sample_prober_ok _ _ _ _ sample_presence])
       (simp_all add: sample_prober_def secs_def probe_state_new_def)
qed

section \<open>The scheduler and the actor\<close>

lemma next_deadline_due:
  assumes "next_deadline p = Some d" "d \<le> now"
  shows "due_kinds p now \<noteq> []"
  using assms
  by (auto simp: next_deadline_def plan_deadlines_def due_kinds_def due_at_def List.map_filter_def
        split: list.splits option.splits if_splits)

definition timers_ok :: "timer_system \<Rightarrow> bool" where
  "timers_ok s \<longleftrightarrow>
     pl_generation (ts_plan s) = ts_generation s \<and>
     (ts_generation s < u64_max \<longrightarrow>
        distinct (map snd (ts_acted s)) \<and> list_all (\<lambda>a. snd a < ts_generation s) (ts_acted s) \<and>
        (case ts_worker s of
           Watching p \<Rightarrow> pl_generation p \<le> ts_generation s
         | Fired g \<Rightarrow> g < ts_generation s \<or> (g = ts_generation s \<and> g \<in> snd ` set (ts_inbox s))))"

lemma saturating_add_strict: "u64_saturating_add n 1 < u64_max \<Longrightarrow> u64_saturating_add n 1 = Suc n \<and> n < u64_max"
  by (simp add: u64_saturating_add_def)

lemma timers_ok_publish:
  assumes "timers_ok s"
  shows "timers_ok (publish_plan p s)"
proof -
  have "list_all (\<lambda>a. snd a < Suc (ts_generation s)) (ts_acted s)" if "list_all (\<lambda>a. snd a < ts_generation s) (ts_acted s)"
    using that by (auto simp: list_all_iff)
  then show ?thesis
    using assms saturating_add_strict [of "ts_generation s"]
    by (auto simp: timers_ok_def publish_plan_def Let_def split: scheduler_worker.splits)
qed

lemma timers_ok_acted:
  assumes "timers_ok s" "ts_inbox s = (kind, ts_generation s) # rest"
  shows "timers_ok (publish_plan p (s \<lparr> ts_inbox := rest, ts_acted := ts_acted s @ [(kind, ts_generation s)] \<rparr>))"
proof -
  have "list_all (\<lambda>a. snd a < Suc (ts_generation s)) (ts_acted s)" if "list_all (\<lambda>a. snd a < ts_generation s) (ts_acted s)"
    using that by (auto simp: list_all_iff)
  then show ?thesis
    using assms saturating_add_strict [of "ts_generation s"]
    by (auto simp: timers_ok_def publish_plan_def Let_def list_all_iff split: scheduler_worker.splits)
qed

lemma timers_ok_step:
  assumes "timers_ok s" "timer_step s s'"
  shows "timers_ok s'"
  using assms(2)
proof cases
  case (fire p d now)
  then show ?thesis
    using assms(1) next_deadline_due [OF fire(3,4)]
    by (force simp: timers_ok_def fire_timers_def image_iff neq_Nil_conv)
next
  case (timer kind g rest p)
  show ?thesis
  proof (cases "g = ts_generation s")
    case True
    then show ?thesis using timer timers_ok_acted [OF assms(1)] by (simp add: timer_input_def)
  next
    case False
    then show ?thesis
      using timer assms(1) by (auto simp: timers_ok_def timer_input_def split: scheduler_worker.splits)
  qed
next
  case (input p)
  then show ?thesis using timers_ok_publish [OF assms(1)] by simp
qed (use assms(1) in \<open>auto simp: timers_ok_def\<close>)

interpretation timers: invariant_system timer_init timer_step timers_ok
proof unfold_locales
  show "timers_ok s" if "timer_init s" for s using that by (simp add: timer_init_def timers_ok_def)
qed (rule timers_ok_step)

text \<open>C19: Timers are acted on once per plan and the scheduler never stalls. The worker may fire the timers of a
  plan that has already been replaced and fires all due timers of a plan at once, while acting on the first of them
  replaces the plan; still, below the largest generation, the actor acts on at most one timer of every plan, and
  whenever the worker waits for a newer plan, there is one already or a timer that makes the actor publish one is in
  the inbox.\<close>

theorem timers_once_never_stall:
  assumes "reachable timer_init timer_step s" "ts_generation s < u64_max"
  shows "distinct (map snd (ts_acted s)) \<and>
     (\<forall>g. ts_worker s = Fired g \<longrightarrow>
        pl_generation (ts_plan s) \<noteq> g \<or> (\<exists>kind. (kind, ts_generation s) \<in> set (ts_inbox s)))"
  using timers.reachable_inv [OF assms(1)] assms(2) by (force simp: timers_ok_def)

definition sample_timers :: timer_system where
  "sample_timers =
     (let p = \<lparr> pl_generation = 1, pl_relay_poll_at = Some 5, pl_peer_probe_at = Some 5, pl_retry_at = None \<rparr>
      in \<lparr> ts_plan = p, ts_worker = Watching p, ts_inbox = [], ts_generation = 1, ts_acted = [] \<rparr>)"

theorem timers_once_never_stall_witness:
  "\<exists>s. reachable timer_init timer_step s \<and> ts_worker s = Fired 1 \<and> ts_generation s = 1 \<and>
     (\<exists>kind. (kind, 1) \<in> set (ts_inbox s))"
proof -
  let ?p = "ts_plan sample_timers"
  let ?s = "fire_timers ?p 7 sample_timers"
  have "reachable timer_init timer_step sample_timers"
    by (rule reachable.reach_init) (simp add: timer_init_def sample_timers_def Let_def)
  then have reach: "reachable timer_init timer_step ?s"
    by (rule reachable.reach_step)
       (rule timer_step.fire [of _ _ 5],
        simp_all add: sample_timers_def Let_def next_deadline_def plan_deadlines_def List.map_filter_def)
  have s: "ts_worker ?s = Fired 1" "ts_generation ?s = 1" "pl_generation (ts_plan ?s) = 1"
    by (simp_all add: fire_timers_def sample_timers_def Let_def)
  have "ts_generation ?s < u64_max" by (simp add: s u64_max_def)
  then show ?thesis using timers_once_never_stall [OF reach] reach s by force
qed

end
