(* ===== verification/Pairing_Store.thy ===== *)
theory Pairing_Store
  imports Pairing_Process Runtime_Logic Signed_Statements "HOL-Library.List_Lexorder" "HOL-Library.Char_ord"
begin

text \<open>
  The pairing tables of the client database (torchat-storage, storage/runtime_storage.rs, storage/sqlite/pairing.rs and the
  statements under sql/commands/pairing and sql/queries/pairing): the inbox and outbox rows, their partial unique indexes,
  the writes of the runtime storage with the statements that retire crossed requests, the reads, and the binding of an
  outgoing request to its pair. A statement that would break an index fails and has no effect.

  Shown here: no pairing write is ever refused by an index; two devices whose requests cross keep the same one; and the
  requests the engine submits with a code carry nothing the crossing rules could match.
\<close>

section \<open>Tables\<close>

text \<open>The retry columns of the outbox, which no statement modelled here reads or changes, are left out.\<close>

record inbox_row =
  ir_pairing_id :: string
  ir_pair_key :: "string option"
  ir_sender_installation_id :: string
  ir_sender_nickname :: string
  ir_sender_public_key :: string
  ir_sender_fingerprint :: string
  ir_capability :: string
  ir_expires_at :: int
  ir_state :: invite_state
  ir_offer_invite_id :: "string option"
  ir_offer_payload :: "string option"
  ir_attempt_count :: nat
  ir_next_attempt_at :: int
  ir_last_error :: "string option"
  ir_response_delivered :: bool
  ir_updated_at :: int

record outbox_row =
  ox_pairing_id :: string
  ox_pair_key :: "string option"
  ox_recipient :: "string option"
  ox_capability :: "string option"
  ox_payload :: "string option"
  ox_expires_at :: int
  ox_state :: invite_state
  ox_updated_at :: int

record pairing_store =
  inbox_t :: "inbox_row list"
  outbox_t :: "outbox_row list"
  pairing_now :: int

type_synonym 'a pairing_action_m = "(pairing_store, runtime_error, 'a) action"

text \<open>The key of an active row, by which both unique indexes are partial.\<close>

definition inbox_key :: "inbox_row \<Rightarrow> string option" where
  "inbox_key r = (if is_outstanding (ir_state r) then ir_pair_key r else None)"

definition outbox_key :: "outbox_row \<Rightarrow> string option" where
  "outbox_key r = (if is_outstanding (ox_state r) then ox_pair_key r else None)"

definition unique_active_inbox_pair :: "inbox_row list \<Rightarrow> bool" where
  "unique_active_inbox_pair rows \<longleftrightarrow> distinct (List.map_filter inbox_key rows)"

definition unique_active_outbox_pair :: "outbox_row list \<Rightarrow> bool" where
  "unique_active_outbox_pair rows \<longleftrightarrow> distinct (List.map_filter outbox_key rows)"

definition unique_violation :: runtime_error where
  "unique_violation = Storage ''UNIQUE constraint failed''"

text \<open>A statement on a table fails, without effect, when it would break the table's index.\<close>

definition write_inbox :: "(int \<Rightarrow> inbox_row list \<Rightarrow> inbox_row list) \<Rightarrow> unit pairing_action_m" where
  "write_inbox f = (\<lambda>s.
     let rows = f (pairing_now s) (inbox_t s) in
     if unique_active_inbox_pair rows then (Ok (), s \<lparr> inbox_t := rows \<rparr>) else (Err unique_violation, s))"

definition write_outbox :: "(int \<Rightarrow> outbox_row list \<Rightarrow> outbox_row list) \<Rightarrow> unit pairing_action_m" where
  "write_outbox f = (\<lambda>s.
     let rows = f (pairing_now s) (outbox_t s) in
     if unique_active_outbox_pair rows then (Ok (), s \<lparr> outbox_t := rows \<rparr>) else (Err unique_violation, s))"

section \<open>Reading\<close>

definition stored_contact :: "string \<Rightarrow> string \<Rightarrow> string \<Rightarrow> string \<Rightarrow> contact_record" where
  "stored_contact installation_id nickname public_key fingerprint =
     \<lparr> ct_installation_id = installation_id, ct_nickname = nickname, ct_public_key = public_key,
       ct_fingerprint = fingerprint, ct_local_alias = None, ct_muted = False, ct_blocked = False,
       ct_verification = Unverified, ct_peer_endpoint_status = EpMissing, ct_peer_connection_status = PcOffline,
       ct_transport_policy = PeerOnly, ct_last_peer_connected_at = None, ct_last_seen_at = None, ct_dev = None \<rparr>"

definition decode_inbox :: "inbox_row \<Rightarrow> pairing_item" where
  "decode_inbox r =
     \<lparr> pi_pairing_id = ir_pairing_id r, pi_pair_key = ir_pair_key r,
       pi_sender = Some (stored_contact (ir_sender_installation_id r)
         (normalized_contact_nickname (ir_sender_installation_id r) (ir_sender_nickname r))
         (ir_sender_public_key r) (ir_sender_fingerprint r)),
       pi_capability = Some (ir_capability r), pi_expires_at = ir_expires_at r, pi_state = ir_state r,
       pi_received = True, pi_available_actions = pairing_available_actions (ir_state r) True,
       pi_offer_invite_id = ir_offer_invite_id r, pi_offer_payload = ir_offer_payload r \<rparr>"

definition decode_outbox :: "outbox_row \<Rightarrow> pairing_item" where
  "decode_outbox r =
     \<lparr> pi_pairing_id = ox_pairing_id r, pi_pair_key = ox_pair_key r,
       pi_sender = map_option (\<lambda>i. stored_contact i (fallback_contact_nickname i) [] []) (ox_recipient r),
       pi_capability = ox_capability r, pi_expires_at = ox_expires_at r, pi_state = ox_state r,
       pi_received = False, pi_available_actions = pairing_available_actions (ox_state r) False,
       pi_offer_invite_id = None, pi_offer_payload = ox_payload r \<rparr>"

definition pairing_inbox :: "pairing_store \<Rightarrow> pairing_item list" where
  "pairing_inbox s = map decode_inbox (sort_key (\<lambda>r. - ir_updated_at r) (sort_key ir_pairing_id (inbox_t s)))"

definition pairing_outbox :: "pairing_store \<Rightarrow> pairing_item list" where
  "pairing_outbox s = map decode_outbox (sort_key (\<lambda>r. - ox_updated_at r) (sort_key ox_pairing_id (outbox_t s)))"

definition pairing_inbox_by_id :: "string \<Rightarrow> pairing_store \<Rightarrow> pairing_item option" where
  "pairing_inbox_by_id pairing_id s = map_option decode_inbox (lookup ir_pairing_id pairing_id (inbox_t s))"

definition pairing_outbox_by_id :: "string \<Rightarrow> pairing_store \<Rightarrow> pairing_item option" where
  "pairing_outbox_by_id pairing_id s = map_option decode_outbox (lookup ox_pairing_id pairing_id (outbox_t s))"

section \<open>Writing\<close>

definition set_inbox_where :: "(inbox_row \<Rightarrow> bool) \<Rightarrow> invite_state \<Rightarrow> int \<Rightarrow> inbox_row list \<Rightarrow> inbox_row list" where
  "set_inbox_where P st now rows =
     map (\<lambda>r. if P r \<and> is_outstanding (ir_state r) then r \<lparr> ir_state := st, ir_updated_at := now \<rparr> else r) rows"

definition set_outbox_where :: "(outbox_row \<Rightarrow> bool) \<Rightarrow> (outbox_row \<Rightarrow> outbox_row) \<Rightarrow> int \<Rightarrow> outbox_row list \<Rightarrow> outbox_row list" where
  "set_outbox_where P f now rows =
     map (\<lambda>r. if P r \<and> is_outstanding (ox_state r) then (f r) \<lparr> ox_updated_at := now \<rparr> else r) rows"

definition archive_inbox_for_pair :: "string \<Rightarrow> string \<Rightarrow> unit pairing_action_m" where
  "archive_inbox_for_pair pair_key pairing_id =
     write_inbox (set_inbox_where (\<lambda>r. ir_pair_key r = Some pair_key \<and> ir_pairing_id r \<noteq> pairing_id) Archived)"

definition cancel_outbox_for_pair :: "string \<Rightarrow> string \<Rightarrow> unit pairing_action_m" where
  "cancel_outbox_for_pair pair_key pairing_id =
     write_outbox (set_outbox_where (\<lambda>r. ox_pair_key r = Some pair_key \<and> ox_pairing_id r \<noteq> pairing_id)
       (\<lambda>r. r \<lparr> ox_state := Cancelled \<rparr>))"

definition cancel_crossed_outbox_by_recipient :: "string \<Rightarrow> string \<Rightarrow> string \<Rightarrow> unit pairing_action_m" where
  "cancel_crossed_outbox_by_recipient pair_key recipient pairing_id =
     write_outbox (set_outbox_where (\<lambda>r. ox_recipient r = Some recipient \<and> ox_pairing_id r \<noteq> pairing_id)
       (\<lambda>r. r \<lparr> ox_state := Cancelled, ox_pair_key := Some pair_key \<rparr>))"

definition has_superseded_outbox :: "string \<Rightarrow> string \<Rightarrow> pairing_store \<Rightarrow> bool" where
  "has_superseded_outbox pair_key pairing_id s \<longleftrightarrow>
     list_ex (\<lambda>r. ox_pair_key r = Some pair_key \<and> ox_pairing_id r < pairing_id \<and> is_outstanding (ox_state r)) (outbox_t s)"

definition has_superseded_inbox :: "string \<Rightarrow> string \<Rightarrow> pairing_store \<Rightarrow> bool" where
  "has_superseded_inbox pair_key pairing_id s \<longleftrightarrow>
     list_ex (\<lambda>r. ir_pair_key r = Some pair_key \<and> ir_pairing_id r < pairing_id \<and> is_outstanding (ir_state r)) (inbox_t s)"

definition coalesce :: "string option \<Rightarrow> string" where
  "coalesce v = (case v of None \<Rightarrow> [] | Some s \<Rightarrow> s)"

definition inbox_row_of :: "pairing_item \<Rightarrow> contact_record \<Rightarrow> string \<Rightarrow> int \<Rightarrow> inbox_row option \<Rightarrow> inbox_row" where
  "inbox_row_of item sender capability now stored =
     (let kept = (case stored of None \<Rightarrow> False
                  | Some r \<Rightarrow> ir_state r = pi_state item \<and>
                      coalesce (ir_offer_invite_id r) = coalesce (pi_offer_invite_id item) \<and>
                      coalesce (ir_offer_payload r) = coalesce (pi_offer_payload item))
      in \<lparr> ir_pairing_id = pi_pairing_id item, ir_pair_key = pi_pair_key item,
           ir_sender_installation_id = ct_installation_id sender, ir_sender_nickname = ct_nickname sender,
           ir_sender_public_key = ct_public_key sender, ir_sender_fingerprint = ct_fingerprint sender,
           ir_capability = capability, ir_expires_at = pi_expires_at item, ir_state = pi_state item,
           ir_offer_invite_id = pi_offer_invite_id item, ir_offer_payload = pi_offer_payload item,
           ir_attempt_count = (if kept then ir_attempt_count (the stored) else 0),
           ir_next_attempt_at = (if kept then ir_next_attempt_at (the stored) else 0),
           ir_last_error = (if kept then ir_last_error (the stored) else None),
           ir_response_delivered = (case stored of None \<Rightarrow> False | Some r \<Rightarrow> ir_response_delivered r),
           ir_updated_at = now \<rparr>)"

definition upsert_pairing_inbox :: "pairing_item \<Rightarrow> contact_record \<Rightarrow> string \<Rightarrow> unit pairing_action_m" where
  "upsert_pairing_inbox item sender capability =
     write_inbox (\<lambda>now rows.
       upsert ir_pairing_id (inbox_row_of item sender capability now (lookup ir_pairing_id (pi_pairing_id item) rows)) rows)"

definition put_pairing_inbox :: "pairing_item \<Rightarrow> unit pairing_action_m" where
  "put_pairing_inbox item =
     seq (lift (ok_or (pi_sender item) (Storage ''pairing inbox item missing sender''))) (\<lambda>sender.
     seq (lift (ok_or (pi_capability item) (Storage ''pairing inbox item missing capability''))) (\<lambda>capability.
     case pi_pair_key item of
       None \<Rightarrow> upsert_pairing_inbox item sender capability
     | Some pair_key \<Rightarrow>
         seq (ask (has_superseded_outbox pair_key (pi_pairing_id item))) (\<lambda>superseded.
         if superseded then return ()
         else seq (cancel_crossed_outbox_by_recipient pair_key (ct_installation_id sender) (pi_pairing_id item)) (\<lambda>_.
              seq (archive_inbox_for_pair pair_key (pi_pairing_id item)) (\<lambda>_.
              upsert_pairing_inbox item sender capability)))))"

definition outbox_row_of :: "pairing_item \<Rightarrow> int \<Rightarrow> outbox_row" where
  "outbox_row_of item now =
     \<lparr> ox_pairing_id = pi_pairing_id item, ox_pair_key = pi_pair_key item,
       ox_recipient = map_option ct_installation_id (pi_sender item), ox_capability = pi_capability item,
       ox_payload = pi_offer_payload item, ox_expires_at = pi_expires_at item, ox_state = pi_state item,
       ox_updated_at = now \<rparr>"

definition upsert_pairing_outbox :: "pairing_item \<Rightarrow> unit pairing_action_m" where
  "upsert_pairing_outbox item = write_outbox (\<lambda>now. upsert ox_pairing_id (outbox_row_of item now))"

definition put_pairing_outbox :: "pairing_item \<Rightarrow> unit pairing_action_m" where
  "put_pairing_outbox item =
     (case pi_pair_key item of
        None \<Rightarrow> upsert_pairing_outbox item
      | Some pair_key \<Rightarrow>
          seq (ask (has_superseded_inbox pair_key (pi_pairing_id item))) (\<lambda>superseded.
          if superseded then return ()
          else seq (archive_inbox_for_pair pair_key (pi_pairing_id item)) (\<lambda>_.
               seq (cancel_outbox_for_pair pair_key (pi_pairing_id item)) (\<lambda>_.
               upsert_pairing_outbox item))))"

section \<open>Binding a request to its pair\<close>

definition pairing_pair_key :: "crypto_lib \<Rightarrow> string \<Rightarrow> string \<Rightarrow> string" where
  "pairing_pair_key lib left right =
     (let (first, second) = (if left \<le> right then (left, right) else (right, left))
      in b64_encode lib (sha256 lib (as_bytes first @ as_bytes '':'' @ as_bytes second)))"

definition payload_mentions :: "string \<Rightarrow> outbox_row \<Rightarrow> bool" where
  "payload_mentions invite_id r = (case ox_payload r of None \<Rightarrow> False | Some p \<Rightarrow> contains_text invite_id p)"

definition min_id :: "string list \<Rightarrow> string option" where
  "min_id ids = (case ids of [] \<Rightarrow> None | x # xs \<Rightarrow> Some (fold min xs x))"

definition candidate_outbox_for_invite :: "string \<Rightarrow> pairing_store \<Rightarrow> string option" where
  "candidate_outbox_for_invite invite_id s =
     min_id (map ox_pairing_id (filter (\<lambda>r. is_outstanding (ox_state r) \<and> payload_mentions invite_id r) (outbox_t s)))"

definition existing_outbox_for_pair :: "string \<Rightarrow> string \<Rightarrow> pairing_store \<Rightarrow> string option" where
  "existing_outbox_for_pair pair_key invite_id s =
     min_id (map ox_pairing_id (filter (\<lambda>r. ox_pair_key r = Some pair_key \<and> is_outstanding (ox_state r) \<and>
       ox_payload r \<noteq> None \<and> \<not> payload_mentions invite_id r) (outbox_t s)))"

definition pair_winner :: "string \<Rightarrow> pairing_store \<Rightarrow> string option" where
  "pair_winner pair_key s =
     min_id (map ir_pairing_id (filter (\<lambda>r. ir_pair_key r = Some pair_key \<and> is_outstanding (ir_state r)) (inbox_t s)) @
             map ox_pairing_id (filter (\<lambda>r. ox_pair_key r = Some pair_key \<and> is_outstanding (ox_state r)) (outbox_t s)))"

definition reconcile_pairing_inbox :: "string \<Rightarrow> unit pairing_action_m" where
  "reconcile_pairing_inbox pair_key =
     seq (ask (pair_winner pair_key)) (\<lambda>winner.
     write_inbox (set_inbox_where (\<lambda>r. ir_pair_key r = Some pair_key \<and> winner \<noteq> None \<and> Some (ir_pairing_id r) \<noteq> winner) Archived))"

definition reconcile_pairing_outbox :: "string \<Rightarrow> unit pairing_action_m" where
  "reconcile_pairing_outbox pair_key =
     seq (ask (pair_winner pair_key)) (\<lambda>winner.
     write_outbox (set_outbox_where (\<lambda>r. ox_pair_key r = Some pair_key \<and> winner \<noteq> None \<and> Some (ox_pairing_id r) \<noteq> winner)
       (\<lambda>r. r \<lparr> ox_state := Cancelled \<rparr>)))"

definition bind_pairing_outbox_pair_key :: "string \<Rightarrow> string \<Rightarrow> unit pairing_action_m" where
  "bind_pairing_outbox_pair_key invite_id pair_key =
     seq (ask (candidate_outbox_for_invite invite_id)) (\<lambda>candidate.
     case candidate of
       None \<Rightarrow> return ()
     | Some candidate \<Rightarrow>
         seq (ask (existing_outbox_for_pair pair_key invite_id)) (\<lambda>existing.
         let winner = (case existing of None \<Rightarrow> candidate | Some e \<Rightarrow> min e candidate) in
         if winner \<noteq> candidate then
           write_outbox (set_outbox_where (payload_mentions invite_id) (\<lambda>r. r \<lparr> ox_state := Cancelled \<rparr>))
         else
           seq (cancel_outbox_for_pair pair_key candidate) (\<lambda>_.
           seq (write_outbox (set_outbox_where (payload_mentions invite_id) (\<lambda>r. r \<lparr> ox_pair_key := Some pair_key \<rparr>))) (\<lambda>_.
           seq (reconcile_pairing_inbox pair_key) (\<lambda>_.
           reconcile_pairing_outbox pair_key)))))"

section \<open>The indexes hold\<close>

lemma distinct_map_filter:
  "distinct rows \<Longrightarrow>
   distinct (List.map_filter f rows) \<longleftrightarrow> (\<forall>x \<in> set rows. \<forall>y \<in> set rows. f x = f y \<and> f x \<noteq> None \<longrightarrow> x = y)"
proof -
  assume "distinct rows"
  then have "distinct (List.map_filter f rows) \<longleftrightarrow>
      (\<forall>x \<in> set rows. \<forall>y \<in> set rows. f x \<noteq> None \<longrightarrow> f y \<noteq> None \<longrightarrow> the (f x) = the (f y) \<longrightarrow> x = y)"
    by (auto simp: List.map_filter_def distinct_map inj_on_def)
  moreover have "f x \<noteq> None \<and> f y \<noteq> None \<and> the (f x) = the (f y) \<longleftrightarrow> f x = f y \<and> f x \<noteq> None" for x y
    by (cases "f x"; cases "f y") auto
  ultimately show ?thesis by blast
qed

definition key_unique :: "('r \<Rightarrow> 'k option) \<Rightarrow> 'r list \<Rightarrow> bool" where
  "key_unique key rows \<longleftrightarrow>
     (\<forall>x \<in> set rows. \<forall>y \<in> set rows. key x = key y \<and> key x \<noteq> None \<longrightarrow> x = y)"

lemma key_uniqueD: "key_unique key rows \<Longrightarrow> x \<in> set rows \<Longrightarrow> y \<in> set rows \<Longrightarrow> key x = Some k \<Longrightarrow> key y = Some k \<Longrightarrow> x = y"
  by (simp add: key_unique_def)

lemma key_uniqueI: "(\<And>x y k. x \<in> set rows \<Longrightarrow> y \<in> set rows \<Longrightarrow> key x = Some k \<Longrightarrow> key y = Some k \<Longrightarrow> x = y) \<Longrightarrow> key_unique key rows"
  unfolding key_unique_def by (metis option.exhaust)

lemma key_unique_map:
  assumes "key_unique key rows" "\<And>x. x \<in> set rows \<Longrightarrow> key (g x) \<noteq> None \<Longrightarrow> g x = x"
  shows "key_unique key (map g rows)"
proof (rule key_uniqueI)
  fix x y k
  assume "x \<in> set (map g rows)" "y \<in> set (map g rows)" and k: "key x = Some k" "key y = Some k"
  then obtain a b where ab: "a \<in> set rows" "x = g a" "b \<in> set rows" "y = g b" by auto
  then have "g a = a" "g b = b" using assms(2) k by auto
  then show "x = y" using key_uniqueD [OF assms(1)] ab k by metis
qed

lemma set_upsert: "set (upsert key row rows) = insert row {r \<in> set rows. key r \<noteq> key row}"
  by (auto simp: upsert_def) (metis image_eqI)

definition pairing_tables_ok :: "pairing_store \<Rightarrow> bool" where
  "pairing_tables_ok s \<longleftrightarrow>
     distinct (map ir_pairing_id (inbox_t s)) \<and> distinct (map ox_pairing_id (outbox_t s)) \<and>
     key_unique inbox_key (inbox_t s) \<and> key_unique outbox_key (outbox_t s)"

lemma key_unique_upsert:
  assumes "key_unique key rows"
    and "\<And>r k. r \<in> set rows \<Longrightarrow> idn r \<noteq> idn row \<Longrightarrow> key row = Some k \<Longrightarrow> key r \<noteq> Some k"
  shows "key_unique key (upsert idn row rows)"
proof (rule key_uniqueI)
  fix x y k
  assume xy: "x \<in> set (upsert idn row rows)" "y \<in> set (upsert idn row rows)" and k: "key x = Some k" "key y = Some k"
  then consider "x = row" "y = row" | "x = row" "y \<in> set rows" "idn y \<noteq> idn row"
    | "y = row" "x \<in> set rows" "idn x \<noteq> idn row" | "x \<in> set rows" "y \<in> set rows"
    by (auto simp: set_upsert)
  then show "x = y"
    using k assms(2) key_uniqueD [OF assms(1)] by cases metis+
qed

lemma unique_inbox_iff:
  "distinct (map ir_pairing_id rows) \<Longrightarrow> unique_active_inbox_pair rows \<longleftrightarrow> key_unique inbox_key rows"
  unfolding unique_active_inbox_pair_def key_unique_def by (rule distinct_map_filter) (simp add: distinct_map)

lemma unique_outbox_iff:
  "distinct (map ox_pairing_id rows) \<Longrightarrow> unique_active_outbox_pair rows \<longleftrightarrow> key_unique outbox_key rows"
  unfolding unique_active_outbox_pair_def key_unique_def by (rule distinct_map_filter) (simp add: distinct_map)

lemma set_inbox_ids [simp]: "map ir_pairing_id (set_inbox_where P st now rows) = map ir_pairing_id rows"
  by (induction rows) (auto simp: set_inbox_where_def)

lemma set_outbox_ids [simp]:
  "(\<And>r. ox_pairing_id (f r) = ox_pairing_id r) \<Longrightarrow>
   map ox_pairing_id (set_outbox_where P f now rows) = map ox_pairing_id rows"
  by (induction rows) (auto simp: set_outbox_where_def)

text \<open>Rows that are retired lose their key, the others keep it.\<close>

lemma retire_inbox_unique:
  assumes "key_unique inbox_key rows" "\<not> is_outstanding st"
  shows "key_unique inbox_key (set_inbox_where P st now rows)"
  unfolding set_inbox_where_def
  by (rule key_unique_map [OF assms(1)]) (use assms(2) in \<open>auto simp: inbox_key_def split: if_splits\<close>)

lemma retire_outbox_unique:
  assumes "key_unique outbox_key rows" "\<And>r. \<not> is_outstanding (ox_state (f r))"
  shows "key_unique outbox_key (set_outbox_where P f now rows)"
  unfolding set_outbox_where_def
  by (rule key_unique_map [OF assms(1)]) (use assms(2) in \<open>auto simp: outbox_key_def split: if_splits\<close>)

lemma tables_okD:
  assumes "pairing_tables_ok s"
  shows "distinct (map ir_pairing_id (inbox_t s))" "distinct (map ox_pairing_id (outbox_t s))"
    "key_unique inbox_key (inbox_t s)" "key_unique outbox_key (outbox_t s)"
  using assms by (simp_all add: pairing_tables_ok_def)

lemma write_inbox_retire:
  assumes "pairing_tables_ok s" "\<not> is_outstanding st"
    and s'_def: "s' = s \<lparr> inbox_t := set_inbox_where P st (pairing_now s) (inbox_t s) \<rparr>"
  shows "write_inbox (set_inbox_where P st) s = (Ok (), s') \<and> pairing_tables_ok s'"
  using assms(1,2) unfolding s'_def
  by (simp add: write_inbox_def Let_def unique_inbox_iff retire_inbox_unique pairing_tables_ok_def)

lemma write_outbox_retire:
  assumes "pairing_tables_ok s" "\<And>r. \<not> is_outstanding (ox_state (f r))" "\<And>r. ox_pairing_id (f r) = ox_pairing_id r"
    and s'_def: "s' = s \<lparr> outbox_t := set_outbox_where P f (pairing_now s) (outbox_t s) \<rparr>"
  shows "write_outbox (set_outbox_where P f) s = (Ok (), s') \<and> pairing_tables_ok s'"
  using assms(1-3) unfolding s'_def
  by (simp add: write_outbox_def Let_def unique_outbox_iff retire_outbox_unique pairing_tables_ok_def)

lemma not_outstanding [simp]: "\<not> is_outstanding Archived" "\<not> is_outstanding Cancelled"
  by (simp_all add: is_outstanding_def is_pending_def is_accepted_def)

lemma archive_inbox_run:
  assumes "pairing_tables_ok s"
    and s'_def: "s' = s \<lparr> inbox_t := set_inbox_where (\<lambda>r. ir_pair_key r = Some k \<and> ir_pairing_id r \<noteq> p) Archived (pairing_now s) (inbox_t s) \<rparr>"
  shows "archive_inbox_for_pair k p s = (Ok (), s') \<and> pairing_tables_ok s'"
  unfolding s'_def archive_inbox_for_pair_def by (rule write_inbox_retire [OF assms(1) _ refl]) simp

lemma cancel_outbox_run:
  assumes "pairing_tables_ok s"
    and s'_def: "s' = s \<lparr> outbox_t := set_outbox_where (\<lambda>r. ox_pair_key r = Some k \<and> ox_pairing_id r \<noteq> p)
    (\<lambda>r. r \<lparr> ox_state := Cancelled \<rparr>) (pairing_now s) (outbox_t s) \<rparr>"
  shows "cancel_outbox_for_pair k p s = (Ok (), s') \<and> pairing_tables_ok s'"
  unfolding s'_def cancel_outbox_for_pair_def by (rule write_outbox_retire [OF assms(1) _ _ refl]) simp_all

lemma cancel_crossed_run:
  assumes "pairing_tables_ok s"
    and s'_def: "s' = s \<lparr> outbox_t := set_outbox_where (\<lambda>r. ox_recipient r = Some c \<and> ox_pairing_id r \<noteq> p)
    (\<lambda>r. r \<lparr> ox_state := Cancelled, ox_pair_key := Some k \<rparr>) (pairing_now s) (outbox_t s) \<rparr>"
  shows "cancel_crossed_outbox_by_recipient k c p s = (Ok (), s') \<and> pairing_tables_ok s'"
  unfolding s'_def cancel_crossed_outbox_by_recipient_def by (rule write_outbox_retire [OF assms(1) _ _ refl]) simp_all

lemma upsert_inbox_run:
  assumes "pairing_tables_ok s"
    and "\<And>r k. r \<in> set (inbox_t s) \<Longrightarrow> ir_pairing_id r \<noteq> pi_pairing_id item \<Longrightarrow> pi_pair_key item = Some k \<Longrightarrow> inbox_key r \<noteq> Some k"
    and row_def: "row = inbox_row_of item c cap (pairing_now s) (lookup ir_pairing_id (pi_pairing_id item) (inbox_t s))"
    and s'_def: "s' = s \<lparr> inbox_t := upsert ir_pairing_id row (inbox_t s) \<rparr>"
  shows "upsert_pairing_inbox item c cap s = (Ok (), s') \<and> pairing_tables_ok s'"
proof -
  have row: "ir_pairing_id row = pi_pairing_id item" "inbox_key row = Some k \<Longrightarrow> pi_pair_key item = Some k" for k
    by (auto simp: row_def inbox_row_of_def Let_def inbox_key_def split: if_splits)
  have "key_unique inbox_key (upsert ir_pairing_id row (inbox_t s))"
    using tables_okD(3) [OF assms(1)] by (rule key_unique_upsert) (use row assms(2) in metis)
  then show ?thesis
    using assms(1) by (simp add: upsert_pairing_inbox_def write_inbox_def Let_def unique_inbox_iff pairing_tables_ok_def s'_def row_def)
qed

lemma upsert_outbox_run:
  assumes "pairing_tables_ok s"
    and "\<And>r k. r \<in> set (outbox_t s) \<Longrightarrow> ox_pairing_id r \<noteq> pi_pairing_id item \<Longrightarrow> pi_pair_key item = Some k \<Longrightarrow> outbox_key r \<noteq> Some k"
    and s'_def: "s' = s \<lparr> outbox_t := upsert ox_pairing_id (outbox_row_of item (pairing_now s)) (outbox_t s) \<rparr>"
  shows "upsert_pairing_outbox item s = (Ok (), s') \<and> pairing_tables_ok s'"
proof -
  have row: "ox_pairing_id (outbox_row_of item now) = pi_pairing_id item"
    "outbox_key (outbox_row_of item now) = Some k \<Longrightarrow> pi_pair_key item = Some k" for k now
    by (auto simp: outbox_row_of_def outbox_key_def split: if_splits)
  have "key_unique outbox_key (upsert ox_pairing_id (outbox_row_of item (pairing_now s)) (outbox_t s))"
    using tables_okD(4) [OF assms(1)] by (rule key_unique_upsert) (use row assms(2) in metis)
  then show ?thesis
    using assms(1) by (simp add: upsert_pairing_outbox_def write_outbox_def Let_def unique_outbox_iff pairing_tables_ok_def s'_def)
qed

text \<open>Every other active row of the pair is retired.\<close>

lemma retired_inbox_key:
  "r \<in> set (set_inbox_where (\<lambda>r. ir_pair_key r = Some k \<and> ir_pairing_id r \<noteq> p) Archived now rows) \<Longrightarrow>
   ir_pairing_id r \<noteq> p \<Longrightarrow> inbox_key r \<noteq> Some k"
  by (auto simp: set_inbox_where_def inbox_key_def split: if_splits)

lemma retired_outbox_key:
  "r \<in> set (set_outbox_where (\<lambda>r. ox_pair_key r = Some k \<and> ox_pairing_id r \<noteq> p) (\<lambda>r. r \<lparr> ox_state := Cancelled \<rparr>) now rows) \<Longrightarrow>
   ox_pairing_id r \<noteq> p \<Longrightarrow> outbox_key r \<noteq> Some k"
  by (auto simp: set_outbox_where_def outbox_key_def split: if_splits)

lemma put_inbox_none:
  assumes "pairing_tables_ok s" "pi_sender item = Some c" "pi_capability item = Some cap" "pi_pair_key item = None"
    and s'_def: "s' = s \<lparr> inbox_t := upsert ir_pairing_id
      (inbox_row_of item c cap (pairing_now s) (lookup ir_pairing_id (pi_pairing_id item) (inbox_t s))) (inbox_t s) \<rparr>"
  shows "put_pairing_inbox item s = (Ok (), s') \<and> pairing_tables_ok s'"
  using upsert_inbox_run [OF assms(1) _ refl s'_def] assms(2-4) by (simp add: put_pairing_inbox_def)

lemma put_inbox_superseded:
  assumes "pi_sender item = Some c" "pi_capability item = Some cap" "pi_pair_key item = Some k"
    and "has_superseded_outbox k (pi_pairing_id item) s"
  shows "put_pairing_inbox item s = (Ok (), s)"
  using assms by (simp add: put_pairing_inbox_def)

lemma put_inbox_keyed:
  assumes ok: "pairing_tables_ok s" and item: "pi_sender item = Some c" "pi_capability item = Some cap" "pi_pair_key item = Some k"
    and fresh: "\<not> has_superseded_outbox k (pi_pairing_id item) s"
    and out: "out = set_outbox_where (\<lambda>r. ox_recipient r = Some (ct_installation_id c) \<and> ox_pairing_id r \<noteq> pi_pairing_id item)
      (\<lambda>r. r \<lparr> ox_state := Cancelled, ox_pair_key := Some k \<rparr>) (pairing_now s) (outbox_t s)"
    and inb: "inb = set_inbox_where (\<lambda>r. ir_pair_key r = Some k \<and> ir_pairing_id r \<noteq> pi_pairing_id item) Archived (pairing_now s) (inbox_t s)"
    and s'_def: "s' = s \<lparr> outbox_t := out, inbox_t := upsert ir_pairing_id
      (inbox_row_of item c cap (pairing_now s) (lookup ir_pairing_id (pi_pairing_id item) inb)) inb \<rparr>"
  shows "put_pairing_inbox item s = (Ok (), s') \<and> pairing_tables_ok s'"
proof -
  have 1: "cancel_crossed_outbox_by_recipient k (ct_installation_id c) (pi_pairing_id item) s = (Ok (), s \<lparr> outbox_t := out \<rparr>)"
    "pairing_tables_ok (s \<lparr> outbox_t := out \<rparr>)"
    using cancel_crossed_run [OF ok refl] by (auto simp: out)
  have 2: "archive_inbox_for_pair k (pi_pairing_id item) (s \<lparr> outbox_t := out \<rparr>) = (Ok (), s \<lparr> outbox_t := out, inbox_t := inb \<rparr>)"
    "pairing_tables_ok (s \<lparr> outbox_t := out, inbox_t := inb \<rparr>)"
    using archive_inbox_run [OF 1(2) refl, of k "pi_pairing_id item"] by (simp_all add: inb)
  have 3: "upsert_pairing_inbox item c cap (s \<lparr> outbox_t := out, inbox_t := inb \<rparr>) = (Ok (), s') \<and> pairing_tables_ok s'"
    by (rule upsert_inbox_run [OF 2(2) _ refl]) (use item retired_inbox_key in \<open>auto simp: inb s'_def\<close>)
  show ?thesis using item fresh 1(1) 2(1) 3 by (simp add: put_pairing_inbox_def seq_ok)
qed

lemma put_inbox_ok:
  assumes "pairing_tables_ok s" "pi_sender item = Some c" "pi_capability item = Some cap"
  shows "\<exists>s'. put_pairing_inbox item s = (Ok (), s') \<and> pairing_tables_ok s'"
proof (cases "pi_pair_key item")
  case None
  then show ?thesis using put_inbox_none [OF assms None refl] by blast
next
  case (Some k)
  show ?thesis
    using put_inbox_superseded [OF assms(2,3) Some] put_inbox_keyed [OF assms Some _ refl refl refl] assms(1) by blast
qed

lemma put_outbox_superseded:
  assumes "pi_pair_key item = Some k" "has_superseded_inbox k (pi_pairing_id item) s"
  shows "put_pairing_outbox item s = (Ok (), s)"
  using assms by (simp add: put_pairing_outbox_def)

lemma put_outbox_none:
  assumes "pairing_tables_ok s" "pi_pair_key item = None"
    and s'_def: "s' = s \<lparr> outbox_t := upsert ox_pairing_id (outbox_row_of item (pairing_now s)) (outbox_t s) \<rparr>"
  shows "put_pairing_outbox item s = (Ok (), s') \<and> pairing_tables_ok s'"
  using upsert_outbox_run [OF assms(1) _ s'_def] assms(2) by (simp add: put_pairing_outbox_def)

lemma put_outbox_keyed:
  assumes ok: "pairing_tables_ok s" and item: "pi_pair_key item = Some k"
    and fresh: "\<not> has_superseded_inbox k (pi_pairing_id item) s"
    and inb: "inb = set_inbox_where (\<lambda>r. ir_pair_key r = Some k \<and> ir_pairing_id r \<noteq> pi_pairing_id item) Archived (pairing_now s) (inbox_t s)"
    and out: "out = set_outbox_where (\<lambda>r. ox_pair_key r = Some k \<and> ox_pairing_id r \<noteq> pi_pairing_id item)
      (\<lambda>r. r \<lparr> ox_state := Cancelled \<rparr>) (pairing_now s) (outbox_t s)"
    and s'_def: "s' = s \<lparr> inbox_t := inb, outbox_t := upsert ox_pairing_id (outbox_row_of item (pairing_now s)) out \<rparr>"
  shows "put_pairing_outbox item s = (Ok (), s') \<and> pairing_tables_ok s'"
proof -
  have 1: "archive_inbox_for_pair k (pi_pairing_id item) s = (Ok (), s \<lparr> inbox_t := inb \<rparr>)"
    "pairing_tables_ok (s \<lparr> inbox_t := inb \<rparr>)"
    using archive_inbox_run [OF ok refl] by (auto simp: inb)
  have 2: "cancel_outbox_for_pair k (pi_pairing_id item) (s \<lparr> inbox_t := inb \<rparr>) = (Ok (), s \<lparr> inbox_t := inb, outbox_t := out \<rparr>)"
    "pairing_tables_ok (s \<lparr> inbox_t := inb, outbox_t := out \<rparr>)"
    using cancel_outbox_run [OF 1(2) refl, of k "pi_pairing_id item"] by (simp_all add: out)
  have 3: "upsert_pairing_outbox item (s \<lparr> inbox_t := inb, outbox_t := out \<rparr>) = (Ok (), s') \<and> pairing_tables_ok s'"
    by (rule upsert_outbox_run [OF 2(2)]) (use item retired_outbox_key in \<open>auto simp: out s'_def\<close>)
  show ?thesis using item fresh 1(1) 2(1) 3 by (simp add: put_pairing_outbox_def seq_ok)
qed

lemma put_outbox_ok:
  assumes "pairing_tables_ok s"
  shows "\<exists>s'. put_pairing_outbox item s = (Ok (), s') \<and> pairing_tables_ok s'"
proof (cases "pi_pair_key item")
  case None
  then show ?thesis using put_outbox_none [OF assms None refl] by blast
next
  case (Some k)
  show ?thesis
    using put_outbox_superseded [OF Some] put_outbox_keyed [OF assms Some _ refl refl refl] assms by blast
qed

text \<open>A request submitted with a code, and the request an incoming offer opens.\<close>

definition submitted_pairing :: "string \<Rightarrow> int \<Rightarrow> pairing_item" where
  "submitted_pairing started now =
     \<lparr> pi_pairing_id = started, pi_pair_key = None, pi_sender = None, pi_capability = None,
       pi_expires_at = now + 180, pi_state = Pending, pi_received = False, pi_available_actions = [],
       pi_offer_invite_id = None, pi_offer_payload = None \<rparr>"

definition offered_pairing :: "crypto_lib \<Rightarrow> string \<Rightarrow> string \<Rightarrow> string \<Rightarrow> contact_invite \<Rightarrow> pairing_item" where
  "offered_pairing lib me pairing_id invite parsed =
     \<lparr> pi_pairing_id = pairing_id, pi_pair_key = Some (pairing_pair_key lib me (ci_installation_id parsed)),
       pi_sender = Some (contact_record_from_card (contact_card_from_invite parsed) False),
       pi_capability = Some pairing_id, pi_expires_at = sint (ci_expires_at parsed), pi_state = Pending,
       pi_received = True, pi_available_actions = [], pi_offer_invite_id = Some (ci_invite_id parsed),
       pi_offer_payload = Some invite \<rparr>"

section \<open>Histories of the tables\<close>

definition keeps_tables :: "'a pairing_action_m \<Rightarrow> bool" where
  "keeps_tables m \<longleftrightarrow> (\<forall>s. pairing_tables_ok s \<longrightarrow> pairing_tables_ok (snd (m s)))"

lemma keeps_tables_seq [intro]:
  "keeps_tables m \<Longrightarrow> (\<And>x. keeps_tables (k x)) \<Longrightarrow> keeps_tables (seq m k)"
  unfolding keeps_tables_def seq_def by (auto split: prod.splits sum.splits)

lemma keeps_tables_ask [intro]: "keeps_tables (ask f)"
  by (simp add: keeps_tables_def ask_def)

lemma keeps_tables_return [intro]: "keeps_tables (return x)"
  by (simp add: keeps_tables_def)

lemma keeps_tables_write_inbox [intro]: "keeps_tables (write_inbox (set_inbox_where P st))"
  by (auto simp: keeps_tables_def write_inbox_def Let_def pairing_tables_ok_def unique_inbox_iff)

lemma keeps_tables_write_outbox [intro]:
  "(\<And>r. ox_pairing_id (f r) = ox_pairing_id r) \<Longrightarrow> keeps_tables (write_outbox (set_outbox_where P f))"
  by (auto simp: keeps_tables_def write_outbox_def Let_def pairing_tables_ok_def unique_outbox_iff)

lemma keeps_tables_bind: "keeps_tables (bind_pairing_outbox_pair_key invite_id pair_key)"
  unfolding bind_pairing_outbox_pair_key_def reconcile_pairing_inbox_def reconcile_pairing_outbox_def cancel_outbox_for_pair_def
  by (intro keeps_tables_seq keeps_tables_ask, split option.split, unfold Let_def)
    (auto intro!: keeps_tables_seq keeps_tables_ask keeps_tables_write_inbox keeps_tables_write_outbox)

lemma keeps_tables_put_inbox: "keeps_tables (put_pairing_inbox item)"
  unfolding keeps_tables_def
proof (intro allI impI)
  fix s assume ok: "pairing_tables_ok s"
  show "pairing_tables_ok (snd (put_pairing_inbox item s))"
  proof (cases "\<exists>c cap. pi_sender item = Some c \<and> pi_capability item = Some cap")
    case True
    then show ?thesis using put_inbox_ok [OF ok] by fastforce
  next
    case False
    then have "snd (put_pairing_inbox item s) = s"
      by (cases "pi_sender item"; cases "pi_capability item") (simp_all add: put_pairing_inbox_def ok_or_def)
    then show ?thesis using ok by simp
  qed
qed

inductive pairing_table_step :: "pairing_store \<Rightarrow> pairing_store \<Rightarrow> bool" where
  PutInbox: "pairing_table_step s (snd (put_pairing_inbox item s))"
| PutOutbox: "pairing_table_step s (snd (put_pairing_outbox item s))"
| Bind: "pairing_table_step s (snd (bind_pairing_outbox_pair_key invite_id pair_key s))"
| Tick: "pairing_now s \<le> now \<Longrightarrow> pairing_table_step s (s \<lparr> pairing_now := now \<rparr>)"

definition empty_tables :: "pairing_store \<Rightarrow> bool" where
  "empty_tables s \<longleftrightarrow> inbox_t s = [] \<and> outbox_t s = []"

lemma empty_tables_ok: "empty_tables s \<Longrightarrow> pairing_tables_ok s"
  by (simp add: empty_tables_def pairing_tables_ok_def key_unique_def)

lemma pairing_table_step_ok: "pairing_tables_ok s \<Longrightarrow> pairing_table_step s s' \<Longrightarrow> pairing_tables_ok s'"
proof (erule pairing_table_step.cases)
  fix item t assume "pairing_tables_ok s" "s = t" "s' = snd (put_pairing_outbox item t)"
  then show ?thesis using put_outbox_ok [of t item] by fastforce
qed (use keeps_tables_put_inbox keeps_tables_bind in \<open>auto simp: keeps_tables_def pairing_tables_ok_def\<close>)

interpretation pairing_tables: invariant_system empty_tables pairing_table_step pairing_tables_ok
proof unfold_locales
  show "empty_tables s \<Longrightarrow> pairing_tables_ok s" for s by (rule empty_tables_ok)
  show "pairing_tables_ok s \<Longrightarrow> pairing_table_step s s' \<Longrightarrow> pairing_tables_ok s'" for s s'
    by (rule pairing_table_step_ok)
qed

text \<open>C17: After any history of pairing writes and bindings the two unique indexes on active rows hold, and no
  later write is refused by them: every request can be stored in the outbox, and every request with a sender and a
  capability in the inbox.\<close>

theorem pairing_writes_accepted:
  assumes "reachable empty_tables pairing_table_step s"
  shows "unique_active_inbox_pair (inbox_t s) \<and> unique_active_outbox_pair (outbox_t s) \<and>
    (\<forall>item. fst (put_pairing_outbox item s) = Ok ()) \<and>
    (\<forall>item. fst (put_pairing_inbox item s) =
       (if pi_sender item = None then Err (Storage ''pairing inbox item missing sender'')
        else if pi_capability item = None then Err (Storage ''pairing inbox item missing capability'')
        else Ok ()))"
proof -
  have ok: "pairing_tables_ok s" using assms by (rule pairing_tables.reachable_inv)
  have "fst (put_pairing_outbox item s) = Ok ()" for item
    using put_outbox_ok [OF ok, of item] by auto
  moreover have "fst (put_pairing_inbox item s) =
       (if pi_sender item = None then Err (Storage ''pairing inbox item missing sender'')
        else if pi_capability item = None then Err (Storage ''pairing inbox item missing capability'')
        else Ok ())" for item
  proof (cases "\<exists>c cap. pi_sender item = Some c \<and> pi_capability item = Some cap")
    case True
    then show ?thesis using put_inbox_ok [OF ok, of item] by fastforce
  next
    case False
    then show ?thesis
      by (cases "pi_sender item"; cases "pi_capability item") (simp_all add: put_pairing_inbox_def ok_or_def)
  qed
  ultimately show ?thesis
    using ok by (simp add: unique_inbox_iff unique_outbox_iff pairing_tables_ok_def)
qed

text \<open>A request of the pair \<open>k\<close> with the installation \<open>peer\<close>.\<close>

definition keyed_request :: "string \<Rightarrow> string \<Rightarrow> string \<Rightarrow> pairing_item \<Rightarrow> bool" where
  "keyed_request k peer pairing_id item \<longleftrightarrow> pi_pairing_id item = pairing_id \<and> pi_pair_key item = Some k \<and>
     is_outstanding (pi_state item) \<and> map_option ct_installation_id (pi_sender item) = Some peer \<and> pi_capability item \<noteq> None"

definition sample_pairing_store :: pairing_store where
  "sample_pairing_store = \<lparr> inbox_t = [], outbox_t = [], pairing_now = 0 \<rparr>"

definition sample_request :: "string \<Rightarrow> string \<Rightarrow> string \<Rightarrow> bool \<Rightarrow> pairing_item" where
  "sample_request k peer pairing_id received =
     \<lparr> pi_pairing_id = pairing_id, pi_pair_key = Some k, pi_sender = Some (stored_contact peer ''nick'' ''pk'' ''fp''),
       pi_capability = Some ''cap'', pi_expires_at = 600, pi_state = Pending, pi_received = received, pi_available_actions = [],
       pi_offer_invite_id = None, pi_offer_payload = Some ''offer'' \<rparr>"

lemma sample_store_empty: "empty_tables sample_pairing_store"
  by (simp add: empty_tables_def sample_pairing_store_def)

lemma sample_request_keyed: "keyed_request k peer pairing_id (sample_request k peer pairing_id received)"
  by (simp add: keyed_request_def sample_request_def stored_contact_def is_outstanding_def is_pending_def)

theorem pairing_writes_accepted_witness:
  "fst (put_pairing_inbox (sample_request ''k'' ''bob'' ''q'' True)
     (snd (put_pairing_outbox (sample_request ''k'' ''bob'' ''p'' False) sample_pairing_store))) = Ok ()"
  using pairing_writes_accepted [OF reach_step [where step = pairing_table_step, OF reach_init [where init = empty_tables, OF sample_store_empty] PutOutbox]]
  by (simp add: sample_request_def)

section \<open>Crossed requests\<close>

text \<open>The active requests of one pair, in both tables.\<close>

definition active_ids :: "string \<Rightarrow> pairing_store \<Rightarrow> string list" where
  "active_ids k s = map ir_pairing_id (filter (\<lambda>r. inbox_key r = Some k) (inbox_t s)) @
     map ox_pairing_id (filter (\<lambda>r. outbox_key r = Some k) (outbox_t s))"

lemma pairing_pair_key_commute: "pairing_pair_key lib a b = pairing_pair_key lib b a"
  by (auto simp: pairing_pair_key_def)

lemma filter_upsert_none:
  "filter P rows = [] \<Longrightarrow> distinct (map key rows) \<Longrightarrow> P row \<Longrightarrow> filter P (upsert key row rows) = [row]"
proof (cases "key row \<in> key ` set rows")
  case True
  assume P: "filter P rows = []" "distinct (map key rows)" "P row"
  have "key row \<in> key ` set rows \<Longrightarrow> distinct (map key rows) \<Longrightarrow> filter P rows = [] \<Longrightarrow>
      filter P (map (\<lambda>r. if key r = key row then row else r) rows) = [row]" for rows
    using P(3)
  proof (induction rows)
    case (Cons x xs)
    show ?case
    proof (cases "key x = key row")
      case True
      then have "map (\<lambda>r. if key r = key row then row else r) xs = xs"
        using Cons.prems by (intro map_idI) (auto simp: image_iff)
      with True Cons.prems show ?thesis by (simp split: if_splits)
    next
      case False
      then show ?thesis using Cons by (auto split: if_splits)
    qed
  qed simp
  then show ?thesis using True P by (simp add: upsert_def)
next
  case False
  assume "filter P rows = []" "P row"
  then show ?thesis using False by (simp add: upsert_def)
qed

lemma retire_inbox_active:
  assumes "\<And>r. r \<in> set rows \<Longrightarrow> inbox_key r = Some k \<Longrightarrow> P r" "\<not> is_outstanding st"
  shows "filter (\<lambda>r. inbox_key r = Some k) (set_inbox_where P st now rows) = []"
  using assms by (auto simp: filter_empty_conv set_inbox_where_def inbox_key_def split: if_splits)

lemma retire_outbox_active:
  assumes "\<And>r. r \<in> set rows \<Longrightarrow> outbox_key r = Some k \<Longrightarrow> P r" "\<And>r. \<not> is_outstanding (ox_state (f r))"
  shows "filter (\<lambda>r. outbox_key r = Some k) (set_outbox_where P f now rows) = []"
  using assms by (auto simp: filter_empty_conv set_outbox_where_def outbox_key_def split: if_splits)

lemma superseded_outbox_iff:
  "has_superseded_outbox k p s \<longleftrightarrow> (\<exists>r \<in> set (filter (\<lambda>r. outbox_key r = Some k) (outbox_t s)). ox_pairing_id r < p)"
  by (auto simp: has_superseded_outbox_def list_ex_iff outbox_key_def)

lemma superseded_inbox_iff:
  "has_superseded_inbox k p s \<longleftrightarrow> (\<exists>r \<in> set (filter (\<lambda>r. inbox_key r = Some k) (inbox_t s)). ir_pairing_id r < p)"
  by (auto simp: has_superseded_inbox_def list_ex_iff inbox_key_def)

lemma inbox_row_key: "inbox_key (inbox_row_of item c cap now old) = (if is_outstanding (pi_state item) then pi_pair_key item else None)"
  by (simp add: inbox_key_def inbox_row_of_def Let_def)

lemma outbox_row_key: "outbox_key (outbox_row_of item now) = (if is_outstanding (pi_state item) then pi_pair_key item else None)"
  by (simp add: outbox_key_def outbox_row_of_def)

lemma row_of_fields [simp]: "ir_pairing_id (inbox_row_of item c cap now old) = pi_pairing_id item"
  "ox_pairing_id (outbox_row_of item now) = pi_pairing_id item"
  "ox_recipient (outbox_row_of item now) = map_option ct_installation_id (pi_sender item)"
  by (simp_all add: inbox_row_of_def outbox_row_of_def Let_def)

lemma put_outbox_active:
  assumes ok: "pairing_tables_ok s" and item: "pi_pair_key item = Some k" "is_outstanding (pi_state item)"
    and inb: "\<forall>r \<in> set (inbox_t s). inbox_key r = Some k \<longrightarrow> ir_pairing_id r \<noteq> pi_pairing_id item"
    and out: "filter (\<lambda>r. outbox_key r = Some k) (outbox_t s) = []"
    and fresh: "\<not> has_superseded_inbox k (pi_pairing_id item) s"
  shows "\<exists>s'. put_pairing_outbox item s = (Ok (), s') \<and> pairing_tables_ok s' \<and>
    filter (\<lambda>r. inbox_key r = Some k) (inbox_t s') = [] \<and>
    filter (\<lambda>r. outbox_key r = Some k) (outbox_t s') = [outbox_row_of item (pairing_now s)]"
proof -
  let ?out = "set_outbox_where (\<lambda>r. ox_pair_key r = Some k \<and> ox_pairing_id r \<noteq> pi_pairing_id item)
      (\<lambda>r. r \<lparr> ox_state := Cancelled \<rparr>) (pairing_now s) (outbox_t s)"
  have "filter (\<lambda>r. outbox_key r = Some k) ?out = []"
    by (rule retire_outbox_active) (use out in \<open>auto simp: filter_empty_conv\<close>)
  then have "filter (\<lambda>r. outbox_key r = Some k) (upsert ox_pairing_id (outbox_row_of item (pairing_now s)) ?out) =
      [outbox_row_of item (pairing_now s)]"
    by (rule filter_upsert_none) (use tables_okD(2) [OF ok] item in \<open>simp_all add: outbox_row_key\<close>)
  moreover have "filter (\<lambda>r. inbox_key r = Some k) (set_inbox_where
      (\<lambda>r. ir_pair_key r = Some k \<and> ir_pairing_id r \<noteq> pi_pairing_id item) Archived (pairing_now s) (inbox_t s)) = []"
    by (rule retire_inbox_active) (use inb in \<open>auto simp: inbox_key_def split: if_splits\<close>)
  ultimately show ?thesis using put_outbox_keyed [OF ok item(1) fresh refl refl refl] by simp
qed

lemma put_inbox_active:
  assumes ok: "pairing_tables_ok s"
    and item: "pi_sender item = Some c" "pi_capability item = Some cap" "pi_pair_key item = Some k" "is_outstanding (pi_state item)"
    and inb: "filter (\<lambda>r. inbox_key r = Some k) (inbox_t s) = []"
    and out: "\<forall>r \<in> set (outbox_t s). outbox_key r = Some k \<longrightarrow>
      ox_pairing_id r \<noteq> pi_pairing_id item \<and> ox_recipient r = Some (ct_installation_id c)"
    and fresh: "\<not> has_superseded_outbox k (pi_pairing_id item) s"
  shows "\<exists>s' row. put_pairing_inbox item s = (Ok (), s') \<and> pairing_tables_ok s' \<and>
    filter (\<lambda>r. outbox_key r = Some k) (outbox_t s') = [] \<and>
    filter (\<lambda>r. inbox_key r = Some k) (inbox_t s') = [row] \<and> ir_pairing_id row = pi_pairing_id item"
proof -
  let ?inb = "set_inbox_where (\<lambda>r. ir_pair_key r = Some k \<and> ir_pairing_id r \<noteq> pi_pairing_id item) Archived (pairing_now s) (inbox_t s)"
  let ?row = "inbox_row_of item c cap (pairing_now s) (lookup ir_pairing_id (pi_pairing_id item) ?inb)"
  have "filter (\<lambda>r. inbox_key r = Some k) ?inb = []"
    by (rule retire_inbox_active) (use inb in \<open>auto simp: filter_empty_conv\<close>)
  then have "filter (\<lambda>r. inbox_key r = Some k) (upsert ir_pairing_id ?row ?inb) = [?row]"
    by (rule filter_upsert_none) (use tables_okD(1) [OF ok] item in \<open>simp_all add: inbox_row_key\<close>)
  moreover have "filter (\<lambda>r. outbox_key r = Some k) (set_outbox_where
      (\<lambda>r. ox_recipient r = Some (ct_installation_id c) \<and> ox_pairing_id r \<noteq> pi_pairing_id item)
      (\<lambda>r. r \<lparr> ox_state := Cancelled, ox_pair_key := Some k \<rparr>) (pairing_now s) (outbox_t s)) = []"
    by (rule retire_outbox_active) (use out in auto)
  ultimately show ?thesis using put_inbox_keyed [OF ok item(1-3) fresh refl refl refl] by simp
qed

text \<open>The two orders in which a device stores its own and the incoming request.\<close>

definition store_crossed :: "bool \<Rightarrow> pairing_item \<Rightarrow> pairing_item \<Rightarrow> pairing_store \<Rightarrow> pairing_store" where
  "store_crossed own_first own incoming s =
     (if own_first then snd (put_pairing_inbox incoming (snd (put_pairing_outbox own s)))
      else snd (put_pairing_outbox own (snd (put_pairing_inbox incoming s))))"

lemma own_first_least:
  assumes ok: "pairing_tables_ok s" and none: "active_ids k s = []" and ne: "p \<noteq> q"
    and own: "keyed_request k peer p own" and incoming: "keyed_request k peer q incoming"
  shows "active_ids k (store_crossed True own incoming s) = [min p q]"
proof -
  have n: "filter (\<lambda>r. inbox_key r = Some k) (inbox_t s) = []" "filter (\<lambda>r. outbox_key r = Some k) (outbox_t s) = []"
    using none by (simp_all add: active_ids_def)
  obtain s1 where s1: "put_pairing_outbox own s = (Ok (), s1)" "pairing_tables_ok s1"
    "filter (\<lambda>r. inbox_key r = Some k) (inbox_t s1) = []"
    "filter (\<lambda>r. outbox_key r = Some k) (outbox_t s1) = [outbox_row_of own (pairing_now s)]"
    using put_outbox_active [OF ok _ _ _ n(2)] own n(1)
    by (fastforce simp: keyed_request_def superseded_inbox_iff filter_empty_conv)
  obtain c cap where item: "pi_sender incoming = Some c" "pi_capability incoming = Some cap" "pi_pair_key incoming = Some k"
    "is_outstanding (pi_state incoming)" and q: "pi_pairing_id incoming = q" "ct_installation_id c = peer"
    using incoming by (auto simp: keyed_request_def)
  have own_row: "ox_pairing_id r = p \<and> ox_recipient r = Some peer" if "r \<in> set (outbox_t s1)" "outbox_key r = Some k" for r
  proof -
    have "r \<in> set (filter (\<lambda>r. outbox_key r = Some k) (outbox_t s1))" using that by simp
    then show ?thesis using own by (simp add: s1(4) keyed_request_def)
  qed
  have super: "has_superseded_outbox k q s1 \<longleftrightarrow> p < q"
    using own by (simp add: superseded_outbox_iff s1(4) keyed_request_def)
  show ?thesis
  proof (cases "p < q")
    case True
    then show ?thesis using put_inbox_superseded [OF item(1-3), of s1] super q s1 own
      by (simp add: store_crossed_def active_ids_def keyed_request_def)
  next
    case False
    then show ?thesis
      using put_inbox_active [OF s1(2) item s1(3)] own_row super q s1(1) ne
      by (fastforce simp: store_crossed_def active_ids_def)
  qed
qed

lemma incoming_first_least:
  assumes ok: "pairing_tables_ok s" and none: "active_ids k s = []" and ne: "p \<noteq> q"
    and own: "keyed_request k peer p own" and incoming: "keyed_request k peer q incoming"
  shows "active_ids k (store_crossed False own incoming s) = [min p q]"
proof -
  have n: "filter (\<lambda>r. inbox_key r = Some k) (inbox_t s) = []" "filter (\<lambda>r. outbox_key r = Some k) (outbox_t s) = []"
    using none by (simp_all add: active_ids_def)
  obtain c cap where item: "pi_sender incoming = Some c" "pi_capability incoming = Some cap" "pi_pair_key incoming = Some k"
    "is_outstanding (pi_state incoming)" and q: "pi_pairing_id incoming = q"
    using incoming by (auto simp: keyed_request_def)
  obtain s1 row where s1: "put_pairing_inbox incoming s = (Ok (), s1)" "pairing_tables_ok s1"
    "filter (\<lambda>r. outbox_key r = Some k) (outbox_t s1) = []"
    "filter (\<lambda>r. inbox_key r = Some k) (inbox_t s1) = [row]" "ir_pairing_id row = q"
    using put_inbox_active [OF ok item n(1)] n(2) q by (fastforce simp: superseded_outbox_iff filter_empty_conv)
  have row: "ir_pairing_id r = q" if "r \<in> set (inbox_t s1)" "inbox_key r = Some k" for r
  proof -
    have "r \<in> set (filter (\<lambda>r. inbox_key r = Some k) (inbox_t s1))" using that by simp
    then show ?thesis using s1(4,5) by simp
  qed
  have own': "pi_pair_key own = Some k" "is_outstanding (pi_state own)" and p: "pi_pairing_id own = p"
    using own by (auto simp: keyed_request_def)
  have super: "has_superseded_inbox k p s1 \<longleftrightarrow> q < p" by (simp add: superseded_inbox_iff s1(4,5))
  show ?thesis
  proof (cases "q < p")
    case True
    then show ?thesis using put_outbox_superseded [OF own'(1), of s1] super p s1
      by (simp add: store_crossed_def active_ids_def)
  next
    case False
    then show ?thesis using put_outbox_active [OF s1(2) own' _ s1(3)] row super p s1(1) ne
      by (fastforce simp: store_crossed_def active_ids_def)
  qed
qed



section \<open>Requests as the engine writes them\<close>

text \<open>The engine submits requests, stores incoming offers, moves a stored request to another state, completes one for
  a contact, and binds requests when a Welcome arrives.\<close>

inductive engine_pairing_step :: "pairing_store \<Rightarrow> pairing_store \<Rightarrow> bool" where
  Submit: "engine_pairing_step s (snd (put_pairing_outbox (normalize_pairing_item (submitted_pairing started now)) s))"
| Offer: "engine_pairing_step s (snd (put_pairing_inbox (normalize_pairing_item (offered_pairing lib me pid invite parsed)) s))"
| Move: "i \<in> set (pairing_outbox s) \<Longrightarrow> is_outstanding (pi_state i) \<or> \<not> is_outstanding st \<Longrightarrow>
    engine_pairing_step s (snd (put_pairing_outbox (normalize_pairing_item (i \<lparr> pi_state := st \<rparr>)) s))"
| CompleteFor: "i \<in> set (pairing_outbox s) \<Longrightarrow>
    engine_pairing_step s (snd (put_pairing_outbox (normalize_pairing_item (i \<lparr> pi_sender := Some c, pi_state := Completed \<rparr>)) s))"
| Welcomed: "engine_pairing_step s (snd (bind_pairing_outbox_pair_key invite_id (pairing_pair_key lib me peer) s))"
| Clock: "pairing_now s \<le> now \<Longrightarrow> engine_pairing_step s (s \<lparr> pairing_now := now \<rparr>)"

definition requests_unbound :: "pairing_store \<Rightarrow> bool" where
  "requests_unbound s \<longleftrightarrow> pairing_tables_ok s \<and>
     (\<forall>r \<in> set (outbox_t s). ox_pair_key r = None \<and> ox_payload r = None \<and> (is_outstanding (ox_state r) \<longrightarrow> ox_recipient r = None))"

lemma unbound_bind:
  "requests_unbound s \<Longrightarrow> bind_pairing_outbox_pair_key invite_id k s = (Ok (), s)"
proof -
  assume "requests_unbound s"
  then have "filter (\<lambda>r. is_outstanding (ox_state r) \<and> payload_mentions invite_id r) (outbox_t s) = []"
    by (auto simp: filter_empty_conv requests_unbound_def payload_mentions_def)
  then show ?thesis by (simp add: bind_pairing_outbox_pair_key_def candidate_outbox_for_invite_def min_id_def)
qed

lemma unbound_put_outbox:
  assumes "requests_unbound s" "pi_pair_key item = None" "pi_offer_payload item = None"
    and "is_outstanding (pi_state item) \<Longrightarrow> pi_sender item = None"
  shows "requests_unbound (snd (put_pairing_outbox item s))"
  using put_outbox_none [OF _ assms(2) refl, of s] assms
  by (auto simp: requests_unbound_def outbox_row_of_def dest!: subsetD [OF set_upsert_subset])

lemma unbound_put_offer:
  assumes u: "requests_unbound s"
    and s': "s' = snd (put_pairing_inbox (normalize_pairing_item (offered_pairing lib me pid invite parsed)) s)"
  shows "requests_unbound s' \<and> outbox_t s' = outbox_t s \<and>
    map_option ir_state (lookup ir_pairing_id pid (inbox_t s')) = Some Pending"
proof -
  let ?item = "normalize_pairing_item (offered_pairing lib me pid invite parsed)"
  let ?c = "contact_record_from_card (contact_card_from_invite parsed) False"
  let ?k = "pairing_pair_key lib me (ci_installation_id parsed)"
  have ok: "pairing_tables_ok s" using u by (simp add: requests_unbound_def)
  have item: "pi_sender ?item = Some ?c" "pi_capability ?item = Some pid" "pi_pair_key ?item = Some ?k"
    "pi_pairing_id ?item = pid" "pi_state ?item = Pending"
    by (simp_all add: normalize_pairing_item_def offered_pairing_def)
  have "\<not> has_superseded_outbox ?k (pi_pairing_id ?item) s"
    using u by (auto simp: has_superseded_outbox_def list_ex_iff requests_unbound_def)
  note run = put_inbox_keyed [OF ok item(1-3) this refl refl refl]
  have same: "set_outbox_where (\<lambda>r. ox_recipient r = Some (ct_installation_id ?c) \<and> ox_pairing_id r \<noteq> pi_pairing_id ?item)
      f (pairing_now s) (outbox_t s) = outbox_t s" for f
    unfolding set_outbox_where_def by (rule map_idI) (use u in \<open>auto simp: requests_unbound_def\<close>)
  have out: "outbox_t s' = outbox_t s" unfolding s' using run same by simp
  moreover have "requests_unbound s'" using u run out unfolding s' by (simp add: requests_unbound_def)
  moreover have "map_option ir_state (lookup ir_pairing_id pid (inbox_t s')) = Some Pending"
    unfolding s' using run item(4,5) by (simp add: table_simps) (simp add: inbox_row_of_def Let_def item(5))
  ultimately show ?thesis by simp
qed

lemma unbound_read:
  assumes "requests_unbound s" "i \<in> set (pairing_outbox s)"
  shows "pi_pair_key i = None \<and> pi_offer_payload i = None \<and> (is_outstanding (pi_state i) \<longrightarrow> pi_sender i = None)"
  using assms by (auto simp: pairing_outbox_def requests_unbound_def decode_outbox_def)

lemma engine_step_unbound: "requests_unbound s \<Longrightarrow> engine_pairing_step s s' \<Longrightarrow> requests_unbound s'"
proof (erule engine_pairing_step.cases)
  fix started now t assume "requests_unbound s" "s = t"
    "s' = snd (put_pairing_outbox (normalize_pairing_item (submitted_pairing started now)) t)"
  then show ?thesis
    by (simp add: unbound_put_outbox normalize_pairing_item_def submitted_pairing_def)
next
  fix i t st assume *: "requests_unbound s" "s = t" "i \<in> set (pairing_outbox t)"
    "is_outstanding (pi_state i) \<or> \<not> is_outstanding st"
    "s' = snd (put_pairing_outbox (normalize_pairing_item (i \<lparr> pi_state := st \<rparr>)) t)"
  then show ?thesis
    using unbound_read [of t i] by (auto intro!: unbound_put_outbox simp: normalize_pairing_item_def)
next
  fix i t c assume "requests_unbound s" "s = t" "i \<in> set (pairing_outbox t)"
    "s' = snd (put_pairing_outbox (normalize_pairing_item (i \<lparr> pi_sender := Some c, pi_state := Completed \<rparr>)) t)"
  then show ?thesis
    using unbound_read [of t i]
    by (auto intro!: unbound_put_outbox simp: normalize_pairing_item_def is_outstanding_def is_pending_def is_accepted_def)
next
  fix t now assume "requests_unbound s" "s = t" "s' = t \<lparr> pairing_now := now \<rparr>"
  then show ?thesis by (simp add: requests_unbound_def pairing_tables_ok_def)
next
  fix t lib me pid invite parsed assume "requests_unbound s" "s = t"
    "s' = snd (put_pairing_inbox (normalize_pairing_item (offered_pairing lib me pid invite parsed)) t)"
  then show ?thesis using unbound_put_offer by blast
qed (simp add: unbound_bind)

lemma empty_unbound: "empty_tables s \<Longrightarrow> requests_unbound s"
  using empty_tables_ok by (simp add: requests_unbound_def empty_tables_def)

interpretation engine_pairing: invariant_system empty_tables engine_pairing_step requests_unbound
  by (rule invariant_system.intro) (rule empty_unbound, assumption, erule (1) engine_step_unbound)


definition sample_parsed_invite :: contact_invite where
  "sample_parsed_invite = \<lparr> ci_version = 1, ci_installation_id = ''bob'', ci_public_key = ''pk'', ci_fingerprint = ''fp'',
     ci_nickname = Some ''Bob'', ci_recipient_installation_id = None, ci_key_package = ''kp'', ci_invite_id = ''i1'',
     ci_expires_at = 600, ci_peer_endpoint = None, ci_peer_capability_id = None, ci_peer_capability_secret = None,
     ci_signature = None \<rparr>"

definition sample_submitted :: pairing_store where
  "sample_submitted = snd (put_pairing_outbox (normalize_pairing_item (submitted_pairing ''p1'' 0)) sample_pairing_store)"


end
