(* ===== verification/Relationship_Store.thy ===== *)
theory Relationship_Store
  imports Message_Delivery
begin

text \<open>
  Removing and renewing a relationship in the client database (torchat-storage, storage/runtime_storage.rs and
  storage/sqlite/mod.rs with the statements under sql/commands/relationships and sql/queries/relationships): tombstones
  and boundaries with their epochs, the outbox of removal notices and that of their acknowledgements, and the tables a
  removal clears; the removal feature of the runtime (torchat-runtime, features/relationship_removal.rs) that drives a
  removal as a durable operation.
\<close>

section \<open>Tables\<close>

record tombstone =
  tb_contact :: string
  tb_removed_at :: int
  tb_preserve_history :: bool
  tb_epoch :: int
  tb_removal_id :: string

record boundary =
  bd_contact :: string
  bd_boundary_at :: int
  bd_epoch :: int

datatype removal_state = RemPending | RemDispatched | RemWaitingForAck | RemAcked | RemDeadLetter

record removal_row =
  rm_removal_id :: string
  rm_contact :: string
  rm_epoch :: int
  rm_preserve_history :: bool
  rm_state :: removal_state
  rm_attempt_count :: nat
  rm_next_attempt_at :: int

record removal_ack_row =
  ra_removal_id :: string
  ra_contact :: string
  ra_epoch :: int
  ra_payload :: string
  ra_state :: removal_state
  ra_attempt_count :: nat
  ra_next_attempt_at :: int

record received_envelope =
  re_sender :: string
  re_message_id :: string
  re_ciphertext_hash :: "8 word list"
  re_received_at :: int
  re_receipt_state :: string

record delivery_receipt =
  dr_envelope_id :: string
  dr_message_id :: string
  dr_conversation_id :: string
  dr_original_sender :: string
  dr_received_at :: int

text \<open>The tables of the outgoing endpoint updates, the endpoints received early and the inbound peer envelopes are only
  cleared here: they are lists of the contact of each row.\<close>

record relation_store =
  rel_client :: client_store
  rel_tombstones :: "tombstone list"
  rel_boundaries :: "boundary list"
  rel_removals :: "removal_row list"
  rel_acks :: "removal_ack_row list"
  rel_mls :: "(string \<times> 8 word list) list"
  rel_receipts :: "delivery_receipt list"
  rel_received :: "received_envelope list"
  rel_endpoint_updates :: "string list"
  rel_endpoint_inbox :: "string list"
  rel_inbound_envelopes :: "string list"

type_synonym 'a relation_action = "(relation_store, runtime_error, 'a) action"

definition RELATIONSHIP_REMOVAL_MAX_ATTEMPTS :: nat where
  "RELATIONSHIP_REMOVAL_MAX_ATTEMPTS = 8"

definition on_client :: "(client_store \<Rightarrow> client_store) \<Rightarrow> relation_store \<Rightarrow> relation_store" where
  "on_client f s = s \<lparr> rel_client := f (rel_client s) \<rparr>"

text \<open>\<open>SELECT id FROM conversations WHERE contact_installation_id = ?1\<close>\<close>

definition conversations_of :: "string \<Rightarrow> client_store \<Rightarrow> string set" where
  "conversations_of contact s = cv_id ` {c \<in> set (conversations_t s). cv_contact_installation_id c = contact}"

section \<open>Statements\<close>

definition tombstone_epoch :: "string \<Rightarrow> relation_store \<Rightarrow> int option" where
  "tombstone_epoch contact s = map_option tb_epoch (lookup tb_contact contact (rel_tombstones s))"

definition current_relationship_epoch :: "string \<Rightarrow> relation_store \<Rightarrow> int" where
  "current_relationship_epoch contact s = (case lookup bd_contact contact (rel_boundaries s) of None \<Rightarrow> 0 | Some b \<Rightarrow> bd_epoch b)"

definition merge_tombstone :: "tombstone \<Rightarrow> tombstone option \<Rightarrow> tombstone" where
  "merge_tombstone new stored =
     (case stored of None \<Rightarrow> new
      | Some old \<Rightarrow> new \<lparr> tb_removed_at := max (tb_removed_at old) (tb_removed_at new),
                         tb_epoch := max (tb_epoch old) (tb_epoch new),
                         tb_removal_id := (if tb_epoch old \<le> tb_epoch new then tb_removal_id new else tb_removal_id old) \<rparr>)"

definition upsert_tombstone :: "tombstone \<Rightarrow> relation_store \<Rightarrow> relation_store" where
  "upsert_tombstone new s = s \<lparr> rel_tombstones :=
     upsert tb_contact (merge_tombstone new (lookup tb_contact (tb_contact new) (rel_tombstones s))) (rel_tombstones s) \<rparr>"

definition enqueue_removal :: "string \<Rightarrow> string \<Rightarrow> int \<Rightarrow> bool \<Rightarrow> relation_store \<Rightarrow> relation_store" where
  "enqueue_removal removal_id contact epoch preserve s =
     (if removal_id \<in> rm_removal_id ` set (rel_removals s) then s
      else s \<lparr> rel_removals := rel_removals s @
        [\<lparr> rm_removal_id = removal_id, rm_contact = contact, rm_epoch = epoch, rm_preserve_history = preserve,
           rm_state = RemPending, rm_attempt_count = 0, rm_next_attempt_at = 0 \<rparr>] \<rparr>)"

definition block_contact :: "string \<Rightarrow> client_store \<Rightarrow> client_store" where
  "block_contact contact s = s \<lparr> contacts_t :=
     map (\<lambda>r. if co_installation_id r = contact then r \<lparr> co_blocked := True \<rparr> else r) (contacts_t s) \<rparr>"

definition set_conversation_offline :: "string \<Rightarrow> client_store \<Rightarrow> client_store" where
  "set_conversation_offline contact s = s \<lparr> conversations_t :=
     map (\<lambda>c. if cv_contact_installation_id c = contact then c \<lparr> cv_status := ConvOffline \<rparr> else c) (conversations_t s) \<rparr>"

definition fail_pending_message :: "chat_message \<Rightarrow> chat_message" where
  "fail_pending_message m = m \<lparr> m_state := Failed, m_next_attempt_at := 0, m_ack_deadline := None,
     m_last_transport_error := Some ''relationship removed'' \<rparr>"

definition fail_pending_messages :: "string \<Rightarrow> client_store \<Rightarrow> client_store" where
  "fail_pending_messages contact s = s \<lparr> messages_t :=
     map (\<lambda>r. let m = mr_message r in
       if m_conversation_id m \<in> conversations_of contact s \<and> m_outgoing m \<and> m_state m \<in> {Queued, Sending}
       then r \<lparr> mr_message := fail_pending_message m \<rparr> else r) (messages_t s) \<rparr>"

definition delete_outbound_deliveries :: "string \<Rightarrow> client_store \<Rightarrow> client_store" where
  "delete_outbound_deliveries contact s = s \<lparr> outbound_t := filter (\<lambda>r. ob_contact_installation_id r \<noteq> contact) (outbound_t s) \<rparr>"

definition delete_delivery_receipts :: "string \<Rightarrow> relation_store \<Rightarrow> relation_store" where
  "delete_delivery_receipts contact s = s \<lparr> rel_receipts :=
     filter (\<lambda>r. dr_conversation_id r \<notin> conversations_of contact (rel_client s)) (rel_receipts s) \<rparr>"

text \<open>The deletion cascades to the outbound deliveries of the messages.\<close>

definition delete_history :: "string \<Rightarrow> client_store \<Rightarrow> client_store" where
  "delete_history contact s =
     (let gone = row_message_id ` {r \<in> set (messages_t s). m_conversation_id (mr_message r) \<in> conversations_of contact s}
      in s \<lparr> messages_t := filter (\<lambda>r. m_conversation_id (mr_message r) \<notin> conversations_of contact s) (messages_t s),
             outbound_t := filter (\<lambda>r. ob_message_id r \<notin> gone) (outbound_t s) \<rparr>)"

definition delete_mls :: "string \<Rightarrow> relation_store \<Rightarrow> relation_store" where
  "delete_mls contact s = s \<lparr> rel_mls := filter (\<lambda>r. fst r \<notin> conversations_of contact (rel_client s)) (rel_mls s) \<rparr>"

definition delete_peer_state :: "string \<Rightarrow> relation_store \<Rightarrow> relation_store" where
  "delete_peer_state contact s =
     on_client (\<lambda>c. c \<lparr> endpoints_t := filter (\<lambda>e. ep_contact_installation_id e \<noteq> contact) (endpoints_t c) \<rparr>)
       (s \<lparr> rel_endpoint_updates := filter (\<lambda>c. c \<noteq> contact) (rel_endpoint_updates s),
            rel_endpoint_inbox := filter (\<lambda>c. c \<noteq> contact) (rel_endpoint_inbox s),
            rel_inbound_envelopes := filter (\<lambda>c. c \<noteq> contact) (rel_inbound_envelopes s),
            rel_received := filter (\<lambda>r. re_sender r \<noteq> contact) (rel_received s) \<rparr>)"

section \<open>Transitions\<close>

definition remove_relationship_with_id :: "string \<Rightarrow> int \<Rightarrow> bool \<Rightarrow> string \<Rightarrow> int \<Rightarrow> unit relation_action" where
  "remove_relationship_with_id contact removed_at preserve removal_id epoch =
     (if trim contact = [] then throw (InvalidParams ''contact installation id must not be empty'')
      else seq (ask (tombstone_epoch contact)) (\<lambda>current.
        if (case current of None \<Rightarrow> False | Some c \<Rightarrow> epoch < c) then return ()
        else seq (change (upsert_tombstone \<lparr> tb_contact = contact, tb_removed_at = removed_at,
                    tb_preserve_history = preserve, tb_epoch = epoch, tb_removal_id = removal_id \<rparr>)) (\<lambda>_.
             seq (change (enqueue_removal removal_id contact epoch preserve)) (\<lambda>_.
             seq (change (on_client (block_contact contact))) (\<lambda>_.
             seq (change (on_client (set_conversation_offline contact))) (\<lambda>_.
             seq (change (on_client (fail_pending_messages contact))) (\<lambda>_.
             seq (change (on_client (delete_outbound_deliveries contact))) (\<lambda>_.
             seq (change (delete_delivery_receipts contact)) (\<lambda>_.
             seq (if preserve then return () else change (on_client (delete_history contact))) (\<lambda>_.
             seq (change (delete_mls contact)) (\<lambda>_.
             change (delete_peer_state contact))))))))))))"

definition apply_remote_relationship_removal :: "string \<Rightarrow> int \<Rightarrow> string \<Rightarrow> int \<Rightarrow> unit relation_action" where
  "apply_remote_relationship_removal contact removed_at removal_id epoch =
     (if trim contact = [] \<or> trim removal_id = []
      then throw (InvalidParams ''remote relationship removal identifiers must not be empty'')
      else seq (ask (tombstone_epoch contact)) (\<lambda>current.
        if (case current of None \<Rightarrow> False | Some c \<Rightarrow> epoch < c) then return ()
        else seq (change (upsert_tombstone \<lparr> tb_contact = contact, tb_removed_at = removed_at,
                    tb_preserve_history = True, tb_epoch = epoch, tb_removal_id = removal_id \<rparr>)) (\<lambda>_.
             seq (change (on_client (block_contact contact))) (\<lambda>_.
             seq (change (on_client (set_conversation_offline contact))) (\<lambda>_.
             seq (change (on_client (fail_pending_messages contact))) (\<lambda>_.
             seq (change (on_client (delete_outbound_deliveries contact))) (\<lambda>_.
             change (delete_delivery_receipts contact))))))))"

definition begin_verified_relationship :: "string \<Rightarrow> int \<Rightarrow> unit relation_action" where
  "begin_verified_relationship contact boundary_at =
     seq (ask (\<lambda>s. i64_add (max (current_relationship_epoch contact s)
                   (case tombstone_epoch contact s of None \<Rightarrow> 0 | Some e \<Rightarrow> e)) 1)) (\<lambda>next_epoch.
     seq (change (\<lambda>s. s \<lparr> rel_tombstones := delete_key tb_contact contact (rel_tombstones s) \<rparr>)) (\<lambda>_.
     change (\<lambda>s. s \<lparr> rel_boundaries := upsert bd_contact
       \<lparr> bd_contact = contact, bd_boundary_at = boundary_at,
         bd_epoch = (case lookup bd_contact contact (rel_boundaries s) of
                       None \<Rightarrow> next_epoch | Some b \<Rightarrow> max (bd_epoch b) next_epoch) \<rparr> (rel_boundaries s) \<rparr>)))"

datatype relationship_transition =
  BeginVerified string int
| RemoveRelationship string int bool string int
| ApplyRemoteRemoval string int string int

fun apply_relationship_transition :: "relationship_transition \<Rightarrow> unit relation_action" where
  "apply_relationship_transition (BeginVerified contact boundary_at) = begin_verified_relationship contact boundary_at"
| "apply_relationship_transition (RemoveRelationship contact removed_at preserve removal_id epoch) =
     remove_relationship_with_id contact removed_at preserve removal_id epoch"
| "apply_relationship_transition (ApplyRemoteRemoval contact removed_at removal_id epoch) =
     apply_remote_relationship_removal contact removed_at removal_id epoch"

text \<open>A tombstone of the conversation's contact suppresses the snapshot.\<close>

definition tombstoned_conversation :: "string \<Rightarrow> relation_store \<Rightarrow> bool" where
  "tombstoned_conversation conversation_id s \<longleftrightarrow>
     list_ex (\<lambda>c. cv_id c = conversation_id \<and> tombstone_epoch (cv_contact_installation_id c) s \<noteq> None)
       (conversations_t (rel_client s))"

definition put_mls_snapshot :: "string \<Rightarrow> 8 word list \<Rightarrow> unit relation_action" where
  "put_mls_snapshot conversation_id snapshot =
     seq (ask (tombstoned_conversation conversation_id)) (\<lambda>removed.
     if removed then return ()
     else seq (ask (\<lambda>s. conversation_by_id conversation_id (rel_client s))) (\<lambda>conversation.
       if conversation = None then throw (Storage ''FOREIGN KEY constraint failed'')
       else change (\<lambda>s. s \<lparr> rel_mls := upsert fst (conversation_id, snapshot) (rel_mls s) \<rparr>)))"

definition put_relationship_removal_ack :: "string \<Rightarrow> string \<Rightarrow> int \<Rightarrow> string \<Rightarrow> unit relation_action" where
  "put_relationship_removal_ack removal_id contact epoch payload =
     change (\<lambda>s. if removal_id \<in> ra_removal_id ` set (rel_acks s) then s
       else s \<lparr> rel_acks := rel_acks s @ [\<lparr> ra_removal_id = removal_id, ra_contact = contact, ra_epoch = epoch,
              ra_payload = payload, ra_state = RemPending, ra_attempt_count = 0, ra_next_attempt_at = 0 \<rparr>] \<rparr>)"

section \<open>The outboxes\<close>

record removal_notice =
  rn_removal_id :: string
  rn_contact :: string
  rn_removed_at :: int
  rn_epoch :: int
  rn_preserve_history :: bool
  rn_attempt_count :: nat

definition due_relationship_removals :: "int \<Rightarrow> relation_store \<Rightarrow> removal_notice list" where
  "due_relationship_removals now s =
     List.map_filter (\<lambda>r. case lookup tb_contact (rm_contact r) (rel_tombstones s) of
         None \<Rightarrow> None
       | Some t \<Rightarrow> if tb_removal_id t = rm_removal_id r \<and>
             rm_state r \<in> {RemPending, RemDispatched, RemWaitingForAck} \<and> rm_next_attempt_at r \<le> now
           then Some \<lparr> rn_removal_id = rm_removal_id r, rn_contact = rm_contact r, rn_removed_at = tb_removed_at t,
                      rn_epoch = rm_epoch r, rn_preserve_history = rm_preserve_history r,
                      rn_attempt_count = rm_attempt_count r \<rparr>
           else None)
       (sort_key rm_next_attempt_at (sort_key rm_removal_id (rel_removals s)))"

definition mark_relationship_removal_dispatched :: "string \<Rightarrow> int \<Rightarrow> relation_store \<Rightarrow> relation_store" where
  "mark_relationship_removal_dispatched removal_id next_attempt_at s = s \<lparr> rel_removals :=
     map (\<lambda>r. if rm_removal_id r = removal_id \<and> rm_state r \<in> {RemPending, RemDispatched, RemWaitingForAck}
       then r \<lparr> rm_state := (if RELATIONSHIP_REMOVAL_MAX_ATTEMPTS \<le> rm_attempt_count r + 1 then RemDeadLetter else RemWaitingForAck),
                rm_attempt_count := rm_attempt_count r + 1, rm_next_attempt_at := next_attempt_at \<rparr>
       else r) (rel_removals s) \<rparr>"

definition complete_relationship_removal_ack :: "string \<Rightarrow> relation_store \<Rightarrow> relation_store" where
  "complete_relationship_removal_ack removal_id s = s \<lparr> rel_removals :=
     map (\<lambda>r. if rm_removal_id r = removal_id then r \<lparr> rm_state := RemAcked \<rparr> else r) (rel_removals s) \<rparr>"

definition due_relationship_removal_acks :: "int \<Rightarrow> relation_store \<Rightarrow> removal_ack_row list" where
  "due_relationship_removal_acks now s =
     filter (\<lambda>r. ra_state r \<in> {RemPending, RemDispatched} \<and> ra_next_attempt_at r \<le> now)
       (sort_key ra_next_attempt_at (sort_key ra_removal_id (rel_acks s)))"

definition mark_relationship_removal_ack_dispatched :: "string \<Rightarrow> int \<Rightarrow> relation_store \<Rightarrow> relation_store" where
  "mark_relationship_removal_ack_dispatched removal_id next_attempt_at s = s \<lparr> rel_acks :=
     map (\<lambda>r. if ra_removal_id r = removal_id \<and> ra_state r \<in> {RemPending, RemDispatched}
       then r \<lparr> ra_state := (if RELATIONSHIP_REMOVAL_MAX_ATTEMPTS \<le> ra_attempt_count r + 1 then RemDeadLetter else RemDispatched),
                ra_attempt_count := ra_attempt_count r + 1, ra_next_attempt_at := next_attempt_at \<rparr>
       else r) (rel_acks s) \<rparr>"

text \<open>The remaining statements of the outboxes.\<close>

definition complete_relationship_removal_ack_delivery :: "string \<Rightarrow> relation_store \<Rightarrow> relation_store" where
  "complete_relationship_removal_ack_delivery removal_id s = s \<lparr> rel_acks :=
     map (\<lambda>r. if ra_removal_id r = removal_id \<and> ra_state r \<noteq> RemAcked then r \<lparr> ra_state := RemAcked \<rparr> else r) (rel_acks s) \<rparr>"

definition retry_relationship_removal_dead_letter :: "string \<Rightarrow> relation_store \<Rightarrow> relation_store" where
  "retry_relationship_removal_dead_letter removal_id s = s \<lparr> rel_removals :=
     map (\<lambda>r. if rm_removal_id r = removal_id \<and> rm_state r = RemDeadLetter
       then r \<lparr> rm_state := RemPending, rm_next_attempt_at := 0 \<rparr> else r) (rel_removals s) \<rparr>"

definition retry_relationship_removal_ack_dead_letter :: "string \<Rightarrow> relation_store \<Rightarrow> relation_store" where
  "retry_relationship_removal_ack_dead_letter removal_id s = s \<lparr> rel_acks :=
     map (\<lambda>r. if ra_removal_id r = removal_id \<and> ra_state r = RemDeadLetter
       then r \<lparr> ra_state := RemPending, ra_next_attempt_at := 0 \<rparr> else r) (rel_acks s) \<rparr>"

section \<open>The removal feature\<close>

definition removal_sections :: change_sections where
  "removal_sections = sections_union (sections_union (sections_union (sections_union OPERATIONS RELATIONSHIPS) CONTACTS)
     CONVERSATIONS) MESSAGES"

definition validate_removal_operation :: "durable_operation \<Rightarrow> string \<Rightarrow> string \<Rightarrow> unit runtime_result" where
  "validate_removal_operation op installation_id descriptor =
     (if op_type op \<noteq> OpRelationshipRemoval \<or> op_entity_id op \<noteq> installation_id
      then Err (Conflict ''operation id is already bound to another entity'')
      else case op_command_descriptor op of
        Some existing \<Rightarrow> if existing \<noteq> descriptor
          then Err (Conflict ''operation id is already bound to a different command payload'') else Ok ()
      | None \<Rightarrow> Ok ())"

definition put_removal_operation :: "durable_operation \<Rightarrow> unit relation_action" where
  "put_removal_operation op = change (on_client (\<lambda>c. c \<lparr> operations_t := put_operation op (operations_t c) \<rparr>))"

definition removal_attempt ::
  "durable_operation \<Rightarrow> string \<Rightarrow> string \<Rightarrow> bool \<Rightarrow> string \<Rightarrow> int \<Rightarrow> durable_operation feature_result relation_action" where
  "removal_attempt op installation_id descriptor preserve removal_id removed_at =
     (let op = begin_attempt removed_at
            (op \<lparr> op_type := OpRelationshipRemoval, op_command_descriptor := Some descriptor \<rparr>) in
      seq (put_removal_operation op) (\<lambda>_.
      seq (ask (\<lambda>s. i64_add (current_relationship_epoch installation_id s) 1)) (\<lambda>epoch.
      seq (apply_relationship_transition (RemoveRelationship installation_id removed_at preserve removal_id epoch)) (\<lambda>_.
      let op = complete_operation removed_at op in
      seq (put_removal_operation op) (\<lambda>_.
      return (changed op \<lparr> sections = removal_sections,
        entities = no_entities \<lparr> operation_ids := {op_id op}, contact_ids := {installation_id} \<rparr> \<rparr>))))))"

definition request_removal ::
  "string \<Rightarrow> string \<Rightarrow> string \<Rightarrow> bool \<Rightarrow> string \<Rightarrow> int \<Rightarrow> durable_operation feature_result relation_action" where
  "request_removal operation_id descriptor installation_id preserve removal_id removed_at =
     (if trim installation_id = [] then throw (InvalidParams ''installation id must not be empty'')
      else if trim removal_id = [] then throw (InvalidParams ''removal id must not be empty'')
      else if trim descriptor = [] then throw (InvalidParams ''relationship removal descriptor must not be empty'')
      else
        seq (lift (parse_id ''OperationId'' operation_id)) (\<lambda>oid.
        seq (ask (\<lambda>s. operation_by_id oid (operations_t (rel_client s)))) (\<lambda>found.
        let op = (case found of Some op \<Rightarrow> op
                  | None \<Rightarrow> with_command_descriptor descriptor
                              (pending_operation oid OpRelationshipRemoval installation_id removed_at)) in
        seq (lift (validate_removal_operation op installation_id descriptor)) (\<lambda>_.
        if op_state op = OpCompleted then return (unchanged op)
        else if op_state op \<in> {OpCancelled, OpFailedPermanent}
        then throw (Conflict ''relationship removal operation is already terminal'')
        else
          removal_attempt op installation_id descriptor preserve removal_id removed_at))))"

section \<open>What a removal leaves\<close>

text \<open>The relationship with a contact is cut: the contact is blocked, its conversations are offline, nothing is left to be
  sent to it, and a tombstone marks it.\<close>

definition relationship_cut :: "string \<Rightarrow> relation_store \<Rightarrow> bool" where
  "relationship_cut contact s \<longleftrightarrow>
     (\<forall>r \<in> set (contacts_t (rel_client s)). co_installation_id r = contact \<longrightarrow> co_blocked r) \<and>
     (\<forall>c \<in> set (conversations_t (rel_client s)). cv_contact_installation_id c = contact \<longrightarrow> cv_status c = ConvOffline) \<and>
     (\<forall>r \<in> set (messages_t (rel_client s)). m_conversation_id (mr_message r) \<in> conversations_of contact (rel_client s) \<and>
        m_outgoing (mr_message r) \<longrightarrow> m_state (mr_message r) \<notin> {Queued, Sending}) \<and>
     (\<forall>r \<in> set (outbound_t (rel_client s)). ob_contact_installation_id r \<noteq> contact) \<and>
     (\<forall>r \<in> set (rel_receipts s). dr_conversation_id r \<notin> conversations_of contact (rel_client s)) \<and>
     tombstone_epoch contact s \<noteq> None"

text \<open>What the device still holds to reach the contact: group state and an endpoint.\<close>

definition peer_state_erased :: "string \<Rightarrow> relation_store \<Rightarrow> bool" where
  "peer_state_erased contact s \<longleftrightarrow>
     (\<forall>r \<in> set (rel_mls s). fst r \<notin> conversations_of contact (rel_client s)) \<and>
     (\<forall>e \<in> set (endpoints_t (rel_client s)). ep_contact_installation_id e \<noteq> contact) \<and>
     contact \<notin> set (rel_endpoint_updates s) \<and> contact \<notin> set (rel_endpoint_inbox s) \<and>
     contact \<notin> set (rel_inbound_envelopes s) \<and> contact \<notin> re_sender ` set (rel_received s)"

definition bodies_of :: "string \<Rightarrow> relation_store \<Rightarrow> (string \<times> string) list" where
  "bodies_of contact s = map (\<lambda>r. (row_message_id r, m_body (mr_message r)))
     (filter (\<lambda>r. m_conversation_id (mr_message r) \<in> conversations_of contact (rel_client s)) (messages_t (rel_client s)))"

text \<open>What the store holds about everyone else.\<close>

definition others :: "string \<Rightarrow> relation_store \<Rightarrow> contact_row list \<times> conversation_summary list \<times> chat_message list \<times> tombstone list \<times> boundary list" where
  "others contact s =
     (filter (\<lambda>r. co_installation_id r \<noteq> contact) (contacts_t (rel_client s)),
      filter (\<lambda>c. cv_contact_installation_id c \<noteq> contact) (conversations_t (rel_client s)),
      map mr_message (filter (\<lambda>r. m_conversation_id (mr_message r) \<notin> conversations_of contact (rel_client s)) (messages_t (rel_client s))),
      filter (\<lambda>t. tb_contact t \<noteq> contact) (rel_tombstones s), rel_boundaries s)"

lemma conversations_of_offline [simp]:
  "conversations_of contact (set_conversation_offline c s) = conversations_of contact s"
proof -
  let ?g = "\<lambda>v. if cv_contact_installation_id v = c then v \<lparr> cv_status := ConvOffline \<rparr> else v"
  have 1: "{v \<in> ?g ` S. cv_contact_installation_id v = contact} = ?g ` {v \<in> S. cv_contact_installation_id v = contact}" for S
    by (auto split: if_splits)
  have 2: "cv_id ` ?g ` S = cv_id ` S" for S by (subst image_image) (rule image_cong, auto)
  have 3: "set (conversations_t (set_conversation_offline c s)) = ?g ` set (conversations_t s)"
    by (simp add: set_conversation_offline_def)
  show ?thesis unfolding conversations_of_def 3 1 2 ..
qed

lemma conversations_of_simps [simp]:
  "conversations_of contact (block_contact c s) = conversations_of contact s"
  "conversations_of contact (fail_pending_messages c s) = conversations_of contact s"
  "conversations_of contact (delete_outbound_deliveries c s) = conversations_of contact s"
  "conversations_of contact (delete_history c s) = conversations_of contact s"
  "conversations_of contact (s \<lparr> endpoints_t := e \<rparr>) = conversations_of contact s"
  by (simp_all add: conversations_of_def block_contact_def fail_pending_messages_def delete_outbound_deliveries_def
        delete_history_def Let_def)

lemma merge_tombstone_contact [simp]: "tb_contact (merge_tombstone new stored) = tb_contact new"
  by (simp add: merge_tombstone_def split: option.splits)

definition removal_writes :: "string \<Rightarrow> bool \<Rightarrow> client_store \<Rightarrow> client_store" where
  "removal_writes contact preserve c =
     (let c1 = delete_outbound_deliveries contact (fail_pending_messages contact (set_conversation_offline contact
                 (block_contact contact c)))
      in if preserve then c1 else delete_history contact c1)"

lemma removal_writes_simps [simp]:
  "conversations_of contact (removal_writes c preserve s) = conversations_of contact s"
  by (simp add: removal_writes_def Let_def)

lemma messages_untouched [simp]:
  "messages_t (set_conversation_offline contact c) = messages_t c" "messages_t (block_contact contact c) = messages_t c"
  by (simp_all add: set_conversation_offline_def block_contact_def)

lemma fail_pending_offline:
  "messages_t (fail_pending_messages contact (set_conversation_offline contact (block_contact contact c))) =
   messages_t (fail_pending_messages contact c)"
  by (simp add: fail_pending_messages_def)

lemma removal_writes_fields:
  "contacts_t (removal_writes contact preserve c) = contacts_t (block_contact contact c)"
  "conversations_t (removal_writes contact preserve c) = conversations_t (set_conversation_offline contact c)"
  "messages_t (removal_writes contact preserve c) =
     (if preserve then messages_t (fail_pending_messages contact c)
      else filter (\<lambda>r. m_conversation_id (mr_message r) \<notin> conversations_of contact c) (messages_t (fail_pending_messages contact c)))"
  "set (outbound_t (removal_writes contact preserve c)) \<subseteq> set (outbound_t (delete_outbound_deliveries contact c))"
proof -
  let ?c = "set_conversation_offline contact (block_contact contact c)"
  have m: "messages_t (removal_writes contact preserve c) =
     (if preserve then messages_t (fail_pending_messages contact ?c)
      else filter (\<lambda>r. m_conversation_id (mr_message r) \<notin> conversations_of contact c) (messages_t (fail_pending_messages contact ?c)))"
    by (simp add: removal_writes_def Let_def delete_history_def) (simp add: delete_outbound_deliveries_def)
  show "messages_t (removal_writes contact preserve c) =
     (if preserve then messages_t (fail_pending_messages contact c)
      else filter (\<lambda>r. m_conversation_id (mr_message r) \<notin> conversations_of contact c) (messages_t (fail_pending_messages contact c)))"
    unfolding m fail_pending_offline ..
  show "contacts_t (removal_writes contact preserve c) = contacts_t (block_contact contact c)"
    by (simp add: removal_writes_def Let_def delete_history_def)
       (simp add: delete_outbound_deliveries_def fail_pending_messages_def set_conversation_offline_def)
  show "conversations_t (removal_writes contact preserve c) = conversations_t (set_conversation_offline contact c)"
    by (simp add: removal_writes_def Let_def delete_history_def)
       (simp add: delete_outbound_deliveries_def fail_pending_messages_def set_conversation_offline_def block_contact_def)
  have out: "outbound_t (delete_outbound_deliveries contact (fail_pending_messages contact ?c)) =
      outbound_t (delete_outbound_deliveries contact c)"
    by (simp add: delete_outbound_deliveries_def) (simp add: fail_pending_messages_def set_conversation_offline_def block_contact_def)
  show "set (outbound_t (removal_writes contact preserve c)) \<subseteq> set (outbound_t (delete_outbound_deliveries contact c))"
    using out by (simp add: removal_writes_def Let_def delete_history_def Collect_conj_eq)
qed

lemma failed_messages:
  assumes "r \<in> set (messages_t (fail_pending_messages contact c))"
    and "m_conversation_id (mr_message r) \<in> conversations_of contact c" "m_outgoing (mr_message r)"
  shows "m_state (mr_message r) \<noteq> Queued \<and> m_state (mr_message r) \<noteq> Sending"
proof -
  obtain x where x: "r = (if m_conversation_id (mr_message x) \<in> conversations_of contact c \<and> m_outgoing (mr_message x) \<and>
      m_state (mr_message x) \<in> {Queued, Sending} then x \<lparr> mr_message := fail_pending_message (mr_message x) \<rparr> else x)"
    using assms(1) by (auto simp: fail_pending_messages_def Let_def simp del: if_image_distrib)
  show ?thesis using assms(2,3) unfolding x by (simp add: fail_pending_message_def split: if_splits)
qed

lemma removal_writes_cut:
  shows "\<forall>r \<in> set (contacts_t (removal_writes contact preserve c)). co_installation_id r = contact \<longrightarrow> co_blocked r"
    "\<forall>v \<in> set (conversations_t (removal_writes contact preserve c)). cv_contact_installation_id v = contact \<longrightarrow> cv_status v = ConvOffline"
    "\<forall>r \<in> set (messages_t (removal_writes contact preserve c)). m_conversation_id (mr_message r) \<in> conversations_of contact c \<and>
       m_outgoing (mr_message r) \<longrightarrow> m_state (mr_message r) \<notin> {Queued, Sending}"
    "\<forall>r \<in> set (outbound_t (removal_writes contact preserve c)). ob_contact_installation_id r \<noteq> contact"
proof -
  show "\<forall>r \<in> set (contacts_t (removal_writes contact preserve c)). co_installation_id r = contact \<longrightarrow> co_blocked r"
    unfolding removal_writes_fields by (simp add: block_contact_def del: if_image_distrib)
  show "\<forall>v \<in> set (conversations_t (removal_writes contact preserve c)). cv_contact_installation_id v = contact \<longrightarrow> cv_status v = ConvOffline"
    unfolding removal_writes_fields by (simp add: set_conversation_offline_def del: if_image_distrib)
  show "\<forall>r \<in> set (messages_t (removal_writes contact preserve c)). m_conversation_id (mr_message r) \<in> conversations_of contact c \<and>
       m_outgoing (mr_message r) \<longrightarrow> m_state (mr_message r) \<notin> {Queued, Sending}"
    unfolding removal_writes_fields using failed_messages [of _ contact c] by (simp split: if_splits)
  show "\<forall>r \<in> set (outbound_t (removal_writes contact preserve c)). ob_contact_installation_id r \<noteq> contact"
    using removal_writes_fields(4) [of contact preserve c] by (auto simp: delete_outbound_deliveries_def)
qed

definition is_stale :: "string \<Rightarrow> int \<Rightarrow> relation_store \<Rightarrow> bool" where
  "is_stale contact epoch s \<longleftrightarrow> (case tombstone_epoch contact s of None \<Rightarrow> False | Some c \<Rightarrow> epoch < c)"

lemma stale_removal_ignored:
  assumes "is_stale contact epoch s" "trim contact \<noteq> []"
  shows "remove_relationship_with_id contact removed_at preserve removal_id epoch s = (Ok (), s)"
    "trim removal_id \<noteq> [] \<Longrightarrow> apply_remote_relationship_removal contact removed_at removal_id epoch s = (Ok (), s)"
  using assms by (simp_all add: is_stale_def remove_relationship_with_id_def apply_remote_relationship_removal_def)

definition new_tombstone :: "string \<Rightarrow> int \<Rightarrow> bool \<Rightarrow> string \<Rightarrow> int \<Rightarrow> tombstone" where
  "new_tombstone contact removed_at preserve removal_id epoch = \<lparr> tb_contact = contact, tb_removed_at = removed_at,
     tb_preserve_history = preserve, tb_epoch = epoch, tb_removal_id = removal_id \<rparr>"

lemma local_removal_run:
  assumes "trim contact \<noteq> []" "\<not> is_stale contact epoch s"
  shows "remove_relationship_with_id contact removed_at preserve removal_id epoch s =
    (Ok (), delete_peer_state contact (delete_mls contact ((delete_delivery_receipts contact
       (enqueue_removal removal_id contact epoch preserve (upsert_tombstone (new_tombstone contact removed_at preserve removal_id epoch) s)))
       \<lparr> rel_client := removal_writes contact preserve (rel_client s) \<rparr>)))"
  using assms unfolding remove_relationship_with_id_def is_stale_def new_tombstone_def
  by (cases preserve; cases "removal_id \<in> rm_removal_id ` set (rel_removals s)")
     (simp_all add: on_client_def removal_writes_def Let_def delete_delivery_receipts_def enqueue_removal_def upsert_tombstone_def
        delete_mls_def delete_peer_state_def relation_store.equality)

lemma remote_removal_run:
  assumes "trim contact \<noteq> []" "trim removal_id \<noteq> []" "\<not> is_stale contact epoch s"
  shows "apply_remote_relationship_removal contact removed_at removal_id epoch s =
    (Ok (), (delete_delivery_receipts contact (upsert_tombstone (new_tombstone contact removed_at True removal_id epoch) s))
       \<lparr> rel_client := removal_writes contact True (rel_client s) \<rparr>)"
  using assms unfolding apply_remote_relationship_removal_def is_stale_def new_tombstone_def
  by (simp add: on_client_def removal_writes_def Let_def delete_delivery_receipts_def upsert_tombstone_def relation_store.equality)

lemma tombstoned_after [simp]: "tombstone_epoch (tb_contact t) (upsert_tombstone t s) =
    Some (tb_epoch (merge_tombstone t (lookup tb_contact (tb_contact t) (rel_tombstones s))))"
  by (simp add: tombstone_epoch_def upsert_tombstone_def table_simps)

lemma cut_by_writes:
  assumes "rel_client s' = removal_writes contact preserve (rel_client s) \<lparr> endpoints_t := e \<rparr>"
    and "rel_receipts s' = rel_receipts (delete_delivery_receipts contact s)" "tombstone_epoch contact s' \<noteq> None"
  shows "relationship_cut contact s'"
  unfolding relationship_cut_def assms(1,2)
  using removal_writes_cut [of contact preserve "rel_client s"] assms(3) by (simp add: delete_delivery_receipts_def)

lemma map_filter_map:
  "(\<And>x. P (g x) = P x) \<Longrightarrow> (\<And>x. P x \<Longrightarrow> f (g x) = f x) \<Longrightarrow> map f (filter P (map g xs)) = map f (filter P xs)"
  by (induction xs) auto

lemma filter_untouched: "(\<And>x. P (g x) = P x) \<Longrightarrow> (\<And>x. P x \<Longrightarrow> g x = x) \<Longrightarrow> filter P (map g xs) = filter P xs"
  using map_filter_map [of P g id xs] by simp

lemma bodies_after:
  assumes "rel_client s' = removal_writes contact preserve (rel_client s) \<lparr> endpoints_t := e \<rparr>"
  shows "bodies_of contact s' = (if preserve then bodies_of contact s else [])"
proof -
  have "map (\<lambda>r. (row_message_id r, m_body (mr_message r)))
      (filter (\<lambda>r. m_conversation_id (mr_message r) \<in> conversations_of contact (rel_client s)) (messages_t (fail_pending_messages contact (rel_client s)))) =
    bodies_of contact s"
    unfolding bodies_of_def fail_pending_messages_def
    by (simp del: map_map) (rule map_filter_map, auto simp: Let_def fail_pending_message_def)
  then show ?thesis unfolding bodies_of_def assms by (simp add: removal_writes_fields filter_empty_conv)
qed

lemma others_after:
  assumes "rel_client s' = removal_writes contact preserve (rel_client s) \<lparr> endpoints_t := e \<rparr>"
    and "rel_tombstones s' = upsert tb_contact t (rel_tombstones s)" "tb_contact t = contact" "rel_boundaries s' = rel_boundaries s"
  shows "others contact s' = others contact s"
proof -
  have "filter (\<lambda>r. co_installation_id r \<noteq> contact) (contacts_t (block_contact contact (rel_client s))) =
      filter (\<lambda>r. co_installation_id r \<noteq> contact) (contacts_t (rel_client s))"
    unfolding block_contact_def by simp (rule filter_untouched, auto)
  moreover have "filter (\<lambda>v. cv_contact_installation_id v \<noteq> contact) (conversations_t (set_conversation_offline contact (rel_client s))) =
      filter (\<lambda>v. cv_contact_installation_id v \<noteq> contact) (conversations_t (rel_client s))"
    unfolding set_conversation_offline_def by simp (rule filter_untouched, auto)
  moreover have "filter (\<lambda>r. m_conversation_id (mr_message r) \<notin> conversations_of contact (rel_client s))
        (messages_t (fail_pending_messages contact (rel_client s))) =
      filter (\<lambda>r. m_conversation_id (mr_message r) \<notin> conversations_of contact (rel_client s)) (messages_t (rel_client s))"
    unfolding fail_pending_messages_def by simp (rule filter_untouched, auto simp: Let_def fail_pending_message_def)
  moreover have "filter (\<lambda>t. tb_contact t \<noteq> contact) (rel_tombstones s') = filter (\<lambda>t. tb_contact t \<noteq> contact) (rel_tombstones s)"
    unfolding assms(2) upsert_def using assms(3) by (simp, intro impI) (rule filter_untouched, auto)
  ultimately show ?thesis using assms by (simp add: others_def removal_writes_fields)
qed

lemma local_removal_fields:
  assumes "trim contact \<noteq> []" "\<not> is_stale contact epoch s"
    and s': "s' = snd (remove_relationship_with_id contact removed_at preserve removal_id epoch s)"
  shows "\<exists>e t. rel_client s' = removal_writes contact preserve (rel_client s) \<lparr> endpoints_t := e \<rparr> \<and>
      rel_receipts s' = rel_receipts (delete_delivery_receipts contact s) \<and>
      rel_tombstones s' = upsert tb_contact t (rel_tombstones s) \<and> tb_contact t = contact \<and>
      rel_boundaries s' = rel_boundaries s"
    and "peer_state_erased contact s'"
proof -
  note run = local_removal_run [OF assms(1,2), of removed_at preserve removal_id]
  show "\<exists>e t. rel_client s' = removal_writes contact preserve (rel_client s) \<lparr> endpoints_t := e \<rparr> \<and>
      rel_receipts s' = rel_receipts (delete_delivery_receipts contact s) \<and>
      rel_tombstones s' = upsert tb_contact t (rel_tombstones s) \<and> tb_contact t = contact \<and>
      rel_boundaries s' = rel_boundaries s"
    unfolding s' run
    by (intro exI [of _ "filter (\<lambda>e. ep_contact_installation_id e \<noteq> contact) (endpoints_t (removal_writes contact preserve (rel_client s)))"]
        exI [of _ "merge_tombstone (new_tombstone contact removed_at preserve removal_id epoch) (lookup tb_contact contact (rel_tombstones s))"])
       (simp add: delete_peer_state_def on_client_def delete_mls_def delete_delivery_receipts_def enqueue_removal_def
          upsert_tombstone_def new_tombstone_def)
  show "peer_state_erased contact s'"
    unfolding s' run
    by (auto simp: peer_state_erased_def delete_peer_state_def on_client_def delete_mls_def)
qed

lemma remote_removal_fields:
  assumes "trim contact \<noteq> []" "trim removal_id \<noteq> []" "\<not> is_stale contact epoch s"
    and s': "s' = snd (apply_remote_relationship_removal contact removed_at removal_id epoch s)"
  shows "\<exists>e t. rel_client s' = removal_writes contact True (rel_client s) \<lparr> endpoints_t := e \<rparr> \<and>
      rel_receipts s' = rel_receipts (delete_delivery_receipts contact s) \<and>
      rel_tombstones s' = upsert tb_contact t (rel_tombstones s) \<and> tb_contact t = contact \<and>
      rel_boundaries s' = rel_boundaries s"
  unfolding s' remote_removal_run [OF assms(1-3)]
  by (intro exI [of _ "endpoints_t (removal_writes contact True (rel_client s))"]
      exI [of _ "merge_tombstone (new_tombstone contact removed_at True removal_id epoch) (lookup tb_contact contact (rel_tombstones s))"])
     (simp add: delete_delivery_receipts_def upsert_tombstone_def new_tombstone_def)

lemma removal_fields_cut:
  assumes "rel_client s' = removal_writes contact preserve (rel_client s) \<lparr> endpoints_t := e \<rparr> \<and>
      rel_receipts s' = rel_receipts (delete_delivery_receipts contact s) \<and>
      rel_tombstones s' = upsert tb_contact t (rel_tombstones s) \<and> tb_contact t = contact \<and>
      rel_boundaries s' = rel_boundaries s"
  shows "relationship_cut contact s' \<and> bodies_of contact s' = (if preserve then bodies_of contact s else []) \<and>
    others contact s' = others contact s"
proof -
  have "tombstone_epoch contact s' \<noteq> None"
    using assms by (auto simp: tombstone_epoch_def table_simps)
  then show ?thesis using assms cut_by_writes bodies_after others_after by metis
qed


definition empty_relation_store :: relation_store where
  "empty_relation_store = \<lparr> rel_client = cl_store sample_client, rel_tombstones = [], rel_boundaries = [], rel_removals = [],
     rel_acks = [], rel_mls = [], rel_receipts = [], rel_received = [], rel_endpoint_updates = [], rel_endpoint_inbox = [],
     rel_inbound_envelopes = [] \<rparr>"


section \<open>Epochs\<close>

text \<open>The highest epoch the device knows of its relationship with a contact.\<close>

definition highest_epoch :: "string \<Rightarrow> relation_store \<Rightarrow> int" where
  "highest_epoch contact s =
     max (current_relationship_epoch contact s) (case tombstone_epoch contact s of None \<Rightarrow> 0 | Some e \<Rightarrow> e)"

lemma upsert_tombstone_epoch:
  "tombstone_epoch contact (upsert_tombstone t s) =
     (if contact = tb_contact t
      then Some (case tombstone_epoch contact s of None \<Rightarrow> tb_epoch t | Some e \<Rightarrow> max e (tb_epoch t))
      else tombstone_epoch contact s)"
  by (auto simp: tombstone_epoch_def upsert_tombstone_def table_simps merge_tombstone_def split: option.splits)

lemma tombstone_epoch_frame: "rel_tombstones s' = rel_tombstones s \<Longrightarrow> tombstone_epoch contact s' = tombstone_epoch contact s"
  by (simp add: tombstone_epoch_def)

lemma boundary_frame: "rel_boundaries s' = rel_boundaries s \<Longrightarrow> current_relationship_epoch contact s' = current_relationship_epoch contact s"
  by (simp add: current_relationship_epoch_def)

lemma removal_epochs:
  assumes "trim c \<noteq> []"
    and "s' = snd (remove_relationship_with_id c removed_at preserve removal_id epoch s) \<or>
      trim removal_id \<noteq> [] \<and> s' = snd (apply_remote_relationship_removal c removed_at removal_id epoch s)"
  shows "tombstone_epoch contact s' =
      (if contact = c then Some (case tombstone_epoch c s of None \<Rightarrow> epoch | Some e \<Rightarrow> max e epoch)
       else tombstone_epoch contact s) \<and>
    current_relationship_epoch contact s' = current_relationship_epoch contact s"
proof (cases "is_stale c epoch s")
  case True
  then have "s' = s" using stale_removal_ignored [OF True assms(1)] assms(2) by auto
  then show ?thesis using True by (auto simp: is_stale_def split: option.splits)
next
  case False
  from assms(2) show ?thesis
  proof
    assume "s' = snd (remove_relationship_with_id c removed_at preserve removal_id epoch s)"
    then have f: "rel_tombstones s' = rel_tombstones (upsert_tombstone (new_tombstone c removed_at preserve removal_id epoch) s)"
        "rel_boundaries s' = rel_boundaries s"
      using local_removal_run [OF assms(1) False]
      by (simp_all add: delete_peer_state_def on_client_def delete_mls_def delete_delivery_receipts_def enqueue_removal_def upsert_tombstone_def)
    show ?thesis unfolding tombstone_epoch_frame [OF f(1)] boundary_frame [OF f(2)] by (simp add: upsert_tombstone_epoch new_tombstone_def split: option.split)
  next
    assume "trim removal_id \<noteq> [] \<and> s' = snd (apply_remote_relationship_removal c removed_at removal_id epoch s)"
    then have f: "rel_tombstones s' = rel_tombstones (upsert_tombstone (new_tombstone c removed_at True removal_id epoch) s)"
        "rel_boundaries s' = rel_boundaries s"
      using remote_removal_run [OF assms(1) _ False]
      by (simp_all add: delete_delivery_receipts_def upsert_tombstone_def)
    show ?thesis unfolding tombstone_epoch_frame [OF f(1)] boundary_frame [OF f(2)] by (simp add: upsert_tombstone_epoch new_tombstone_def split: option.split)
  qed
qed

lemma i64_add_one_range: "0 \<le> x \<Longrightarrow> x \<le> i64_max \<Longrightarrow> x \<le> i64_add x 1 \<and> i64_add x 1 \<le> i64_max \<and> (x < i64_max \<longrightarrow> x < i64_add x 1)"
  by (auto simp: i64_add_def sat_i64_def i64_max_def i64_min_def)

definition epochs_in_range :: "string \<Rightarrow> relation_store \<Rightarrow> bool" where
  "epochs_in_range contact s \<longleftrightarrow> 0 \<le> current_relationship_epoch contact s \<and> highest_epoch contact s \<le> i64_max"

lemma epochs_nonneg: "epochs_in_range contact s \<Longrightarrow> 0 \<le> highest_epoch contact s"
  by (simp add: epochs_in_range_def highest_epoch_def le_max_iff_disj)

fun transition_epoch :: "relationship_transition \<Rightarrow> int" where
  "transition_epoch (BeginVerified _ _) = 0"
| "transition_epoch (RemoveRelationship _ _ _ _ e) = e"
| "transition_epoch (ApplyRemoteRemoval _ _ _ e) = e"

lemma begin_verified_epochs:
  assumes "s' = snd (begin_verified_relationship c boundary_at s)" "epochs_in_range c s"
  shows "tombstone_epoch contact s' = (if contact = c then None else tombstone_epoch contact s) \<and>
    current_relationship_epoch contact s' =
      (if contact = c then max (current_relationship_epoch c s) (i64_add (highest_epoch c s) 1)
       else current_relationship_epoch contact s)"
proof -
  have "0 \<le> highest_epoch c s" using assms(2) by (rule epochs_nonneg)
  then have "0 \<le> i64_add (highest_epoch c s) 1"
    using i64_add_one_range assms(2) unfolding epochs_in_range_def by fastforce
  then show ?thesis
    unfolding assms begin_verified_relationship_def
    by (auto simp: tombstone_epoch_def current_relationship_epoch_def highest_epoch_def table_simps split: option.splits)
qed

lemma transition_epochs:
  assumes "epochs_in_range contact s" "transition_epoch t \<le> i64_max" "s' = snd (apply_relationship_transition t s)"
  shows "epochs_in_range contact s' \<and> highest_epoch contact s \<le> highest_epoch contact s'"
proof (cases t)
  case (BeginVerified c boundary_at)
  show ?thesis
  proof (cases "contact = c")
    case True
    have "0 \<le> highest_epoch contact s" using assms(1) by (rule epochs_nonneg)
    note add = i64_add_one_range [OF this] assms(1) [unfolded epochs_in_range_def]
    have "tombstone_epoch contact s' = None \<and>
        current_relationship_epoch contact s' = max (current_relationship_epoch c s) (i64_add (highest_epoch c s) 1)"
      using begin_verified_epochs [of s' c boundary_at s contact] assms(1,3) True by (simp add: BeginVerified)
    moreover have "current_relationship_epoch c s \<le> highest_epoch c s" by (simp add: highest_epoch_def)
    ultimately show ?thesis using add True by (auto simp: epochs_in_range_def highest_epoch_def [of _ s'])
  next
    case False
    then show ?thesis using assms(1,3)
      by (simp add: BeginVerified begin_verified_relationship_def epochs_in_range_def highest_epoch_def tombstone_epoch_def
            current_relationship_epoch_def table_simps)
  qed
next
  case (RemoveRelationship c removed_at preserve rid e)
  show ?thesis
  proof (cases "trim c = []")
    case True
    then show ?thesis using assms by (simp add: RemoveRelationship remove_relationship_with_id_def)
  next
    case False
    then show ?thesis using removal_epochs [OF False, of s' removed_at preserve rid e s contact] assms
      by (auto simp: RemoveRelationship highest_epoch_def epochs_in_range_def split: option.splits if_splits)
  qed
next
  case (ApplyRemoteRemoval c removed_at rid e)
  show ?thesis
  proof (cases "trim c = [] \<or> trim rid = []")
    case True
    then show ?thesis using assms by (auto simp: ApplyRemoteRemoval apply_remote_relationship_removal_def)
  next
    case False
    then show ?thesis using removal_epochs [of c s' removed_at True rid e s contact] assms
      by (auto simp: ApplyRemoteRemoval highest_epoch_def epochs_in_range_def split: option.splits if_splits)
  qed
qed

text \<open>Histories of transitions, with epochs of the width of the column.\<close>

definition relationship_step :: "relation_store \<Rightarrow> relation_store \<Rightarrow> bool" where
  "relationship_step s s' \<longleftrightarrow> (\<exists>t. transition_epoch t \<le> i64_max \<and> s' = snd (apply_relationship_transition t s))"

text \<open>C22: Epochs of a relationship never go back, and pairing again starts a new one. Over any sequence of removals and
  renewals the highest known epoch of a contact never decreases; when the contact is paired again, the tombstone is
  gone and the epoch is larger than every earlier one, up to the range of the column.\<close>

theorem relationship_epochs_monotone:
  assumes "reachable (\<lambda>s. s = s0) relationship_step s" "epochs_in_range contact s0"
    and "s' = snd (begin_verified_relationship contact boundary_at s)" "highest_epoch contact s < i64_max"
  shows "highest_epoch contact s0 \<le> highest_epoch contact s \<and>
    tombstone_epoch contact s' = None \<and> highest_epoch contact s < current_relationship_epoch contact s'"
proof -
  have "epochs_in_range contact s \<and> highest_epoch contact s0 \<le> highest_epoch contact s"
    using assms(1)
  proof (induction rule: reachable.induct)
    case (reach_init s)
    then show ?case using assms(2) by simp
  next
    case (reach_step s s')
    then show ?case using transition_epochs unfolding relationship_step_def by (meson order_trans)
  qed
  moreover from this have "0 \<le> highest_epoch contact s" by (simp add: epochs_nonneg)
  ultimately show ?thesis
    using begin_verified_epochs [OF assms(3), of contact] assms(4) i64_add_one_range [of "highest_epoch contact s"] by auto
qed

theorem relationship_epochs_monotone_witness:
  "highest_epoch ''ann'' (snd (remove_relationship_with_id ''ann'' 5 True ''r1'' 7 empty_relation_store)) <
   current_relationship_epoch ''ann'' (snd (begin_verified_relationship ''ann'' 9
     (snd (remove_relationship_with_id ''ann'' 5 True ''r1'' 7 empty_relation_store))))"
proof -
  let ?s = "snd (remove_relationship_with_id ''ann'' 5 True ''r1'' 7 empty_relation_store)"
  have "relationship_step empty_relation_store ?s"
    unfolding relationship_step_def
    by (rule exI [of _ "RemoveRelationship ''ann'' 5 True ''r1'' 7"]) (simp add: i64_max_def)
  then have "reachable (\<lambda>s. s = empty_relation_store) relationship_step ?s"
    by (rule reach_step [OF reach_init [where init = "\<lambda>s. s = empty_relation_store", OF refl]])
  moreover have start: "current_relationship_epoch ''ann'' empty_relation_store = 0" "tombstone_epoch ''ann'' empty_relation_store = None"
    by (simp_all add: current_relationship_epoch_def tombstone_epoch_def empty_relation_store_def table_simps)
  moreover have "trim ''ann'' \<noteq> []" by code_simp
  from removal_epochs [OF this, of ?s 5 True "''r1''" 7 empty_relation_store "''ann''"] start
  have "tombstone_epoch ''ann'' ?s = Some 7" "current_relationship_epoch ''ann'' ?s = 0" by simp_all
  ultimately have "epochs_in_range ''ann'' empty_relation_store" "highest_epoch ''ann'' ?s < i64_max"
    and "reachable (\<lambda>s. s = empty_relation_store) relationship_step ?s"
    by (simp_all add: epochs_in_range_def highest_epoch_def i64_max_def)
  then show ?thesis using relationship_epochs_monotone [OF _ _ refl] by blast
qed

section \<open>Removal requests\<close>

lemma on_client_fields:
  "current_relationship_epoch contact (on_client f s) = current_relationship_epoch contact s"
  "rel_removals (on_client f s) = rel_removals s" "rel_client (on_client f s) = f (rel_client s)"
  by (simp_all add: on_client_def current_relationship_epoch_def)

lemma request_removal_done:
  assumes "trim installation_id \<noteq> []" "trim removal_id \<noteq> []" "trim descriptor \<noteq> []" "trim operation_id \<noteq> []"
    and "operation_by_id operation_id (operations_t (rel_client s)) = Some op"
    and "validate_removal_operation op installation_id descriptor = Ok ()" "op_state op = OpCompleted"
  shows "request_removal operation_id descriptor installation_id preserve removal_id removed_at s = (Ok (unchanged op), s)"
  using assms by (simp add: request_removal_def parse_id_def)

lemma removal_attempt_okE:
  assumes "removal_attempt op installation_id descriptor preserve removal_id removed_at s = (Ok r, s')"
    and "op_id op = operation_id" "op_type op = OpRelationshipRemoval" "op_entity_id op = installation_id"
  obtains op' where "operation_by_id operation_id (operations_t (rel_client s')) = Some op'" "fr_value r = op'"
    "op_state op' = OpCompleted" "validate_removal_operation op' installation_id descriptor = Ok ()"
  using assms unfolding removal_attempt_def Let_def
  by (elim seq_okE)
     (auto simp: put_removal_operation_def on_client_def operation_by_id_def put_operation_def table_simps changed_def
        complete_operation_def begin_attempt_def validate_removal_operation_def)

lemma request_removal_okE:
  assumes "request_removal operation_id descriptor installation_id preserve removal_id removed_at s = (Ok r, s')"
  obtains op where "trim installation_id \<noteq> []" "trim descriptor \<noteq> []" "trim operation_id \<noteq> []"
    "operation_by_id operation_id (operations_t (rel_client s')) = Some op" "fr_value r = op" "op_state op = OpCompleted"
    "validate_removal_operation op installation_id descriptor = Ok ()" "trim removal_id \<noteq> []"
proof -
  define op where "op = (case operation_by_id operation_id (operations_t (rel_client s)) of Some op \<Rightarrow> op
    | None \<Rightarrow> with_command_descriptor descriptor (pending_operation operation_id OpRelationshipRemoval installation_id removed_at))"
  have t: "trim installation_id \<noteq> []" "trim descriptor \<noteq> []" "trim operation_id \<noteq> []" "trim removal_id \<noteq> []"
    using assms by (auto simp: request_removal_def parse_id_def split: if_splits)
  have v: "validate_removal_operation op installation_id descriptor = Ok ()"
    using assms t unfolding request_removal_def Let_def
    by (cases "validate_removal_operation op installation_id descriptor") (auto simp: parse_id_def op_def)
  have run: "(if op_state op = OpCompleted then return (unchanged op)
        else if op_state op \<in> {OpCancelled, OpFailedPermanent}
        then throw (Conflict ''relationship removal operation is already terminal'')
        else removal_attempt op installation_id descriptor preserve removal_id removed_at) s = (Ok r, s')"
    using assms t v unfolding request_removal_def Let_def op_def by (simp add: parse_id_def del: insert_iff action_simps)
  show ?thesis
  proof (cases "op_state op = OpCompleted")
    case True
    then have "operation_by_id operation_id (operations_t (rel_client s)) = Some op"
      by (auto simp: op_def with_command_descriptor_def pending_operation_def split: option.splits)
    with True run t v show ?thesis by (intro that) (auto simp: unchanged_def)
  next
    case False
    then have "removal_attempt op installation_id descriptor preserve removal_id removed_at s = (Ok r, s')"
      using run by (auto split: if_splits)
    moreover have "op_id op = operation_id" "op_type op = OpRelationshipRemoval" "op_entity_id op = installation_id"
      using v by (auto simp: op_def operation_by_id_def with_command_descriptor_def pending_operation_def validate_removal_operation_def
          dest: lookup_key split: option.splits if_splits)
    ultimately show ?thesis using t that by (auto elim!: removal_attempt_okE)
  qed
qed

lemma removal_succeeds: "trim contact \<noteq> [] \<Longrightarrow> \<exists>s'. remove_relationship_with_id contact removed_at preserve removal_id epoch s = (Ok (), s')"
  using local_removal_run stale_removal_ignored(1) by blast

lemma request_removal_succeeds:
  assumes "trim operation_id \<noteq> []" "trim descriptor \<noteq> []" "trim installation_id \<noteq> []" "trim removal_id \<noteq> []"
    and "operation_by_id operation_id (operations_t (rel_client s)) = None"
  shows "\<exists>r s'. request_removal operation_id descriptor installation_id preserve removal_id removed_at s = (Ok r, s')"
proof -
  have "\<exists>r s'. removal_attempt op installation_id descriptor preserve removal_id removed_at s = (Ok r, s')" for op
  proof -
    define s1 where "s1 = on_client (\<lambda>c. c \<lparr> operations_t := put_operation (begin_attempt removed_at
      (op \<lparr> op_type := OpRelationshipRemoval, op_command_descriptor := Some descriptor \<rparr>)) (operations_t c) \<rparr>) s"
    obtain s2 where "remove_relationship_with_id installation_id removed_at preserve removal_id
        (i64_add (current_relationship_epoch installation_id s1) 1) s1 = (Ok (), s2)"
      using removal_succeeds [OF assms(3)] by blast
    then show ?thesis by (simp add: removal_attempt_def Let_def put_removal_operation_def s1_def [symmetric] seq_ok)
  qed
  then show ?thesis using assms
    by (simp add: request_removal_def parse_id_def Let_def validate_removal_operation_def with_command_descriptor_def pending_operation_def)
qed

text \<open>C23: A removal request is carried out once. When a request with an operation id has succeeded, the same request repeated
  with that operation id, whatever the removal id and time it is given then, reports the completed operation and changes
  nothing, so that no second notice is queued.\<close>

theorem removal_request_once:
  assumes "request_removal operation_id descriptor installation_id preserve removal_id removed_at s = (Ok r, s')"
    and "trim removal_id' \<noteq> []"
  shows "request_removal operation_id descriptor installation_id preserve' removal_id' removed_at' s' =
    (Ok (unchanged (fr_value r)), s')"
  using assms(1)
proof (rule request_removal_okE)
  fix op
  assume "trim installation_id \<noteq> []" "trim descriptor \<noteq> []" "trim operation_id \<noteq> []"
    and "operation_by_id operation_id (operations_t (rel_client s')) = Some op" "fr_value r = op" "op_state op = OpCompleted"
    and "validate_removal_operation op installation_id descriptor = Ok ()"
  then show ?thesis using request_removal_done [OF _ assms(2)] by simp
qed

theorem removal_request_once_witness:
  "\<exists>r s'. request_removal ''op'' ''remove ann'' ''ann'' True ''r1'' 50 empty_relation_store = (Ok r, s') \<and>
     request_removal ''op'' ''remove ann'' ''ann'' True ''r2'' 60 s' = (Ok (unchanged (fr_value r)), s')"
proof -
  have "trim ''op'' \<noteq> []" "trim ''remove ann'' \<noteq> []" "trim ''ann'' \<noteq> []" "trim ''r1'' \<noteq> []" by code_simp+
  moreover have "operation_by_id ''op'' (operations_t (rel_client empty_relation_store)) = None" by code_simp
  ultimately obtain r s' where run: "request_removal ''op'' ''remove ann'' ''ann'' True ''r1'' 50 empty_relation_store = (Ok r, s')"
    using request_removal_succeeds by blast
  have "trim ''r2'' \<noteq> []" by code_simp
  with run show ?thesis using removal_request_once by blast
qed

text \<open>C39: A removal asked for after the contact's own may be dropped silently. The epoch of a local removal is derived from
  the boundary alone; when the contact's notice has set a tombstone with a later epoch, the request completes and reports
  success, but nothing of it is done: the history the user asked to delete stays and no notice is queued.\<close>

theorem late_removal_dropped:
  assumes "tombstone_epoch installation_id s = Some e" "i64_add (current_relationship_epoch installation_id s) 1 < e"
    and "trim operation_id \<noteq> []" "trim descriptor \<noteq> []" "trim installation_id \<noteq> []" "trim removal_id \<noteq> []"
    and "operation_by_id operation_id (operations_t (rel_client s)) = None"
  shows "\<exists>r s'. request_removal operation_id descriptor installation_id False removal_id removed_at s = (Ok r, s') \<and>
    op_state (fr_value r) = OpCompleted \<and> rel_removals s' = rel_removals s \<and>
    messages_t (rel_client s') = messages_t (rel_client s) \<and> bodies_of installation_id s' = bodies_of installation_id s"
proof -
  let ?op = "begin_attempt removed_at (with_command_descriptor descriptor
     (pending_operation operation_id OpRelationshipRemoval installation_id removed_at))"
  have put: "put_removal_operation op t = (Ok (), on_client (\<lambda>c. c \<lparr> operations_t := put_operation op (operations_t c) \<rparr>) t)" for op t
    by (simp add: put_removal_operation_def)
  have "is_stale installation_id (i64_add (current_relationship_epoch installation_id s) 1) (on_client f s)" for f
    using assms(1,2) tombstone_epoch_frame [of "on_client f s" s] by (simp add: is_stale_def on_client_def)
  note stale = stale_removal_ignored(1) [OF this assms(5)]
  have attempt: "\<exists>r s'. removal_attempt op installation_id descriptor False removal_id removed_at s = (Ok r, s') \<and>
    op_state (fr_value r) = OpCompleted \<and> rel_removals s' = rel_removals s \<and>
    messages_t (rel_client s') = messages_t (rel_client s) \<and> bodies_of installation_id s' = bodies_of installation_id s" for op
    unfolding removal_attempt_def Let_def
    by (simp add: seq_def put on_client_fields stale changed_def complete_operation_def bodies_of_def conversations_of_def)
  show ?thesis
    using assms(3-7) attempt
    by (simp add: request_removal_def parse_id_def Let_def validate_removal_operation_def
          with_command_descriptor_def pending_operation_def)
qed

text \<open>The contact re-paired once without this device noticing the removal in between, and then removed it again.\<close>

definition outrun_store :: relation_store where
  "outrun_store = snd (apply_remote_relationship_removal ''ann'' 40 ''r9'' 4
     (snd (begin_verified_relationship ''ann'' 20 (snd (begin_verified_relationship ''ann'' 10 empty_relation_store)))))"

lemma outrun_facts:
  "tombstone_epoch ''ann'' outrun_store = Some 4" "current_relationship_epoch ''ann'' outrun_store = 2"
  "operations_t (rel_client outrun_store) = []" "rel_removals outrun_store = []"
proof -
  let ?a = "snd (begin_verified_relationship ''ann'' 10 empty_relation_store)"
  let ?b = "snd (begin_verified_relationship ''ann'' 20 ?a)"
  have b: "tombstone_epoch ''ann'' ?b = None" "current_relationship_epoch ''ann'' ?b = 2"
    "rel_client ?b = cl_store sample_client" "rel_removals ?b = []"
    by (simp_all add: begin_verified_relationship_def empty_relation_store_def tombstone_epoch_def current_relationship_epoch_def
          table_simps upsert_def i64_add_def sat_i64_def i64_max_def i64_min_def)
  have t: "trim ''ann'' \<noteq> []" "trim ''r9'' \<noteq> []" by code_simp+
  have "\<not> is_stale ''ann'' 4 ?b" by (simp add: is_stale_def b)
  note run = remote_removal_run [OF t this]
  show "operations_t (rel_client outrun_store) = []" "rel_removals outrun_store = []"
    unfolding outrun_store_def run using b(3,4)
    by (simp_all add: removal_writes_def Let_def delete_delivery_receipts_def upsert_tombstone_def delete_outbound_deliveries_def
          fail_pending_messages_def set_conversation_offline_def block_contact_def sample_client_def)
  show "tombstone_epoch ''ann'' outrun_store = Some 4" "current_relationship_epoch ''ann'' outrun_store = 2"
    using removal_epochs [OF t(1), of outrun_store 40 True "''r9''" 4 ?b "''ann''"] t(2) b(1,2) by (simp_all add: outrun_store_def)
qed

theorem late_removal_dropped_witness:
  "\<exists>r s'. request_removal ''op'' ''remove ann'' ''ann'' False ''r1'' 50 outrun_store = (Ok r, s') \<and>
     op_state (fr_value r) = OpCompleted \<and> rel_removals s' = []"
proof -
  have "trim ''op'' \<noteq> []" "trim ''remove ann'' \<noteq> []" "trim ''ann'' \<noteq> []" "trim ''r1'' \<noteq> []" by code_simp+
  moreover have "i64_add (current_relationship_epoch ''ann'' outrun_store) 1 < 4"
    by (simp add: outrun_facts i64_add_def sat_i64_def i64_max_def i64_min_def)
  moreover have "operation_by_id ''op'' (operations_t (rel_client outrun_store)) = None"
    by (simp add: outrun_facts operation_by_id_def table_simps)
  ultimately obtain r s' where "request_removal ''op'' ''remove ann'' ''ann'' False ''r1'' 50 outrun_store = (Ok r, s')"
    "op_state (fr_value r) = OpCompleted" "rel_removals s' = rel_removals outrun_store"
    using late_removal_dropped [OF outrun_facts(1)] by blast
  then show ?thesis by (auto simp: outrun_facts)
qed

end
