(* ===== verification/Spec2Isabelle.thy ===== *)
theory Spec2Isabelle
  imports
    Pairing_Process
    Rendezvous_Relay
    Retry_Policy
    Message_Delivery
    Peer_Inbound
    Mls_Snapshots
    Probe_Scheduler
    Pairing_Store
    Relationship_Store
begin

text \<open>
  A verification development for Torca (the \<open>torchat-*\<close> crates).
\<close>

text \<open>C3: A message arrives and its acknowledgement is understood. When one side's session writes a durable
  command, the frame it writes is accepted by the other side's session with the same id: the engine there
  is given exactly that envelope and an acknowledgement of receipt is queued; and any acknowledgement for
  it, of receipt, storage, delivery or rejection, passes the writer's check of session, message and
  ciphertext digest and is reported to its engine with the delivery it belongs to.\<close>

theorem message_arrives_acknowledged:
  assumes lib: "crypto_lib_ok lib"
    and command: "oc_sequence command \<noteq> 0" "oc_ciphertext command \<noteq> []" "is_queued_tag (oc_delivery command)"
    and envelope: "m = envelope_new lib alice session_id (oc_message_id command) (oc_conversation_id command)
      (oc_sequence command) (oc_created_at command) (oc_ciphertext command)"
    and sent: "send_outbound_command lib json alice session_id command unix_ms now s = (Ok (), s')"
      "ps_events_open s"
    and receiver: "is_peer_id session = identity_installation_id lib alice"
      "is_peer_key session = identity_public_key lib alice" "is_session_id session = session_id"
      "ib_writer_open r" "ib_events_open r"
  shows "last (ps_sent s') = (Some (oc_delivery command), MessageFrame m) \<and>
     handle_inbound_frame lib session now' (MessageFrame m) r =
       (Ok (), r\<lparr>ib_outbox := ib_outbox r @ [AckFrame (received_ack lib session_id m)],
                 ib_events := ib_events r @ [InboundMessage m]\<rparr>) \<and>
     (\<exists>sequence. fst (handle_ack inst session_id ((received_ack lib session_id m)\<lparr>pa_kind := kind\<rparr>) s') = Ok () \<and>
        ps_events (snd (handle_ack inst session_id ((received_ack lib session_id m)\<lparr>pa_kind := kind\<rparr>) s')) =
          ps_events s' @ [AckEvent (oc_delivery command) kind inst sequence])"
proof -
  have tag: "oc_delivery command \<noteq> TagEphemeral" "is_tracked (oc_delivery command)"
    using command(3) by (cases "oc_delivery command"; simp)+
  have "seq (send_endpoint_updates json (oc_delivery command) (oc_endpoint_updates command) None)
       (\<lambda>latest. send_message lib json alice session_id command latest now) s = (Ok (), s')"
    using sent(1) tag(2) by (cases "oc_delivery command") (simp_all add: send_outbound_command_def Let_def)
  then obtain latest s1 where s1: "send_endpoint_updates json (oc_delivery command) (oc_endpoint_updates command) None s = (Ok latest, s1)"
      "send_message lib json alice session_id command latest now s1 = (Ok (), s')"
    by (rule seq_okE)
  have opened: "ps_events_open s1" using send_updates_effect [OF s1(1)] sent(2) by (simp add: core_eq_def)
  note ok = send_message_ok [OF s1(2) tag(1) envelope]
  have id: "me_message_id m = oc_message_id command" using envelope by (simp add: envelope_new_fields)
  show ?thesis
    using ok(1) own_message_accepted [OF lib command(1,2) envelope receiver]
      ack_understood [OF ok(2) [folded id]] opened ok(3) by auto
qed

theorem message_arrives_acknowledged_witness:
  "\<exists>s'. send_outbound_command sample_crypto session_json sample_alice 77 sample_command 0 0 sample_session = (Ok (), s') \<and>
     last (ps_sent s') = (Some (TagMessage ''m''), MessageFrame sample_envelope) \<and>
     inbound_envelopes (ib_events (snd (handle_inbound_frame sample_crypto served_session 0 (MessageFrame sample_envelope)
       (inbound_started served_session sample_shared True)))) = [sample_envelope]"
proof -
  have writes: "ps_write_results sample_session = []" "ps_events_open sample_session" by (simp_all add: sample_session_def)
  have command: "oc_sequence sample_command \<noteq> 0" "oc_ciphertext sample_command \<noteq> []"
      "is_queued_tag (oc_delivery sample_command)" "oc_delivery sample_command = TagMessage ''m''"
      "sample_envelope = envelope_new sample_crypto sample_alice 77 (oc_message_id sample_command)
        (oc_conversation_id sample_command) (oc_sequence sample_command) (oc_created_at sample_command)
        (oc_ciphertext sample_command)"
    by (simp_all add: sample_command_def sample_envelope_def)
  let ?r = "inbound_started served_session sample_shared True"
  have r: "is_peer_id served_session = identity_installation_id sample_crypto sample_alice"
      "is_peer_key served_session = identity_public_key sample_crypto sample_alice" "is_session_id served_session = 77"
      "ib_writer_open ?r" "ib_events_open ?r" "inbound_envelopes (ib_events ?r) = []"
    by (simp_all add: served_session_def inbound_started_def post_event_def)
  from message_arrives_acknowledged [OF sample_crypto_ok command(1-3,5) sample_writes [OF writes(1)] writes(2) r(1-5)]
  show ?thesis using sample_writes [OF writes(1)] command(4) r(6) by simp
qed

end
